(* ===== verification/Prelude.thy ===== *)
theory Prelude
  imports Main "HOL-Library.Word" "HOL-Library.Finite_Map" "HOL-Library.List_Lexorder"
begin

text \<open>
  Types, byte-level helpers and generic lemmas the components share.

  Machine integers keep the width they have in the Rust sources (\<open>u8\<close>, \<open>u16\<close>, \<open>u32\<close>,
  \<open>u64\<close>, and \<open>i32\<close> read with \<open>sint\<close>); \<open>usize\<close> values that are lengths of lists are \<open>nat\<close>.
  A \<open>Vec<u8>\<close> or \<open>String\<close> is a list of bytes.  A C string argument
  (\<open>*const c_char\<close>) is \<open>None\<close> for the null pointer and \<open>Some\<close> of its bytes before the
  terminating NUL otherwise.  A \<open>HashMap<String, Vec<u8>>\<close> is a finite map, whose
  equality is the extensional equality of the Rust map.
\<close>

unbundle bit_operations_syntax

type_synonym u8 = "8 word"
type_synonym u16 = "16 word"
type_synonym u32 = "32 word"
type_synonym u64 = "64 word"
type_synonym i32 = "32 word"

type_synonym bytes = "u8 list"
type_synonym cstr = "bytes option"
type_synonym xattrs = "(bytes, bytes) fmap"

text \<open>The bytes of an ASCII literal of the source.\<close>

definition bytes_of :: "string \<Rightarrow> bytes" where
  "bytes_of s = map of_char s"

lemma length_bytes_of [simp]: "length (bytes_of s) = length s"
  by (simp add: bytes_of_def)

text \<open>
  Collections: \<open>store_simps\<close> holds the equations that describe what an operation does to a
  store as seen through its lookup, \<open>frame_simps\<close> the fields an operation leaves alone.
\<close>

named_theorems store_simps "effect of the store operations on lookups"
named_theorems frame_simps "parts of the state an operation does not touch"

section \<open>Fixed-width integers as bytes\<close>

text \<open>\<open>u32::to_le_bytes\<close>, \<open>u32::from_le_bytes\<close> and their big-endian counterparts.\<close>

definition le32 :: "u32 \<Rightarrow> bytes" where
  "le32 w = [ucast w, ucast (drop_bit 8 w), ucast (drop_bit 16 w), ucast (drop_bit 24 w)]"

definition join32 :: "u8 \<Rightarrow> u8 \<Rightarrow> u8 \<Rightarrow> u8 \<Rightarrow> u32" where
  "join32 a b c d =
     ucast a OR push_bit 8 (ucast b) OR push_bit 16 (ucast c) OR push_bit 24 (ucast d)"

fun of_le32 :: "bytes \<Rightarrow> u32" where
  "of_le32 (a # b # c # d # _) = join32 a b c d"
| "of_le32 _ = 0"

definition be32 :: "u32 \<Rightarrow> bytes" where
  "be32 w = [ucast (drop_bit 24 w), ucast (drop_bit 16 w), ucast (drop_bit 8 w), ucast w]"

fun of_be32 :: "bytes \<Rightarrow> u32" where
  "of_be32 (d # c # b # a # _) = join32 a b c d"
| "of_be32 _ = 0"

lemma length_le32 [simp]: "length (le32 w) = 4"
  by (simp add: le32_def)

lemma length_be32 [simp]: "length (be32 w) = 4"
  by (simp add: be32_def)

lemma join32_split:
  "join32 (ucast w) (ucast (drop_bit 8 w)) (ucast (drop_bit 16 w)) (ucast (drop_bit 24 w)) = w"
proof (rule bit_word_eqI)
  fix n assume "n < LENGTH(32)"
  then have n: "n < 32" by simp
  consider "n < 8" | "8 \<le> n" "n < 16" | "16 \<le> n" "n < 24" | "24 \<le> n" "n < 32"
    using n by linarith
  then show "bit (join32 (ucast w) (ucast (drop_bit 8 w)) (ucast (drop_bit 16 w))
      (ucast (drop_bit 24 w))) n = bit w n"
    by cases (auto simp: join32_def bit_simps)
qed

lemma of_le32_le32 [simp]: "of_le32 (le32 w @ bs) = w"
  by (simp add: le32_def join32_split)

lemma of_le32_le32_Nil [simp]: "of_le32 (le32 w) = w"
  using of_le32_le32 [of w "[]"] by simp

lemma of_be32_be32 [simp]: "of_be32 (be32 w @ bs) = w"
  by (simp add: be32_def join32_split)

lemma of_be32_be32_Nil [simp]: "of_be32 (be32 w) = w"
  using of_be32_be32 [of w "[]"] by simp

lemma unat_of_nat_u32 [simp]: "n < 2 ^ 32 \<Longrightarrow> unat (word_of_nat n :: u32) = n"
  by (simp add: unat_of_nat)

section \<open>Generic lemmas\<close>

lemma nth_list_update_conv:
  "i < length xs \<Longrightarrow> xs[i := x] ! j = (if j = i then x else xs ! j)"
  by (cases "i = j") simp_all

lemma add_mod_inj:
  fixes s i j N :: nat
  assumes "i < N" "j < N" "(s + i) mod N = (s + j) mod N"
  shows "i = j"
proof -
  have "(int s + int i) mod int N = (int s + int j) mod int N"
    using assms(3) by (metis of_nat_add of_nat_mod)
  then have "(int s + int i - int s) mod int N = (int s + int j - int s) mod int N"
    by (rule mod_diff_cong) simp
  with assms(1,2) show ?thesis by simp
qed

lemma add_mod_surj:
  fixes s p N :: nat
  assumes "p < N" "s < N"
  shows "\<exists>j<N. (s + j) mod N = p"
proof (cases "s \<le> p")
  case True
  with assms have "(s + (p - s)) mod N = p" and "p - s < N" by simp_all
  then show ?thesis by blast
next
  case False
  with assms have "s + (N - s + p) = N + p" and "N - s + p < N" by simp_all
  with assms have "(s + (N - s + p)) mod N = p" by (simp only: mod_add_self1 mod_less)
  with \<open>N - s + p < N\<close> show ?thesis by blast
qed

lemma word_mod_less_nat:
  fixes a b :: "'a::len word"
  assumes "0 < unat b"
  shows "unat (a mod b) < unat b"
  using assms by (simp add: unat_mod)

lemma unat_less_u32: "unat (w :: u32) < 2 ^ 32"
  using unsigned_less [of w] by simp

lemma unat_ucast_u32_u64 [simp]: "unat (ucast (w :: u32) :: u64) = unat w"
  using unat_less_u32 [of w] by (simp add: unsigned_ucast_eq take_bit_nat_eq_self)

lemma unat_ucast_u64_u32:
  "unat (x :: u64) < 2 ^ 32 \<Longrightarrow> unat (ucast x :: u32) = unat x"
  by (simp add: unsigned_ucast_eq take_bit_nat_eq_self)

end
