(* ===== verification/Inode_Store.thy ===== *)
theory Inode_Store
  imports Prelude
begin

text \<open>
  The fake metadata of one inode (\<open>FakeInode\<close>, \<open>InodeKey\<close> of \<open>pseudoroot-core/src/state.rs\<close>) and
  the contract every table of such metadata keeps.  The program has three tables with the
  same four operations, the per-process \<open>FakeRootState\<close>, the shared-memory \<open>ShmInodeMap\<close>
  and the daemon behind its RPCs; the interposed library uses whichever is active.  The
  locale \<open>inode_store\<close> states what the library relies on, and each table is an
  interpretation of it in the theory of its own component.
\<close>

type_synonym inode_key = "u64 \<times> u64"

record fake_inode =
  i_uid :: u32
  i_gid :: u32
  i_mode :: "u32 option"
  i_rdev :: "u64 option"
  i_xattrs :: xattrs

definition fake_inode_new :: "u32 \<Rightarrow> u32 \<Rightarrow> fake_inode" where
  "fake_inode_new uid gid =
     \<lparr>i_uid = uid, i_gid = gid, i_mode = None, i_rdev = None, i_xattrs = fmempty\<rparr>"

text \<open>\<open>ID_UNCHANGED\<close> is \<open>u32::MAX\<close>, the sentinel that leaves one id of a chown alone.\<close>

definition ID_UNCHANGED :: u32 where
  "ID_UNCHANGED = 0xFFFFFFFF"

text \<open>The body of the two closures of \<open>upsert_chown\<close>: overwrite the ids that are given.\<close>

definition merge_ids :: "u32 \<Rightarrow> u32 \<Rightarrow> fake_inode \<Rightarrow> fake_inode" where
  "merge_ids uid gid inode =
     (let inode = (if uid \<noteq> ID_UNCHANGED then inode\<lparr>i_uid := uid\<rparr> else inode)
      in if gid \<noteq> ID_UNCHANGED then inode\<lparr>i_gid := gid\<rparr> else inode)"

section \<open>Facts about one inode\<close>

lemma merge_ids_sel [simp]:
  "i_uid (merge_ids u g i) = (if u = ID_UNCHANGED then i_uid i else u)"
  "i_gid (merge_ids u g i) = (if g = ID_UNCHANGED then i_gid i else g)"
  "i_mode (merge_ids u g i) = i_mode i"
  "i_rdev (merge_ids u g i) = i_rdev i"
  "i_xattrs (merge_ids u g i) = i_xattrs i"
  by (simp_all add: merge_ids_def Let_def)

lemma fake_inode_new_sel [simp]:
  "i_uid (fake_inode_new u g) = u" "i_gid (fake_inode_new u g) = g"
  "i_mode (fake_inode_new u g) = None" "i_rdev (fake_inode_new u g) = None"
  "i_xattrs (fake_inode_new u g) = fmempty"
  by (simp_all add: fake_inode_new_def)

lemma fake_inode_eqI:
  fixes i j :: fake_inode
  assumes "i_uid i = i_uid j" "i_gid i = i_gid j" "i_mode i = i_mode j"
    "i_rdev i = i_rdev j" "i_xattrs i = i_xattrs j"
  shows "i = j"
  using assms by (cases i, cases j) simp

lemma merge_ids_unchanged [simp]: "merge_ids ID_UNCHANGED ID_UNCHANGED i = i"
  by (simp add: merge_ids_def)

lemma merge_ids_idem [simp]: "merge_ids u g (merge_ids u g i) = merge_ids u g i"
  by (rule fake_inode_eqI) simp_all

section \<open>Sequences of table operations and their specification\<close>

text \<open>
  The operations that change a table, and the effect each promises on the partial map from
  keys to metadata.  \<open>canon\<close> is the form in which a table can represent an inode: the
  identity for the in-process table, a lossy normalisation for the shared-memory one.
\<close>

datatype store_op =
    Upsert inode_key fake_inode
  | Remove inode_key
  | Chown inode_key u32 u32 u32 u32

fun op_key :: "store_op \<Rightarrow> inode_key" where
  "op_key (Upsert k i) = k"
| "op_key (Remove k) = k"
| "op_key (Chown k u g du dg) = k"

text \<open>Which operations may need a free place.\<close>

fun inserts :: "store_op \<Rightarrow> bool" where
  "inserts (Upsert k i) = True"
| "inserts (Remove k) = False"
| "inserts (Chown k u g du dg) = True"

fun spec_op ::
    "(fake_inode \<Rightarrow> fake_inode) \<Rightarrow> store_op \<Rightarrow> (inode_key \<rightharpoonup> fake_inode) \<Rightarrow> (inode_key \<rightharpoonup> fake_inode)"
where
  "spec_op canon (Upsert k i) m = m(k \<mapsto> canon i)"
| "spec_op canon (Remove k) m = m(k := None)"
| "spec_op canon (Chown k u g du dg) m =
     m(k \<mapsto> merge_ids u g (case m k of Some i \<Rightarrow> i | None \<Rightarrow> fake_inode_new du dg))"

fun run_op ::
    "(inode_key \<Rightarrow> fake_inode \<Rightarrow> 's \<Rightarrow> 's) \<Rightarrow> (inode_key \<Rightarrow> 's \<Rightarrow> 's) \<Rightarrow>
     (inode_key \<Rightarrow> u32 \<Rightarrow> u32 \<Rightarrow> u32 \<Rightarrow> u32 \<Rightarrow> 's \<Rightarrow> 's) \<Rightarrow> store_op \<Rightarrow> 's \<Rightarrow> 's"
where
  "run_op ups rem cho (Upsert k i) s = ups k i s"
| "run_op ups rem cho (Remove k) s = rem k s"
| "run_op ups rem cho (Chown k u g du dg) s = cho k u g du dg s"

text \<open>No insertion of the sequence meets a table without room for its key.\<close>

fun never_full ::
    "('s \<Rightarrow> inode_key \<Rightarrow> bool) \<Rightarrow> (store_op \<Rightarrow> 's \<Rightarrow> 's) \<Rightarrow> store_op list \<Rightarrow> 's \<Rightarrow> bool"
where
  "never_full room step [] s = True"
| "never_full room step (x # xs) s =
     ((inserts x \<longrightarrow> room s (op_key x)) \<and> never_full room step xs (step x s))"

section \<open>The contract\<close>

locale inode_store =
  fixes invar :: "'s \<Rightarrow> bool"
    and lookup :: "'s \<Rightarrow> inode_key \<Rightarrow> fake_inode option"
    and upsert :: "inode_key \<Rightarrow> fake_inode \<Rightarrow> 's \<Rightarrow> 's"
    and remove :: "inode_key \<Rightarrow> 's \<Rightarrow> 's"
    and chown :: "inode_key \<Rightarrow> u32 \<Rightarrow> u32 \<Rightarrow> u32 \<Rightarrow> u32 \<Rightarrow> 's \<Rightarrow> 's"
    and room :: "'s \<Rightarrow> inode_key \<Rightarrow> bool"
    and canon :: "fake_inode \<Rightarrow> fake_inode"
  assumes invar_upsert: "invar s \<Longrightarrow> invar (upsert k i s)"
    and invar_remove: "invar s \<Longrightarrow> invar (remove k s)"
    and invar_chown: "invar s \<Longrightarrow> invar (chown k u g du dg s)"
    and lookup_upsert: "invar s \<Longrightarrow> room s k \<Longrightarrow> lookup (upsert k i s) = (lookup s)(k \<mapsto> canon i)"
    and lookup_upsert_full: "invar s \<Longrightarrow> \<not> room s k \<Longrightarrow> lookup (upsert k i s) = lookup s"
    and lookup_remove: "invar s \<Longrightarrow> lookup (remove k s) = (lookup s)(k := None)"
    and lookup_chown: "invar s \<Longrightarrow> room s k \<Longrightarrow> lookup (chown k u g du dg s) =
          (lookup s)(k \<mapsto> merge_ids u g
             (case lookup s k of Some i \<Rightarrow> i | None \<Rightarrow> fake_inode_new du dg))"
    and lookup_chown_full: "invar s \<Longrightarrow> \<not> room s k \<Longrightarrow> lookup (chown k u g du dg s) = lookup s"
    and room_present: "invar s \<Longrightarrow> lookup s k = Some i \<Longrightarrow> room s k"
    and lookup_canon: "invar s \<Longrightarrow> lookup s k = Some i \<Longrightarrow> canon i = i"
begin

lemmas store_laws =
  invar_upsert invar_remove invar_chown lookup_upsert lookup_remove lookup_chown

lemma invar_op: "invar s \<Longrightarrow> invar (run_op upsert remove chown x s)"
  by (cases x) (simp_all add: store_laws)

lemma lookup_op:
  "invar s \<Longrightarrow> (inserts x \<longrightarrow> room s (op_key x)) \<Longrightarrow>
     lookup (run_op upsert remove chown x s) = spec_op canon x (lookup s)"
  by (cases x) (simp_all add: store_laws)

text \<open>Any sequence of operations that never meets a full table implements the map.\<close>

lemma fold_refines:
  "invar s \<Longrightarrow> never_full room (run_op upsert remove chown) xs s \<Longrightarrow>
     invar (fold (run_op upsert remove chown) xs s) \<and>
     lookup (fold (run_op upsert remove chown) xs s) = fold (spec_op canon) xs (lookup s)"
  by (induction xs arbitrary: s) (simp_all add: invar_op lookup_op)

text \<open>An operation on one key never shows at another, full table or not.\<close>

lemma lookup_op_other:
  assumes "invar s" and "k \<noteq> op_key x"
  shows "lookup (run_op upsert remove chown x s) k = lookup s k"
proof (cases x)
  case (Upsert k' i)
  with assms show ?thesis
    by (cases "room s k'") (simp_all add: store_laws lookup_upsert_full)
next
  case (Remove k')
  with assms show ?thesis by (simp add: store_laws)
next
  case (Chown k' u g du dg)
  with assms show ?thesis
    by (cases "room s k'") (simp_all add: store_laws lookup_chown_full)
qed

text \<open>What was dropped leaves no trace in a later entry under the same key.\<close>

lemma chown_after_remove:
  assumes "invar s" and "room (remove k s) k"
  shows "lookup (chown k u g du dg (remove k s)) k = Some (merge_ids u g (fake_inode_new du dg))"
  using assms by (simp add: store_laws)

text \<open>A chown keeps the mode, the device number and the attributes of an entry.\<close>

lemma chown_present:
  assumes "invar s" and "lookup s k = Some i"
  shows "lookup (chown k u g du dg s) k = Some (merge_ids u g i)"
  using assms room_present [OF assms] by (simp add: store_laws)

text \<open>Reading an entry and writing it back changes nothing.\<close>

lemma upsert_lookup:
  assumes "invar s" and "lookup s k = Some i"
  shows "lookup (upsert k i s) = lookup s"
  using assms room_present [OF assms] lookup_canon [OF assms]
  by (simp add: store_laws fun_upd_idem)

lemma room_upsert: "invar s \<Longrightarrow> room s k \<Longrightarrow> room (upsert k i s) k"
  using room_present [of "upsert k i s" k "canon i"] by (simp add: store_laws)

lemma chown_idem:
  assumes "invar s" and "room s k"
  shows "lookup (chown k u g du dg (chown k u g du' dg' s)) = lookup (chown k u g du' dg' s)"
proof -
  let ?j = "merge_ids u g (case lookup s k of Some i \<Rightarrow> i | None \<Rightarrow> fake_inode_new du' dg')"
  have "lookup (chown k u g du' dg' s) k = Some ?j"
    using assms by (simp add: store_laws)
  with assms show ?thesis
    using room_present [of "chown k u g du' dg' s" k ?j]
    by (simp add: store_laws fun_upd_idem)
qed

end

end
