(* ===== verification/Inode_State.thy ===== *)
theory Inode_State
  imports Inode_Store
begin

text \<open>
  Module \<open>state\<close> of \<open>pseudoroot-core\<close> (\<open>pseudoroot-core/src/state.rs\<close>): the fake metadata of
  one inode and the per-process table of them.  A \<open>DashMap\<close> operation is one atomic step on
  the table, a map from \<open>(dev, ino)\<close> keys; the two atomics hold the current fake ids.
\<close>

record fake_root_state =
  inode_map :: "inode_key \<rightharpoonup> fake_inode"
  frs_current_uid :: u32
  frs_current_gid :: u32

definition fake_root_state_new :: fake_root_state where
  "fake_root_state_new =
     \<lparr>inode_map = Map.empty, frs_current_uid = 0, frs_current_gid = 0\<rparr>"

definition frs_set_current :: "u32 \<Rightarrow> u32 \<Rightarrow> fake_root_state \<Rightarrow> fake_root_state" where
  "frs_set_current uid gid s = s\<lparr>frs_current_uid := uid, frs_current_gid := gid\<rparr>"

definition frs_set_inode :: "inode_key \<Rightarrow> fake_inode \<Rightarrow> fake_root_state \<Rightarrow> fake_root_state" where
  "frs_set_inode key inode s = s\<lparr>inode_map := (inode_map s)(key \<mapsto> inode)\<rparr>"

definition frs_get_inode :: "fake_root_state \<Rightarrow> inode_key \<Rightarrow> fake_inode option" where
  "frs_get_inode s key = inode_map s key"

definition frs_remove_inode ::
    "inode_key \<Rightarrow> fake_root_state \<Rightarrow> fake_inode option \<times> fake_root_state" where
  "frs_remove_inode key s = (inode_map s key, s\<lparr>inode_map := (inode_map s)(key := None)\<rparr>)"

definition frs_upsert_chown ::
    "inode_key \<Rightarrow> u32 \<Rightarrow> u32 \<Rightarrow> u32 \<Rightarrow> u32 \<Rightarrow> fake_root_state \<Rightarrow> fake_root_state" where
  "frs_upsert_chown key uid gid default_uid default_gid s =
     s\<lparr>inode_map := (inode_map s)(key \<mapsto>
        (case inode_map s key of
           Some inode \<Rightarrow> merge_ids uid gid inode
         | None \<Rightarrow> merge_ids uid gid (fake_inode_new default_uid default_gid)))\<rparr>"

text \<open>
  \<open>GLOBAL_STATE\<close> is a \<open>OnceLock\<close>: the three accessors first run \<open>get_or_init\<close>.
  (A poisoned lock, which panics, needs a panic while the lock is held; no code under a
  guard panics.)
\<close>

definition global_get_or_init :: "fake_root_state option \<Rightarrow> fake_root_state" where
  "global_get_or_init g = (case g of Some s \<Rightarrow> s | None \<Rightarrow> fake_root_state_new)"

section \<open>Facts about the operations\<close>

lemma frs_get_set [store_simps]:
  "frs_get_inode (frs_set_inode k i s) k' = (if k' = k then Some i else frs_get_inode s k')"
  by (simp add: frs_get_inode_def frs_set_inode_def)

lemma frs_get_remove [store_simps]:
  "frs_get_inode (snd (frs_remove_inode k s)) k' = (if k' = k then None else frs_get_inode s k')"
  by (simp add: frs_get_inode_def frs_remove_inode_def)

lemma frs_get_chown [store_simps]:
  "frs_get_inode (frs_upsert_chown k u g du dg s) k' =
     (if k' = k then Some (merge_ids u g
        (case frs_get_inode s k of Some i \<Rightarrow> i | None \<Rightarrow> fake_inode_new du dg))
      else frs_get_inode s k')"
  by (simp add: frs_get_inode_def frs_upsert_chown_def split: option.splits)

lemma frs_get_set_current [store_simps]:
  "frs_get_inode (frs_set_current u g s) k = frs_get_inode s k"
  by (simp add: frs_get_inode_def frs_set_current_def)

lemma frs_get_new [store_simps]: "frs_get_inode fake_root_state_new k = None"
  by (simp add: frs_get_inode_def fake_root_state_new_def)

lemma frs_current_frame [frame_simps]:
  "frs_current_uid (frs_set_inode k i s) = frs_current_uid s"
  "frs_current_gid (frs_set_inode k i s) = frs_current_gid s"
  "frs_current_uid (snd (frs_remove_inode k s)) = frs_current_uid s"
  "frs_current_gid (snd (frs_remove_inode k s)) = frs_current_gid s"
  "frs_current_uid (frs_upsert_chown k u g du dg s) = frs_current_uid s"
  "frs_current_gid (frs_upsert_chown k u g du dg s) = frs_current_gid s"
  by (simp_all add: frs_set_inode_def frs_remove_inode_def frs_upsert_chown_def)

lemma frs_set_current_ids [simp]:
  "frs_current_uid (frs_set_current u g s) = u" "frs_current_gid (frs_set_current u g s) = g"
  by (simp_all add: frs_set_current_def)

section \<open>The in-process table keeps the contract\<close>

interpretation proc: inode_store "\<lambda>_. True" frs_get_inode frs_set_inode
    "\<lambda>k s. snd (frs_remove_inode k s)" frs_upsert_chown "\<lambda>_ _. True" id
  by unfold_locales (auto simp: fun_eq_iff store_simps)

end
