(* ===== verification/Shm_Table.thy ===== *)
theory Shm_Table
  imports Inode_Store
begin

text \<open>
  The open-addressed hash table of the session's shared memory
  (\<open>pseudoroot-core/src/shm_map.rs\<close>): header, slots and attribute pages, the hash and the
  linear probe, and the invariant that makes a probe find what an earlier one inserted.
  The operations that use the probe are in \<open>Shm_Map\<close>.
\<close>

definition SHM_MAGIC :: u32 where "SHM_MAGIC = 0x50445253"
definition SHM_VERSION :: u32 where "SHM_VERSION = 3"
definition XATTR_PAGE_SIZE :: nat where "XATTR_PAGE_SIZE = 4096"
definition SLOT_EMPTY :: u32 where "SLOT_EMPTY = 0"
definition SLOT_LIVE :: u32 where "SLOT_LIVE = 1"
definition SLOT_TOMBSTONE :: u32 where "SLOT_TOMBSTONE = 2"

datatype probe = Found u32 | Vacant u32 | Full

record shm_header =
  hd_magic :: u32
  hd_version :: u32
  hd_slot_count :: u32
  hd_current_uid :: u32
  hd_current_gid :: u32

record slot =
  sl_occupied :: u32
  sl_dev :: u64
  sl_ino :: u64
  sl_uid :: u32
  sl_gid :: u32
  sl_mode :: u32
  sl_rdev :: u64

text \<open>
  The mapped memory, \<open>Header | Slot[slot_count] | XattrPage[slot_count]\<close>, and the handle
  \<open>ShmInodeMap\<close> a process holds on it.  (\<open>Shm_Layout\<close> shows that the three regions are
  disjoint and inside the mapping, which is what makes this structured view right.)
\<close>

record shm_mem =
  sh_header :: shm_header
  sh_slots :: "slot list"
  sh_pages :: "bytes list"

record shm_map =
  sm_len :: nat
  sm_slot_count :: u32
  sm_fd :: i32

definition shm_slot :: "shm_mem \<Rightarrow> u32 \<Rightarrow> slot" where
  "shm_slot m index = sh_slots m ! unat index"

definition shm_hash :: "shm_map \<Rightarrow> u64 \<Rightarrow> u64 \<Rightarrow> u32" where
  "shm_hash h dev ino =
     (let mixed = dev XOR (ino * 0x9E3779B97F4A7C15)
      in ucast (mixed mod ucast (sm_slot_count h)))"

text \<open>The \<open>for\<close> loop of \<open>probe\<close>, its remaining iterations as the first argument.\<close>

fun probe_loop ::
    "nat \<Rightarrow> shm_map \<Rightarrow> shm_mem \<Rightarrow> u64 \<Rightarrow> u64 \<Rightarrow> u32 \<Rightarrow> u32 option \<Rightarrow> probe" where
  "probe_loop 0 h m dev ino idx reuse = Full"
| "probe_loop (Suc steps) h m dev ino idx reuse =
     (let slot = shm_slot m idx in
      if sl_occupied slot = SLOT_EMPTY
      then Vacant (case reuse of Some r \<Rightarrow> r | None \<Rightarrow> idx)
      else if sl_occupied slot = SLOT_LIVE \<and> sl_dev slot = dev \<and> sl_ino slot = ino
      then Found idx
      else probe_loop steps h m dev ino ((idx + 1) mod sm_slot_count h)
             (if sl_occupied slot = SLOT_TOMBSTONE \<and> reuse = None then Some idx else reuse))"

definition shm_probe :: "shm_map \<Rightarrow> shm_mem \<Rightarrow> u64 \<Rightarrow> u64 \<Rightarrow> probe" where
  "shm_probe h m dev ino =
     probe_loop (unat (sm_slot_count h)) h m dev ino (shm_hash h dev ino) None"

section \<open>Positions on a probe path\<close>

text \<open>
  From here on positions are natural numbers.  \<open>path_pos h s j\<close> is the slot a probe that
  starts at \<open>s\<close> looks at in its iteration \<open>j\<close>.
\<close>

abbreviation nslots :: "shm_map \<Rightarrow> nat" where
  "nslots h \<equiv> unat (sm_slot_count h)"

definition path_pos :: "shm_map \<Rightarrow> nat \<Rightarrow> nat \<Rightarrow> nat" where
  "path_pos h s j = (s + j) mod nslots h"

definition is_empty_at :: "shm_mem \<Rightarrow> nat \<Rightarrow> bool" where
  "is_empty_at m p \<longleftrightarrow> sl_occupied (sh_slots m ! p) = SLOT_EMPTY"

definition is_live_at :: "shm_mem \<Rightarrow> nat \<Rightarrow> bool" where
  "is_live_at m p \<longleftrightarrow> sl_occupied (sh_slots m ! p) = SLOT_LIVE"

definition is_tombstone_at :: "shm_mem \<Rightarrow> nat \<Rightarrow> bool" where
  "is_tombstone_at m p \<longleftrightarrow> sl_occupied (sh_slots m ! p) = SLOT_TOMBSTONE"

definition key_at :: "shm_mem \<Rightarrow> nat \<Rightarrow> inode_key" where
  "key_at m p = (sl_dev (sh_slots m ! p), sl_ino (sh_slots m ! p))"

definition holds_at :: "shm_mem \<Rightarrow> nat \<Rightarrow> inode_key \<Rightarrow> bool" where
  "holds_at m p k \<longleftrightarrow> is_live_at m p \<and> key_at m p = k"

definition home :: "shm_map \<Rightarrow> inode_key \<Rightarrow> nat" where
  "home h k = unat (shm_hash h (fst k) (snd k))"

lemmas slot_state_defs = is_empty_at_def is_live_at_def is_tombstone_at_def key_at_def holds_at_def
lemmas slot_codes = SLOT_EMPTY_def SLOT_LIVE_def SLOT_TOMBSTONE_def

lemma slot_states_disjoint:
  "is_live_at m p \<Longrightarrow> \<not> is_empty_at m p"
  "is_tombstone_at m p \<Longrightarrow> \<not> is_empty_at m p"
  "is_tombstone_at m p \<Longrightarrow> \<not> is_live_at m p"
  by (simp_all add: slot_state_defs slot_codes)

lemma path_pos_0 [simp]: "s < nslots h \<Longrightarrow> path_pos h s 0 = s"
  by (simp add: path_pos_def)

lemma path_pos_less: "0 < nslots h \<Longrightarrow> path_pos h s j < nslots h"
  by (simp add: path_pos_def)

lemma path_pos_Suc: "path_pos h (path_pos h s (Suc 0)) j = path_pos h s (Suc j)"
  by (simp add: path_pos_def mod_simps)

lemma path_pos_inj:
  "i < nslots h \<Longrightarrow> j < nslots h \<Longrightarrow> path_pos h s i = path_pos h s j \<Longrightarrow> i = j"
  unfolding path_pos_def by (rule add_mod_inj)

text \<open>Every slot is on every probe path.\<close>

lemma path_pos_surj: "p < nslots h \<Longrightarrow> s < nslots h \<Longrightarrow> \<exists>j<nslots h. path_pos h s j = p"
  unfolding path_pos_def by (rule add_mod_surj)

lemma unat_shm_hash:
  assumes "0 < nslots h"
  shows "unat (shm_hash h dev ino) = unat (dev XOR (ino * 0x9E3779B97F4A7C15)) mod nslots h"
proof -
  let ?x = "dev XOR (ino * 0x9E3779B97F4A7C15)"
  have mod: "unat (?x mod ucast (sm_slot_count h)) = unat ?x mod nslots h"
    by (simp add: unat_mod)
  also have "\<dots> < nslots h" using assms by simp
  also have "\<dots> < 2 ^ 32" by (rule unat_less_u32)
  finally have "unat (ucast (?x mod ucast (sm_slot_count h) :: u64) :: u32)
      = unat (?x mod ucast (sm_slot_count h))"
    by (rule unat_ucast_u64_u32)
  with mod show ?thesis by (simp add: shm_hash_def)
qed

lemma home_less: "0 < nslots h \<Longrightarrow> home h k < nslots h"
  by (simp add: home_def unat_shm_hash)

lemma next_index:
  assumes "unat idx < nslots h"
  shows "unat ((idx + 1) mod sm_slot_count h) = path_pos h (unat idx) (Suc 0)"
proof -
  have "unat idx + 1 < 2 ^ 32"
    using assms unat_less_u32 [of "sm_slot_count h"] by linarith
  then have "unat (idx + 1) = unat idx + 1"
    by (simp add: unat_word_ariths)
  then show ?thesis by (simp add: unat_mod path_pos_def)
qed

section \<open>What a probe finds\<close>

text \<open>
  \<open>probe_step\<close> is the loop body with positions in place of indices; the lemmas after it
  describe each outcome of the loop by what lies on the path: \<open>passed h m k s t\<close> says that
  the first \<open>t\<close> slots from \<open>s\<close> are neither empty nor a live entry for \<open>k\<close>.
\<close>

definition passed :: "shm_map \<Rightarrow> shm_mem \<Rightarrow> inode_key \<Rightarrow> nat \<Rightarrow> nat \<Rightarrow> bool" where
  "passed h m k s t \<longleftrightarrow>
     (\<forall>j<t. \<not> is_empty_at m (path_pos h s j) \<and> \<not> holds_at m (path_pos h s j) k)"

lemma passed_0 [simp]: "passed h m k s 0"
  by (simp add: passed_def)

lemma passed_Suc:
  "s < nslots h \<Longrightarrow> passed h m k s (Suc t) \<longleftrightarrow>
     \<not> is_empty_at m s \<and> \<not> holds_at m s k \<and> passed h m k (path_pos h s (Suc 0)) t"
  by (simp add: passed_def All_less_Suc2 path_pos_Suc)

lemma probe_step:
  assumes "unat idx < nslots h"
  shows "probe_loop (Suc t) h m dev ino idx r =
     (if is_empty_at m (unat idx) then Vacant (case r of Some x \<Rightarrow> x | None \<Rightarrow> idx)
      else if holds_at m (unat idx) (dev, ino) then Found idx
      else probe_loop t h m dev ino ((idx + 1) mod sm_slot_count h)
             (if is_tombstone_at m (unat idx) \<and> r = None then Some idx else r))"
  by (simp add: slot_state_defs shm_slot_def Let_def)

declare probe_loop.simps(2) [simp del]

lemma next_index_less: "unat idx < nslots h \<Longrightarrow> unat ((idx + 1) mod sm_slot_count h) < nslots h"
  by (simp add: next_index path_pos_less)

lemma probe_loop_Found:
  "probe_loop t h m dev ino idx r = Found i \<Longrightarrow> unat idx < nslots h \<Longrightarrow>
     unat i < nslots h \<and> holds_at m (unat i) (dev, ino)"
proof (induction t arbitrary: idx r)
  case (Suc t)
  then show ?case
    by (simp add: probe_step next_index_less split: if_splits)
qed simp

lemma probe_loop_Full:
  "unat idx < nslots h \<Longrightarrow>
     probe_loop t h m dev ino idx r = Full \<longleftrightarrow> passed h m (dev, ino) (unat idx) t"
proof (induction t arbitrary: idx r)
  case (Suc t)
  show ?case
    using Suc.IH [OF next_index_less [OF Suc.prems]] Suc.prems
    by (auto simp: probe_step passed_Suc next_index)
qed simp

lemma probe_loop_hit:
  "unat idx < nslots h \<Longrightarrow> j < t \<Longrightarrow> passed h m (dev, ino) (unat idx) j \<Longrightarrow>
     holds_at m (path_pos h (unat idx) j) (dev, ino) \<Longrightarrow>
     \<exists>i. probe_loop t h m dev ino idx r = Found i \<and> unat i = path_pos h (unat idx) j"
proof (induction t arbitrary: idx r j)
  case (Suc t)
  show ?case
  proof (cases j)
    case 0
    with Suc.prems show ?thesis
      by (auto simp: probe_step holds_at_def dest: slot_states_disjoint)
  next
    case (Suc j')
    let ?idx = "(idx + 1) mod sm_slot_count h"
    have pos: "path_pos h (unat ?idx) j' = path_pos h (unat idx) j"
      using Suc.prems(1) by (simp add: next_index path_pos_Suc Suc)
    have here: "\<not> is_empty_at m (unat idx)" "\<not> holds_at m (unat idx) (dev, ino)"
      and rest: "passed h m (dev, ino) (unat ?idx) j'"
      using Suc.prems(1,3) by (simp_all add: Suc passed_Suc next_index)
    let ?r = "if is_tombstone_at m (unat idx) \<and> r = None then Some idx else r"
    have "\<exists>i. probe_loop t h m dev ino ?idx ?r = Found i \<and> unat i = path_pos h (unat ?idx) j'"
      using Suc.IH [of ?idx j' ?r] Suc.prems next_index_less rest pos by (simp add: Suc)
    then show ?thesis
      using Suc.prems(1) here by (simp add: probe_step pos)
  qed
qed simp

lemma probe_loop_Vacant:
  "probe_loop t h m dev ino idx r = Vacant i \<Longrightarrow> unat idx < nslots h \<Longrightarrow>
     \<exists>j<t. is_empty_at m (path_pos h (unat idx) j) \<and> passed h m (dev, ino) (unat idx) j \<and>
       (r = Some i \<or>
        r = None \<and> (is_empty_at m (unat i) \<or> is_tombstone_at m (unat i)) \<and>
          (\<exists>j'\<le>j. unat i = path_pos h (unat idx) j'))"
proof (induction t arbitrary: idx r)
  case (Suc t)
  let ?idx = "(idx + 1) mod sm_slot_count h"
  let ?r = "if is_tombstone_at m (unat idx) \<and> r = None then Some idx else r"
  show ?case
  proof (cases "is_empty_at m (unat idx)")
    case True
    with Suc.prems have "r = Some i \<or> r = None \<and> i = idx"
      by (auto simp: probe_step split: option.splits)
    with True Suc.prems(2) show ?thesis
      by (intro exI [of _ 0]) auto
  next
    case False
    with Suc.prems have miss: "\<not> holds_at m (unat idx) (dev, ino)"
      and rec: "probe_loop t h m dev ino ?idx ?r = Vacant i"
      by (auto simp: probe_step split: if_splits)
    from Suc.IH [OF rec next_index_less [OF Suc.prems(2)]] obtain j where j: "j < t"
        "is_empty_at m (path_pos h (unat idx) (Suc j))" "passed h m (dev, ino) (unat ?idx) j"
        "?r = Some i \<or>
         ?r = None \<and> (is_empty_at m (unat i) \<or> is_tombstone_at m (unat i)) \<and>
            (\<exists>j'\<le>j. unat i = path_pos h (unat idx) (Suc j'))"
      using Suc.prems(2) by (auto simp: next_index path_pos_Suc)
    have "passed h m (dev, ino) (unat idx) (Suc j)"
      using j(3) False miss Suc.prems(2) by (simp add: passed_Suc next_index)
    moreover have "r = Some i \<or>
        r = None \<and> (is_empty_at m (unat i) \<or> is_tombstone_at m (unat i)) \<and>
            (\<exists>j'\<le>Suc j. unat i = path_pos h (unat idx) j')"
    proof (cases "is_tombstone_at m (unat idx) \<and> r = None")
      case True
      with j(4) have "i = idx" by simp
      with True Suc.prems(2) show ?thesis by (auto intro: exI [of _ 0])
    next
      case False
      with j(4) show ?thesis by (auto intro: Suc_le_mono [THEN iffD2])
    qed
    ultimately show ?thesis using j(1,2) by blast
  qed
qed simp

section \<open>The table invariant\<close>

text \<open>
  Every live slot is reachable from its key's home slot without crossing an empty slot, and
  no key is live twice.  The first half is why a removed slot becomes a tombstone and not
  empty again.
\<close>

definition reachable_at :: "shm_map \<Rightarrow> shm_mem \<Rightarrow> inode_key \<Rightarrow> nat \<Rightarrow> bool" where
  "reachable_at h m k p \<longleftrightarrow>
     (\<exists>j<nslots h. path_pos h (home h k) j = p \<and>
        (\<forall>i<j. \<not> is_empty_at m (path_pos h (home h k) i)))"

definition table_wf :: "shm_map \<Rightarrow> shm_mem \<Rightarrow> bool" where
  "table_wf h m \<longleftrightarrow>
     0 < nslots h \<and> length (sh_slots m) = nslots h \<and> length (sh_pages m) = nslots h \<and>
     (\<forall>p<nslots h. length (sh_pages m ! p) = XATTR_PAGE_SIZE) \<and>
     (\<forall>p<nslots h. is_empty_at m p \<or> is_live_at m p \<or> is_tombstone_at m p) \<and>
     (\<forall>p<nslots h. is_live_at m p \<longrightarrow> reachable_at h m (key_at m p) p) \<and>
     (\<forall>p<nslots h. \<forall>q<nslots h. is_live_at m p \<longrightarrow> is_live_at m q \<longrightarrow>
        key_at m p = key_at m q \<longrightarrow> p = q)"

lemma table_wfD:
  assumes "table_wf h m"
  shows "0 < nslots h" "length (sh_slots m) = nslots h" "length (sh_pages m) = nslots h"
    "p < nslots h \<Longrightarrow> length (sh_pages m ! p) = XATTR_PAGE_SIZE"
    "p < nslots h \<Longrightarrow> is_empty_at m p \<or> is_live_at m p \<or> is_tombstone_at m p"
    "p < nslots h \<Longrightarrow> is_live_at m p \<Longrightarrow> reachable_at h m (key_at m p) p"
    "p < nslots h \<Longrightarrow> q < nslots h \<Longrightarrow> is_live_at m p \<Longrightarrow> is_live_at m q \<Longrightarrow>
       key_at m p = key_at m q \<Longrightarrow> p = q"
  using assms by (simp_all add: table_wf_def)

lemma holds_unique:
  "table_wf h m \<Longrightarrow> p < nslots h \<Longrightarrow> q < nslots h \<Longrightarrow> holds_at m p k \<Longrightarrow> holds_at m q k \<Longrightarrow> p = q"
  by (rule table_wfD(7)) (auto simp: holds_at_def)

lemma probe_Found:
  assumes "0 < nslots h" and "shm_probe h m dev ino = Found i"
  shows "unat i < nslots h" and "holds_at m (unat i) (dev, ino)"
  using assms probe_loop_Found [of "nslots h" h m dev ino "shm_hash h dev ino" None i]
    home_less [of h "(dev, ino)"]
  by (simp_all add: shm_probe_def home_def)

text \<open>An entry the table holds is found, and at its own slot.\<close>

lemma probe_present:
  assumes wf: "table_wf h m" and p: "p < nslots h" and here: "holds_at m p (dev, ino)"
  shows "\<exists>i. shm_probe h m dev ino = Found i \<and> unat i = p"
proof -
  let ?s = "home h (dev, ino)"
  from here have "is_live_at m p" and key: "key_at m p = (dev, ino)"
    by (simp_all add: holds_at_def)
  with table_wfD(6) [OF wf p] obtain j where j: "j < nslots h" "path_pos h ?s j = p"
      "\<forall>i<j. \<not> is_empty_at m (path_pos h ?s i)"
    by (auto simp: reachable_at_def)
  have "\<not> holds_at m (path_pos h ?s i) (dev, ino)" if "i < j" for i
  proof
    assume "holds_at m (path_pos h ?s i) (dev, ino)"
    then have "path_pos h ?s i = p"
      using holds_unique [OF wf _ p _ here] path_pos_less table_wfD(1) [OF wf] by blast
    then have "i = j"
      using path_pos_inj [of i h j ?s] j that by simp
    with that show False by simp
  qed
  with j have "passed h m (dev, ino) ?s j" by (simp add: passed_def)
  then show ?thesis
    using probe_loop_hit [of "shm_hash h dev ino" h j "nslots h" m dev ino None] here j
      home_less [OF table_wfD(1) [OF wf], of "(dev, ino)"]
    by (simp add: shm_probe_def home_def)
qed

lemma probe_Vacant:
  assumes wf: "table_wf h m" and vac: "shm_probe h m dev ino = Vacant i"
  shows "unat i < nslots h" and "\<not> is_live_at m (unat i)"
    and "reachable_at h m (dev, ino) (unat i)"
    and "p < nslots h \<Longrightarrow> \<not> holds_at m p (dev, ino)"
proof -
  let ?s = "home h (dev, ino)"
  note N = table_wfD(1) [OF wf]
  obtain j j' where j: "j < nslots h" "passed h m (dev, ino) ?s j" "j' \<le> j"
      "unat i = path_pos h ?s j'" "is_empty_at m (unat i) \<or> is_tombstone_at m (unat i)"
    using probe_loop_Vacant [of "nslots h" h m dev ino "shm_hash h dev ino" None i] vac
      home_less [OF N, of "(dev, ino)"]
    by (auto simp: shm_probe_def home_def)
  show "unat i < nslots h" using j(4) N by (simp add: path_pos_less)
  show "\<not> is_live_at m (unat i)" using j(5) by (auto dest: slot_states_disjoint)
  show "reachable_at h m (dev, ino) (unat i)"
    unfolding reachable_at_def
  proof (intro exI conjI)
    show "j' < nslots h" using j(1,3) by simp
    show "path_pos h ?s j' = unat i" using j(4) by simp
    show "\<forall>i<j'. \<not> is_empty_at m (path_pos h ?s i)" using j(2,3) by (auto simp: passed_def)
  qed
  show "\<not> holds_at m p (dev, ino)" if "p < nslots h"
    using probe_present [OF wf that, of dev ino] vac by auto
qed

text \<open>
  A probe gives up exactly when the key is absent and no slot is empty: a tombstone it has
  passed does not help, although \<open>reuse\<close> remembers it.
\<close>

lemma probe_Full:
  assumes wf: "table_wf h m"
  shows "shm_probe h m dev ino = Full \<longleftrightarrow>
     (\<forall>p<nslots h. \<not> is_empty_at m p \<and> \<not> holds_at m p (dev, ino))"
proof -
  note N = table_wfD(1) [OF wf]
  have "shm_probe h m dev ino = Full \<longleftrightarrow> passed h m (dev, ino) (home h (dev, ino)) (nslots h)"
    using probe_loop_Full [of "shm_hash h dev ino" h "nslots h" m dev ino None]
      home_less [OF N, of "(dev, ino)"]
    by (simp add: shm_probe_def home_def)
  also have "\<dots> \<longleftrightarrow> (\<forall>p<nslots h. \<not> is_empty_at m p \<and> \<not> holds_at m p (dev, ino))"
    unfolding passed_def
    using path_pos_surj [OF _ home_less [OF N]] path_pos_less [OF N] by metis
  finally show ?thesis .
qed

end
