(* ===== verification/Wincode.thy ===== *)
theory Wincode
  imports Prelude
begin

text \<open>
  The serializer.  \<open>wincode\<close> and \<open>serde-wincode\<close> are external crates, so a serializer for a
  type is a parameter of the model: a pair of functions, \<open>None\<close> where the crate reports an
  error.  What the program relies on is stated as two predicates: what was serialized
  deserializes to the same value and takes at least one byte (every type that is serialized
  here starts with a length, a tag or an integer), and, where the code calls \<open>expect\<close>,
  serialization succeeds.
\<close>

record 'a serde =
  serialize :: "'a \<Rightarrow> bytes option"
  deserialize :: "bytes \<Rightarrow> 'a option"

definition serde_ok :: "'a serde \<Rightarrow> bool" where
  "serde_ok c \<longleftrightarrow> (\<forall>x b. serialize c x = Some b \<longrightarrow> b \<noteq> [] \<and> deserialize c b = Some x)"

definition serde_total :: "'a serde \<Rightarrow> bool" where
  "serde_total c \<longleftrightarrow> (\<forall>x. serialize c x \<noteq> None)"

lemma serde_okD:
  "serde_ok c \<Longrightarrow> serialize c x = Some b \<Longrightarrow> deserialize c b = Some x"
  "serde_ok c \<Longrightarrow> serialize c x = Some b \<Longrightarrow> b \<noteq> []"
  by (simp_all add: serde_ok_def)

end
