(* ===== verification/Shm_Map.thy ===== *)
theory Shm_Map
  imports Shm_Table Wincode
begin

text \<open>
  The operations of \<open>ShmInodeMap\<close> (\<open>pseudoroot-core/src/shm_map.rs\<close>): current ids, attribute
  pages, lookup, the two inserts and removal, and the proof that they keep the contract of
  \<open>Inode_Store\<close>.  The handle \<open>h\<close> and the attribute serializer \<open>c\<close> are parameters, the mapped
  memory is passed and returned.
\<close>

section \<open>Attribute pages\<close>

text \<open>\<open>page[off .. off + len].copy_from_slice(bs)\<close>\<close>

definition copy_at :: "nat \<Rightarrow> bytes \<Rightarrow> bytes \<Rightarrow> bytes" where
  "copy_at off bs page = take off page @ bs @ drop (off + length bs) page"

definition xattr_page :: "shm_mem \<Rightarrow> u32 \<Rightarrow> bytes" where
  "xattr_page m index = sh_pages m ! unat index"

definition set_page :: "u32 \<Rightarrow> bytes \<Rightarrow> shm_mem \<Rightarrow> shm_mem" where
  "set_page index page m = m\<lparr>sh_pages := (sh_pages m)[unat index := page]\<rparr>"

definition encode_page :: "xattrs serde \<Rightarrow> xattrs \<Rightarrow> bytes \<Rightarrow> bytes" where
  "encode_page c xattrs page =
     (if xattrs = fmempty then copy_at 0 (le32 0) page
      else case (case serialize c xattrs of
                   Some bytes \<Rightarrow> if length bytes \<le> XATTR_PAGE_SIZE - 4 then Some bytes else None
                 | None \<Rightarrow> None) of
             Some bytes \<Rightarrow> copy_at 4 bytes (copy_at 0 (le32 (word_of_nat (length bytes))) page)
           | None \<Rightarrow> copy_at 0 (le32 0) page)"

definition write_xattrs :: "xattrs serde \<Rightarrow> u32 \<Rightarrow> xattrs \<Rightarrow> shm_mem \<Rightarrow> shm_mem" where
  "write_xattrs c index xattrs m = set_page index (encode_page c xattrs (xattr_page m index)) m"

definition decode_page :: "xattrs serde \<Rightarrow> bytes \<Rightarrow> xattrs" where
  "decode_page c page =
     (let len = unat (of_le32 (take 4 page)) in
      if len = 0 \<or> XATTR_PAGE_SIZE - 4 < len then fmempty
      else case deserialize c (take len (drop 4 page)) of
             Some xattrs \<Rightarrow> xattrs
           | None \<Rightarrow> fmempty)"

definition read_xattrs :: "xattrs serde \<Rightarrow> shm_mem \<Rightarrow> u32 \<Rightarrow> xattrs" where
  "read_xattrs c m index = decode_page c (xattr_page m index)"

section \<open>Operations\<close>

definition shm_current_uid :: "shm_mem \<Rightarrow> u32" where
  "shm_current_uid m = hd_current_uid (sh_header m)"

definition shm_current_gid :: "shm_mem \<Rightarrow> u32" where
  "shm_current_gid m = hd_current_gid (sh_header m)"

definition shm_set_current :: "u32 \<Rightarrow> u32 \<Rightarrow> shm_mem \<Rightarrow> shm_mem" where
  "shm_set_current uid gid m =
     m\<lparr>sh_header := (sh_header m)\<lparr>hd_current_uid := uid, hd_current_gid := gid\<rparr>\<rparr>"

text \<open>A write through the \<open>&mut Slot\<close> that \<open>slot(index)\<close> returns.\<close>

definition modify_slot :: "u32 \<Rightarrow> (slot \<Rightarrow> slot) \<Rightarrow> shm_mem \<Rightarrow> shm_mem" where
  "modify_slot index f m =
     m\<lparr>sh_slots := (sh_slots m)[unat index := f (sh_slots m ! unat index)]\<rparr>"

definition shm_get_inode ::
    "xattrs serde \<Rightarrow> shm_map \<Rightarrow> shm_mem \<Rightarrow> inode_key \<Rightarrow> fake_inode option" where
  "shm_get_inode c h m key =
     (case key of (dev, ino) \<Rightarrow>
      case shm_probe h m dev ino of
        Found idx \<Rightarrow>
          (let slot = shm_slot m idx;
               inode = fake_inode_new (sl_uid slot) (sl_gid slot);
               inode = (if sl_mode slot \<noteq> 0 then inode\<lparr>i_mode := Some (sl_mode slot)\<rparr> else inode);
               inode = (if sl_rdev slot \<noteq> 0 then inode\<lparr>i_rdev := Some (sl_rdev slot)\<rparr> else inode)
           in Some (inode\<lparr>i_xattrs := read_xattrs c m idx\<rparr>))
      | _ \<Rightarrow> None)"

definition shm_upsert_chown ::
    "xattrs serde \<Rightarrow> shm_map \<Rightarrow> inode_key \<Rightarrow> u32 \<Rightarrow> u32 \<Rightarrow> u32 \<Rightarrow> u32 \<Rightarrow> shm_mem \<Rightarrow> shm_mem" where
  "shm_upsert_chown c h key uid gid default_uid default_gid m =
     (case key of (dev, ino) \<Rightarrow>
      case shm_probe h m dev ino of
        Found idx \<Rightarrow>
          modify_slot idx (\<lambda>slot.
            (let slot = (if uid \<noteq> ID_UNCHANGED then slot\<lparr>sl_uid := uid\<rparr> else slot)
             in if gid \<noteq> ID_UNCHANGED then slot\<lparr>sl_gid := gid\<rparr> else slot)) m
      | Vacant idx \<Rightarrow>
          (let new_uid = (if uid = ID_UNCHANGED then default_uid else uid);
               new_gid = (if gid = ID_UNCHANGED then default_gid else gid);
               m = write_xattrs c idx fmempty m
           in modify_slot idx (\<lambda>target. target\<lparr>sl_dev := dev, sl_ino := ino, sl_uid := new_uid,
                sl_gid := new_gid, sl_mode := 0, sl_rdev := 0, sl_occupied := SLOT_LIVE\<rparr>) m)
      | Full \<Rightarrow> m)"

definition unwrap_or_0 :: "'a::zero option \<Rightarrow> 'a" where
  "unwrap_or_0 x = (case x of Some v \<Rightarrow> v | None \<Rightarrow> 0)"

definition shm_upsert_inode ::
    "xattrs serde \<Rightarrow> shm_map \<Rightarrow> inode_key \<Rightarrow> fake_inode \<Rightarrow> shm_mem \<Rightarrow> shm_mem" where
  "shm_upsert_inode c h key inode m =
     (case key of (dev, ino) \<Rightarrow>
      case shm_probe h m dev ino of
        Found idx \<Rightarrow>
          write_xattrs c idx (i_xattrs inode)
            (modify_slot idx (\<lambda>slot. slot\<lparr>sl_uid := i_uid inode, sl_gid := i_gid inode,
               sl_mode := unwrap_or_0 (i_mode inode), sl_rdev := unwrap_or_0 (i_rdev inode)\<rparr>) m)
      | Vacant idx \<Rightarrow>
          (let m = write_xattrs c idx (i_xattrs inode) m
           in modify_slot idx (\<lambda>target. target\<lparr>sl_dev := dev, sl_ino := ino,
                sl_uid := i_uid inode, sl_gid := i_gid inode,
                sl_mode := unwrap_or_0 (i_mode inode), sl_rdev := unwrap_or_0 (i_rdev inode),
                sl_occupied := SLOT_LIVE\<rparr>) m)
      | Full \<Rightarrow> m)"

definition shm_remove_inode ::
    "xattrs serde \<Rightarrow> shm_map \<Rightarrow> inode_key \<Rightarrow> shm_mem \<Rightarrow> bool \<times> shm_mem" where
  "shm_remove_inode c h key m =
     (case key of (dev, ino) \<Rightarrow>
      case shm_probe h m dev ino of
        Found idx \<Rightarrow>
          (True, modify_slot idx (\<lambda>slot. slot\<lparr>sl_occupied := SLOT_TOMBSTONE\<rparr>)
                   (write_xattrs c idx fmempty m))
      | _ \<Rightarrow> (False, m))"

section \<open>Page round trip\<close>

text \<open>What a page can represent: an attribute map that does not fit reads back empty.\<close>

definition fits_page :: "xattrs serde \<Rightarrow> xattrs \<Rightarrow> bool" where
  "fits_page c x \<longleftrightarrow>
     (case serialize c x of Some b \<Rightarrow> length b \<le> XATTR_PAGE_SIZE - 4 | None \<Rightarrow> False)"

definition canon_xattrs :: "xattrs serde \<Rightarrow> xattrs \<Rightarrow> xattrs" where
  "canon_xattrs c x = (if fits_page c x then x else fmempty)"

lemma canon_xattrs_empty [simp]: "canon_xattrs c fmempty = fmempty"
  by (simp add: canon_xattrs_def)

lemma canon_xattrs_idem [simp]: "canon_xattrs c (canon_xattrs c x) = canon_xattrs c x"
  by (simp add: canon_xattrs_def)

lemma length_copy_at: "off + length bs \<le> length page \<Longrightarrow> length (copy_at off bs page) = length page"
  by (simp add: copy_at_def)

lemma take_copy_at_0: "take 4 (copy_at 0 (le32 w) page) = le32 w"
  by (simp add: copy_at_def)

lemma length_encode_page:
  "length page = XATTR_PAGE_SIZE \<Longrightarrow> length (encode_page c x page) = XATTR_PAGE_SIZE"
  by (auto simp: encode_page_def length_copy_at XATTR_PAGE_SIZE_def split: option.splits)

lemma decode_zero: "decode_page c (copy_at 0 (le32 0) page) = fmempty"
  by (simp add: decode_page_def take_copy_at_0)

lemma decode_encode_page:
  assumes ok: "serde_ok c" and len: "length page = XATTR_PAGE_SIZE"
  shows "decode_page c (encode_page c x page) = canon_xattrs c x"
proof (cases "x \<noteq> fmempty \<and> fits_page c x")
  case True
  then obtain b where b: "serialize c x = Some b" "length b \<le> XATTR_PAGE_SIZE - 4"
    by (auto simp: fits_page_def split: option.splits)
  let ?head = "copy_at 0 (le32 (word_of_nat (length b))) page"
  have head: "length ?head = XATTR_PAGE_SIZE"
    using len by (simp add: length_copy_at XATTR_PAGE_SIZE_def)
  have page: "encode_page c x page = le32 (word_of_nat (length b)) @ b @ drop (4 + length b) ?head"
    using True b by (simp add: encode_page_def copy_at_def)
  have "unat (word_of_nat (length b) :: u32) = length b"
    using b(2) by (simp add: XATTR_PAGE_SIZE_def)
  then show ?thesis
    using True b serde_okD [OF ok b(1)]
    by (simp add: decode_page_def page Let_def canon_xattrs_def)
next
  case False
  then have "encode_page c x page = copy_at 0 (le32 0) page" and "canon_xattrs c x = fmempty"
    by (auto simp: encode_page_def fits_page_def canon_xattrs_def split: option.splits)
  then show ?thesis by (simp add: decode_zero)
qed

section \<open>Writing one slot\<close>

text \<open>
  Every operation that changes the table replaces one slot and its page.  \<open>put_slot\<close> is that
  change, and the lemmas here say once what it does to the invariant and to the lookups.
\<close>

definition put_slot :: "nat \<Rightarrow> slot \<Rightarrow> bytes \<Rightarrow> shm_mem \<Rightarrow> shm_mem" where
  "put_slot p s pg m = m\<lparr>sh_slots := (sh_slots m)[p := s], sh_pages := (sh_pages m)[p := pg]\<rparr>"

definition entry_at :: "xattrs serde \<Rightarrow> shm_mem \<Rightarrow> nat \<Rightarrow> fake_inode" where
  "entry_at c m p =
     \<lparr>i_uid = sl_uid (sh_slots m ! p), i_gid = sl_gid (sh_slots m ! p),
      i_mode = (if sl_mode (sh_slots m ! p) = 0 then None else Some (sl_mode (sh_slots m ! p))),
      i_rdev = (if sl_rdev (sh_slots m ! p) = 0 then None else Some (sl_rdev (sh_slots m ! p))),
      i_xattrs = decode_page c (sh_pages m ! p)\<rparr>"

lemma put_slot_nth:
  assumes "p < length (sh_slots m)" and "p < length (sh_pages m)"
  shows "sh_slots (put_slot p s pg m) ! q = (if q = p then s else sh_slots m ! q)"
    and "sh_pages (put_slot p s pg m) ! q = (if q = p then pg else sh_pages m ! q)"
  using assms by (simp_all add: put_slot_def nth_list_update_conv)

lemma put_slot_frame [simp]:
  "length (sh_slots (put_slot p s pg m)) = length (sh_slots m)"
  "length (sh_pages (put_slot p s pg m)) = length (sh_pages m)"
  "sh_header (put_slot p s pg m) = sh_header m"
  by (simp_all add: put_slot_def)

lemma get_present:
  assumes "table_wf h m" "p < nslots h" "holds_at m p k"
  shows "shm_get_inode c h m k = Some (entry_at c m p)"
proof -
  obtain i where i: "shm_probe h m (fst k) (snd k) = Found i" "unat i = p"
    using probe_present [of h m p "fst k" "snd k"] assms by auto
  have "shm_get_inode c h m k = Some (entry_at c m (unat i))"
    by (cases k) (use i(1) in \<open>auto simp: shm_get_inode_def entry_at_def fake_inode_new_def
       shm_slot_def read_xattrs_def xattr_page_def Let_def\<close>)
  with i(2) show ?thesis by simp
qed

lemma get_absent:
  assumes "table_wf h m" "\<forall>p<nslots h. \<not> holds_at m p k"
  shows "shm_get_inode c h m k = None"
proof (cases "shm_probe h m (fst k) (snd k)")
  case (Found i)
  with assms probe_Found [OF table_wfD(1) [OF assms(1)] Found] show ?thesis by auto
qed (auto simp: shm_get_inode_def case_prod_beta)

lemma put_slot_wf:
  assumes wf: "table_wf h m" and p: "p < nslots h" and pg: "length pg = XATTR_PAGE_SIZE"
    and occ: "sl_occupied s = SLOT_LIVE \<or> sl_occupied s = SLOT_TOMBSTONE"
    and live: "sl_occupied s = SLOT_LIVE \<Longrightarrow> reachable_at h m (sl_dev s, sl_ino s) p"
    and uniq: "\<And>q. sl_occupied s = SLOT_LIVE \<Longrightarrow> q < nslots h \<Longrightarrow> q \<noteq> p \<Longrightarrow>
                 \<not> holds_at m q (sl_dev s, sl_ino s)"
  shows "table_wf h (put_slot p s pg m)"
proof -
  let ?m = "put_slot p s pg m"
  note nth = put_slot_nth [of p m s pg]
  note len = table_wfD(2,3) [OF wf]
  have at: "is_empty_at ?m q \<longleftrightarrow> q \<noteq> p \<and> is_empty_at m q"
      "is_live_at ?m q \<longleftrightarrow> (if q = p then sl_occupied s = SLOT_LIVE else is_live_at m q)"
      "is_tombstone_at ?m q \<longleftrightarrow>
         (if q = p then sl_occupied s = SLOT_TOMBSTONE else is_tombstone_at m q)"
      "key_at ?m q = (if q = p then (sl_dev s, sl_ino s) else key_at m q)" for q
    using nth p len occ by (auto simp: slot_state_defs slot_codes)
  have reach: "reachable_at h ?m k q" if "reachable_at h m k q" for k q
    using that by (auto simp: reachable_at_def at)
  show ?thesis
    unfolding table_wf_def
  proof (intro conjI allI impI)
    fix q assume q: "q < nslots h"
    show "length (sh_pages ?m ! q) = XATTR_PAGE_SIZE"
      using q p len pg nth table_wfD(4) [OF wf] by simp
    show "is_empty_at ?m q \<or> is_live_at ?m q \<or> is_tombstone_at ?m q"
      using table_wfD(5) [OF wf q] occ by (simp add: at)
    show "reachable_at h ?m (key_at ?m q) q" if "is_live_at ?m q"
      using that table_wfD(6) [OF wf q] live by (auto simp: at intro: reach split: if_splits)
  next
    fix q r assume qr: "q < nslots h" "r < nslots h" "is_live_at ?m q" "is_live_at ?m r"
      "key_at ?m q = key_at ?m r"
    show "q = r"
      using qr uniq [of q] uniq [of r] table_wfD(7) [OF wf qr(1,2)]
      by (auto simp: at holds_at_def split: if_splits)
  qed (use table_wfD(1) [OF wf] len in simp_all)
qed

text \<open>
  A change of the slot that is, or becomes, the one of key \<open>k\<close> shows at \<open>k\<close> only.
\<close>

lemma put_slot_lookup:
  assumes wf: "table_wf h m" and wf': "table_wf h (put_slot p s pg m)" and p: "p < nslots h"
    and before: "\<And>k'. k' \<noteq> k \<Longrightarrow> \<not> holds_at m p k'"
    and after: "sl_occupied s = SLOT_LIVE \<Longrightarrow> (sl_dev s, sl_ino s) = k"
    and elsewhere: "\<And>q. q < nslots h \<Longrightarrow> q \<noteq> p \<Longrightarrow> \<not> holds_at m q k"
  shows "shm_get_inode c h (put_slot p s pg m) =
    (shm_get_inode c h m)(k := (if sl_occupied s = SLOT_LIVE
       then Some (entry_at c (put_slot p s pg m) p) else None))"
proof
  let ?m = "put_slot p s pg m"
  note nth = put_slot_nth [of p m s pg]
  note len = table_wfD(2,3) [OF wf]
  have holds: "holds_at ?m q k' \<longleftrightarrow>
      (if q = p then sl_occupied s = SLOT_LIVE \<and> (sl_dev s, sl_ino s) = k' else holds_at m q k')"
    for q k' using nth p len by (simp add: slot_state_defs)
  have entry: "entry_at c ?m q = entry_at c m q" if "q \<noteq> p" for q
    using that nth p len by (simp add: entry_at_def)
  fix k'
  show "shm_get_inode c h ?m k' = ((shm_get_inode c h m)(k := (if sl_occupied s = SLOT_LIVE
       then Some (entry_at c ?m p) else None))) k'"
  proof (cases "k' = k")
    case True
    then show ?thesis
      using get_present [OF wf' p] get_absent [OF wf'] elsewhere after
      by (cases "sl_occupied s = SLOT_LIVE") (auto simp: holds)
  next
    case other: False
    show ?thesis
    proof (cases "\<exists>q<nslots h. holds_at m q k'")
      case True
      then obtain q where q: "q < nslots h" "holds_at m q k'" by blast
      with before other have "q \<noteq> p" by blast
      then show ?thesis
        using q other get_present [OF wf q] get_present [OF wf' q(1)] by (simp add: holds entry)
    next
      case False
      then have "\<forall>q<nslots h. \<not> holds_at ?m q k'" using after other by (auto simp: holds)
      with False show ?thesis
        using other get_absent [OF wf] get_absent [OF wf'] by auto
    qed
  qed
qed

section \<open>The table as an inode store\<close>

text \<open>
  The table keeps an inode up to \<open>shm_canon\<close>: a mode or device number of 0 is not told from
  an absent one, and attributes that do not fit the page are dropped.
\<close>

definition shm_canon :: "xattrs serde \<Rightarrow> fake_inode \<Rightarrow> fake_inode" where
  "shm_canon c i =
     i\<lparr>i_mode := (if i_mode i = Some 0 then None else i_mode i),
       i_rdev := (if i_rdev i = Some 0 then None else i_rdev i),
       i_xattrs := canon_xattrs c (i_xattrs i)\<rparr>"

definition shm_inv :: "xattrs serde \<Rightarrow> shm_map \<Rightarrow> shm_mem \<Rightarrow> bool" where
  "shm_inv c h m \<longleftrightarrow> serde_ok c \<and> table_wf h m \<and>
     (\<forall>p<nslots h. is_live_at m p \<longrightarrow>
        canon_xattrs c (decode_page c (sh_pages m ! p)) = decode_page c (sh_pages m ! p))"

definition shm_room :: "shm_map \<Rightarrow> shm_mem \<Rightarrow> inode_key \<Rightarrow> bool" where
  "shm_room h m k \<longleftrightarrow> shm_probe h m (fst k) (snd k) \<noteq> Full"

lemma shm_invD:
  assumes "shm_inv c h m"
  shows "serde_ok c" "table_wf h m"
    "p < nslots h \<Longrightarrow> is_live_at m p \<Longrightarrow>
       canon_xattrs c (decode_page c (sh_pages m ! p)) = decode_page c (sh_pages m ! p)"
  using assms by (simp_all add: shm_inv_def)

text \<open>Writing the slot a probe returned, for a hit or for an insertion.\<close>

lemma put_probed:
  assumes inv: "shm_inv c h m"
    and probe: "shm_probe h m (fst k) (snd k) = Found i \<or> shm_probe h m (fst k) (snd k) = Vacant i"
    and s: "(sl_dev s, sl_ino s) = k"
    and occ: "sl_occupied s = SLOT_LIVE \<or> sl_occupied s = SLOT_TOMBSTONE"
    and pg: "length pg = XATTR_PAGE_SIZE" "canon_xattrs c (decode_page c pg) = decode_page c pg"
  shows "shm_inv c h (put_slot (unat i) s pg m)"
    and "shm_get_inode c h (put_slot (unat i) s pg m) =
      (shm_get_inode c h m)(k := (if sl_occupied s = SLOT_LIVE
         then Some (entry_at c (put_slot (unat i) s pg m) (unat i)) else None))"
proof -
  note wf = shm_invD(2) [OF inv]
  have facts: "unat i < nslots h" "reachable_at h m k (unat i)"
      "\<And>k'. k' \<noteq> k \<Longrightarrow> \<not> holds_at m (unat i) k'"
      "\<And>q. q < nslots h \<Longrightarrow> q \<noteq> unat i \<Longrightarrow> \<not> holds_at m q k"
  proof -
    have "unat i < nslots h \<and> reachable_at h m k (unat i) \<and>
      (\<forall>k'. k' \<noteq> k \<longrightarrow> \<not> holds_at m (unat i) k') \<and>
      (\<forall>q<nslots h. q \<noteq> unat i \<longrightarrow> \<not> holds_at m q k)"
      using probe
    proof
      assume f: "shm_probe h m (fst k) (snd k) = Found i"
      have at: "unat i < nslots h" "holds_at m (unat i) k"
        using probe_Found [OF table_wfD(1) [OF wf] f] by simp_all
      moreover from at have "reachable_at h m k (unat i)"
        using table_wfD(6) [OF wf] by (auto simp: holds_at_def)
      ultimately show ?thesis using holds_unique [OF wf] by (auto simp: holds_at_def)
    next
      assume v: "shm_probe h m (fst k) (snd k) = Vacant i"
      show ?thesis using probe_Vacant [OF wf v] by (auto simp: holds_at_def)
    qed
    then show "unat i < nslots h" "reachable_at h m k (unat i)"
      "\<And>k'. k' \<noteq> k \<Longrightarrow> \<not> holds_at m (unat i) k'"
      "\<And>q. q < nslots h \<Longrightarrow> q \<noteq> unat i \<Longrightarrow> \<not> holds_at m q k" by blast+
  qed
  have wf': "table_wf h (put_slot (unat i) s pg m)"
    using put_slot_wf [OF wf facts(1) pg(1) occ] facts(2,4) s by auto
  show "shm_get_inode c h (put_slot (unat i) s pg m) =
      (shm_get_inode c h m)(k := (if sl_occupied s = SLOT_LIVE
         then Some (entry_at c (put_slot (unat i) s pg m) (unat i)) else None))"
    using put_slot_lookup [OF wf wf' facts(1,3)] s facts(4) by blast
  have "is_live_at (put_slot (unat i) s pg m) q \<Longrightarrow> q \<noteq> unat i \<Longrightarrow> is_live_at m q" for q
    using put_slot_nth facts(1) table_wfD(2,3) [OF wf] by (simp add: is_live_at_def)
  then show "shm_inv c h (put_slot (unat i) s pg m)"
    using shm_invD(1,3) [OF inv] wf' pg(2) put_slot_nth(2) [of "unat i" m s pg] facts(1)
      table_wfD(2,3) [OF wf]
    by (auto simp: shm_inv_def)
qed

lemma put_slot_eq:
  "modify_slot i f (write_xattrs c i x m) =
     put_slot (unat i) (f (sh_slots m ! unat i)) (encode_page c x (sh_pages m ! unat i)) m"
  "write_xattrs c i x (modify_slot i f m) =
     put_slot (unat i) (f (sh_slots m ! unat i)) (encode_page c x (sh_pages m ! unat i)) m"
  "modify_slot i f m = put_slot (unat i) (f (sh_slots m ! unat i)) (sh_pages m ! unat i) m"
  by (simp_all add: modify_slot_def write_xattrs_def set_page_def put_slot_def xattr_page_def)

lemma entry_at_put:
  "p < length (sh_slots m) \<Longrightarrow> p < length (sh_pages m) \<Longrightarrow> entry_at c (put_slot p s pg m) p =
     \<lparr>i_uid = sl_uid s, i_gid = sl_gid s,
      i_mode = (if sl_mode s = 0 then None else Some (sl_mode s)),
      i_rdev = (if sl_rdev s = 0 then None else Some (sl_rdev s)),
      i_xattrs = decode_page c pg\<rparr>"
  by (simp add: entry_at_def put_slot_nth)

lemma probed_less:
  assumes "table_wf h m"
    and "shm_probe h m (fst k) (snd k) = Found i \<or> shm_probe h m (fst k) (snd k) = Vacant i"
  shows "unat i < nslots h" "unat i < length (sh_slots m)" "unat i < length (sh_pages m)"
proof -
  show "unat i < nslots h"
    using assms probe_Found(1) [OF table_wfD(1)] probe_Vacant(1) by blast
  then show "unat i < length (sh_slots m)" "unat i < length (sh_pages m)"
    using table_wfD(2,3) [OF assms(1)] by simp_all
qed

lemma encoded_page:
  assumes "shm_inv c h m" and "unat i < nslots h"
  shows "length (encode_page c x (sh_pages m ! unat i)) = XATTR_PAGE_SIZE"
    and "decode_page c (encode_page c x (sh_pages m ! unat i)) = canon_xattrs c x"
  using assms table_wfD(4) [OF shm_invD(2)] decode_encode_page [OF shm_invD(1)]
  by (simp_all add: length_encode_page)

lemma unwrap_or_0_simps [simp]: "unwrap_or_0 None = 0" "unwrap_or_0 (Some v) = v"
  by (simp_all add: unwrap_or_0_def)

lemma shm_upsert_inode_spec:
  assumes inv: "shm_inv c h m" and room: "shm_room h m k"
  shows "shm_inv c h (shm_upsert_inode c h k i m)"
    and "shm_get_inode c h (shm_upsert_inode c h k i m) = (shm_get_inode c h m)(k \<mapsto> shm_canon c i)"
proof -
  obtain idx where probe: "shm_probe h m (fst k) (snd k) = Found idx \<or>
      shm_probe h m (fst k) (snd k) = Vacant idx"
    using room by (cases "shm_probe h m (fst k) (snd k)") (auto simp: shm_room_def)
  note wf = shm_invD(2) [OF inv]
  note less = probed_less [OF wf probe]
  note pg = encoded_page [OF inv less(1), of "i_xattrs i"]
  let ?s = "(sh_slots m ! unat idx)\<lparr>sl_dev := fst k, sl_ino := snd k, sl_uid := i_uid i,
      sl_gid := i_gid i, sl_mode := unwrap_or_0 (i_mode i), sl_rdev := unwrap_or_0 (i_rdev i),
      sl_occupied := SLOT_LIVE\<rparr>"
  let ?m = "put_slot (unat idx) ?s (encode_page c (i_xattrs i) (sh_pages m ! unat idx)) m"
  have upd: "shm_upsert_inode c h k i m = ?m"
  proof (cases "shm_probe h m (fst k) (snd k)")
    case (Found j)
    with probe have j: "j = idx" by simp
    have "holds_at m (unat idx) k"
      using probe_Found(2) [OF table_wfD(1) [OF wf] Found] j by simp
    then have "(sh_slots m ! unat idx)\<lparr>sl_uid := i_uid i, sl_gid := i_gid i,
        sl_mode := unwrap_or_0 (i_mode i), sl_rdev := unwrap_or_0 (i_rdev i)\<rparr> = ?s"
      by (auto simp: slot_state_defs)
    with Found j show ?thesis
      by (simp add: shm_upsert_inode_def put_slot_eq(1,2) case_prod_beta)
  next
    case (Vacant j)
    with probe show ?thesis
      by (simp add: shm_upsert_inode_def put_slot_eq(1,2) case_prod_beta)
  qed (use probe in simp)
  have entry: "entry_at c ?m (unat idx) = shm_canon c i"
    using less pg by (intro fake_inode_eqI)
      (simp_all add: entry_at_put shm_canon_def unwrap_or_0_def split: option.splits)
  show "shm_inv c h (shm_upsert_inode c h k i m)"
    unfolding upd using pg by (intro put_probed [OF inv probe]) simp_all
  show "shm_get_inode c h (shm_upsert_inode c h k i m) = (shm_get_inode c h m)(k \<mapsto> shm_canon c i)"
    unfolding upd entry [symmetric] using pg
    by (subst put_probed(2) [OF inv probe]) simp_all
qed

lemma shm_remove_inode_spec:
  assumes inv: "shm_inv c h m"
  shows "shm_inv c h (snd (shm_remove_inode c h k m))"
    and "shm_get_inode c h (snd (shm_remove_inode c h k m)) = (shm_get_inode c h m)(k := None)"
    and "fst (shm_remove_inode c h k m) \<longleftrightarrow> shm_get_inode c h m k \<noteq> None"
proof -
  note wf = shm_invD(2) [OF inv]
  have "shm_inv c h (snd (shm_remove_inode c h k m)) \<and>
    shm_get_inode c h (snd (shm_remove_inode c h k m)) = (shm_get_inode c h m)(k := None) \<and>
    (fst (shm_remove_inode c h k m) \<longleftrightarrow> shm_get_inode c h m k \<noteq> None)"
  proof (cases "shm_probe h m (fst k) (snd k)")
    case (Found idx)
    then have probe: "shm_probe h m (fst k) (snd k) = Found idx \<or>
        shm_probe h m (fst k) (snd k) = Vacant idx" by simp
    note less = probed_less [OF wf probe]
    have here: "holds_at m (unat idx) k"
      using probe_Found(2) [OF table_wfD(1) [OF wf] Found] by simp
    let ?s = "(sh_slots m ! unat idx)\<lparr>sl_occupied := SLOT_TOMBSTONE\<rparr>"
    have "shm_remove_inode c h k m =
        (True, put_slot (unat idx) ?s (encode_page c fmempty (sh_pages m ! unat idx)) m)"
      using Found by (simp add: shm_remove_inode_def put_slot_eq(1,2) case_prod_beta)
    moreover have "(sl_dev ?s, sl_ino ?s) = k" using here by (simp add: slot_state_defs)
    moreover note put_probed [OF inv probe, of ?s "encode_page c fmempty (sh_pages m ! unat idx)"]
      encoded_page [OF inv less(1), of fmempty] get_present [OF wf less(1) here]
    ultimately show ?thesis by (simp add: slot_codes)
  next
    case (Vacant idx)
    then have "shm_get_inode c h m k = None"
      using get_absent [OF wf] probe_Vacant(4) [OF wf Vacant] by auto
    with Vacant inv show ?thesis
      by (simp add: shm_remove_inode_def fun_upd_idem case_prod_beta)
  next
    case Full
    then have "shm_get_inode c h m k = None"
      using get_absent [OF wf] probe_Full [OF wf, of "fst k" "snd k"] by auto
    with Full inv show ?thesis
      by (simp add: shm_remove_inode_def fun_upd_idem case_prod_beta)
  qed
  then show "shm_inv c h (snd (shm_remove_inode c h k m))"
    "shm_get_inode c h (snd (shm_remove_inode c h k m)) = (shm_get_inode c h m)(k := None)"
    "fst (shm_remove_inode c h k m) \<longleftrightarrow> shm_get_inode c h m k \<noteq> None" by blast+
qed

lemma shm_upsert_chown_spec:
  assumes inv: "shm_inv c h m" and room: "shm_room h m k"
  shows "shm_inv c h (shm_upsert_chown c h k u g du dg m)"
    and "shm_get_inode c h (shm_upsert_chown c h k u g du dg m) =
      (shm_get_inode c h m)(k \<mapsto> merge_ids u g
         (case shm_get_inode c h m k of Some i \<Rightarrow> i | None \<Rightarrow> fake_inode_new du dg))"
proof -
  note wf = shm_invD(2) [OF inv]
  have "shm_inv c h (shm_upsert_chown c h k u g du dg m) \<and>
    shm_get_inode c h (shm_upsert_chown c h k u g du dg m) =
      (shm_get_inode c h m)(k \<mapsto> merge_ids u g
         (case shm_get_inode c h m k of Some i \<Rightarrow> i | None \<Rightarrow> fake_inode_new du dg))"
  proof (cases "shm_probe h m (fst k) (snd k)")
    case (Found idx)
    then have probe: "shm_probe h m (fst k) (snd k) = Found idx \<or>
        shm_probe h m (fst k) (snd k) = Vacant idx" by simp
    note less = probed_less [OF wf probe]
    have here: "holds_at m (unat idx) k"
      using probe_Found(2) [OF table_wfD(1) [OF wf] Found] by simp
    let ?p = "unat idx" and ?pg = "sh_pages m ! unat idx"
    let ?s = "let slot = (if u \<noteq> ID_UNCHANGED then (sh_slots m ! ?p)\<lparr>sl_uid := u\<rparr> else sh_slots m ! ?p)
      in if g \<noteq> ID_UNCHANGED then slot\<lparr>sl_gid := g\<rparr> else slot"
    have upd: "shm_upsert_chown c h k u g du dg m = put_slot ?p ?s ?pg m"
      using Found by (simp add: shm_upsert_chown_def put_slot_eq(3) case_prod_beta)
    have s: "(sl_dev ?s, sl_ino ?s) = k" "sl_occupied ?s = SLOT_LIVE"
      using here by (auto simp: slot_state_defs Let_def)
    have pg: "length ?pg = XATTR_PAGE_SIZE" "canon_xattrs c (decode_page c ?pg) = decode_page c ?pg"
      using table_wfD(4) [OF wf less(1)] shm_invD(3) [OF inv less(1)] here
      by (simp_all add: holds_at_def)
    have "entry_at c (put_slot ?p ?s ?pg m) ?p = merge_ids u g (entry_at c m ?p)"
      using less by (intro fake_inode_eqI) (simp_all add: entry_at_def put_slot_nth Let_def)
    moreover have "shm_get_inode c h m k = Some (entry_at c m ?p)"
      by (rule get_present [OF wf less(1) here])
    ultimately show ?thesis
      unfolding upd using put_probed [OF inv probe s(1) disjI1 [OF s(2)] pg] s(2) by simp
  next
    case (Vacant idx)
    then have probe: "shm_probe h m (fst k) (snd k) = Found idx \<or>
        shm_probe h m (fst k) (snd k) = Vacant idx" by simp
    note less = probed_less [OF wf probe]
    note pg = encoded_page [OF inv less(1), of fmempty]
    let ?s = "(sh_slots m ! unat idx)\<lparr>sl_dev := fst k, sl_ino := snd k,
        sl_uid := (if u = ID_UNCHANGED then du else u), sl_gid := (if g = ID_UNCHANGED then dg else g),
        sl_mode := 0, sl_rdev := 0, sl_occupied := SLOT_LIVE\<rparr>"
    let ?pg = "encode_page c fmempty (sh_pages m ! unat idx)"
    have upd: "shm_upsert_chown c h k u g du dg m = put_slot (unat idx) ?s ?pg m"
      using Vacant by (simp add: shm_upsert_chown_def put_slot_eq(1,2) case_prod_beta)
    have "entry_at c (put_slot (unat idx) ?s ?pg m) (unat idx) = merge_ids u g (fake_inode_new du dg)"
      using less pg by (intro fake_inode_eqI) (simp_all add: entry_at_put)
    moreover have "shm_get_inode c h m k = None"
      using get_absent [OF wf] probe_Vacant(4) [OF wf Vacant] by auto
    moreover note put_probed [OF inv probe, of ?s ?pg]
    ultimately show ?thesis unfolding upd using pg by simp
  qed (use room in \<open>simp add: shm_room_def\<close>)
  then show "shm_inv c h (shm_upsert_chown c h k u g du dg m)"
    "shm_get_inode c h (shm_upsert_chown c h k u g du dg m) =
      (shm_get_inode c h m)(k \<mapsto> merge_ids u g
         (case shm_get_inode c h m k of Some i \<Rightarrow> i | None \<Rightarrow> fake_inode_new du dg))" by blast+
qed

lemma shm_full_noop:
  assumes "\<not> shm_room h m k"
  shows "shm_upsert_inode c h k i m = m" and "shm_upsert_chown c h k u g du dg m = m"
  using assms
  by (simp_all add: shm_room_def shm_upsert_inode_def shm_upsert_chown_def case_prod_beta)

lemma shm_present:
  assumes "shm_inv c h m" and "shm_get_inode c h m k = Some i"
  shows "\<exists>p<nslots h. holds_at m p k \<and> i = entry_at c m p"
proof (rule ccontr)
  note wf = shm_invD(2) [OF assms(1)]
  assume none: "\<not> ?thesis"
  then have "\<forall>p<nslots h. \<not> holds_at m p k"
    using assms(2) get_present [OF wf] by (metis option.inject)
  with get_absent [OF wf] assms(2) show False by simp
qed

lemma shm_lookup_canon:
  assumes inv: "shm_inv c h m" and i: "shm_get_inode c h m k = Some i"
  shows "shm_canon c i = i"
proof -
  obtain p where p: "p < nslots h" "holds_at m p k" "i = entry_at c m p"
    using shm_present [OF assms] by blast
  with shm_invD(3) [OF inv p(1)] show ?thesis
    by (simp add: shm_canon_def entry_at_def holds_at_def)
qed

lemma shm_lookup_room:
  assumes inv: "shm_inv c h m" and i: "shm_get_inode c h m k = Some i"
  shows "shm_room h m k"
  using shm_present [OF assms] probe_Full [OF shm_invD(2) [OF inv], of "fst k" "snd k"]
  by (auto simp: shm_room_def)

interpretation shm: inode_store "shm_inv c h" "shm_get_inode c h" "shm_upsert_inode c h"
    "\<lambda>k m. snd (shm_remove_inode c h k m)" "shm_upsert_chown c h" "shm_room h" "shm_canon c"
    for c h
proof unfold_locales
  fix s k i u g du dg
  assume inv: "shm_inv c h s"
  show "shm_inv c h (shm_upsert_inode c h k i s)"
    using inv shm_upsert_inode_spec(1) [OF inv] by (cases "shm_room h s k") (simp_all add: shm_full_noop)
  show "shm_inv c h (shm_upsert_chown c h k u g du dg s)"
    using inv shm_upsert_chown_spec(1) [OF inv] by (cases "shm_room h s k") (simp_all add: shm_full_noop)
qed (simp_all add: shm_upsert_inode_spec shm_remove_inode_spec shm_upsert_chown_spec shm_full_noop
      shm_lookup_room shm_lookup_canon)

end
