(* ===== verification/Rust_Text.thy ===== *)
theory Rust_Text
  imports Prelude
begin

text \<open>
  The parts of Rust's standard library for text that the sources call: UTF-8 validation
  (\<open>CStr::to_str\<close>, \<open>env::var\<close>), decimal parsing (\<open>str::parse\<close>) and decimal printing
  (\<open>to_string\<close>).  Text is a list of characters, one per byte.
\<close>

section \<open>UTF-8\<close>

text \<open>A continuation byte, and the first-byte ranges of \<open>core::str::from_utf8\<close>.\<close>

definition utf8_cont :: "u8 \<Rightarrow> bool" where
  "utf8_cont b \<longleftrightarrow> 0x80 \<le> b \<and> b \<le> 0xBF"

fun utf8_valid :: "bytes \<Rightarrow> bool" where
  "utf8_valid [] = True"
| "utf8_valid (a # bs) =
     (if a < 0x80 then utf8_valid bs
      else if 0xC2 \<le> a \<and> a \<le> 0xDF then
        (case bs of b # cs \<Rightarrow> utf8_cont b \<and> utf8_valid cs | _ \<Rightarrow> False)
      else if 0xE0 \<le> a \<and> a \<le> 0xEF then
        (case bs of
           b # c # cs \<Rightarrow>
             (if a = 0xE0 then 0xA0 \<le> b \<and> b \<le> 0xBF
              else if a = 0xED then 0x80 \<le> b \<and> b \<le> 0x9F else utf8_cont b) \<and>
             utf8_cont c \<and> utf8_valid cs
         | _ \<Rightarrow> False)
      else if 0xF0 \<le> a \<and> a \<le> 0xF4 then
        (case bs of
           b # c # d # cs \<Rightarrow>
             (if a = 0xF0 then 0x90 \<le> b \<and> b \<le> 0xBF
              else if a = 0xF4 then 0x80 \<le> b \<and> b \<le> 0x8F else utf8_cont b) \<and>
             utf8_cont c \<and> utf8_cont d \<and> utf8_valid cs
         | _ \<Rightarrow> False)
      else False)"

lemma utf8_valid_ascii: "\<forall>b\<in>set bs. b < 0x80 \<Longrightarrow> utf8_valid bs"
  by (induction bs) simp_all

section \<open>Decimal numbers\<close>

definition digit_val :: "char \<Rightarrow> nat option" where
  "digit_val c =
     (let n = (of_char c :: nat) in if 48 \<le> n \<and> n \<le> 57 then Some (n - 48) else None)"

text \<open>Accumulate digits; an invalid digit or a value of \<open>lim\<close> or more is an error.\<close>

fun parse_digits :: "nat \<Rightarrow> nat \<Rightarrow> string \<Rightarrow> nat option" where
  "parse_digits lim acc [] = Some acc"
| "parse_digits lim acc (c # cs) =
     (case digit_val c of
        None \<Rightarrow> None
      | Some d \<Rightarrow> if acc * 10 + d < lim then parse_digits lim (acc * 10 + d) cs else None)"

text \<open>\<open>parse\<close> for an unsigned type with \<open>lim\<close> values: digits after an optional plus sign.\<close>

fun parse_unsigned :: "nat \<Rightarrow> string \<Rightarrow> nat option" where
  "parse_unsigned lim [] = None"
| "parse_unsigned lim (c # cs) =
     (if c = CHR ''+'' then (if cs = [] then None else parse_digits lim 0 cs)
      else parse_digits lim 0 (c # cs))"

definition parse_u32 :: "string \<Rightarrow> u32 option" where
  "parse_u32 s = map_option word_of_nat (parse_unsigned (2 ^ 32) s)"

definition parse_usize :: "string \<Rightarrow> nat option" where
  "parse_usize s = parse_unsigned (2 ^ 64) s"

definition parse_i32 :: "string \<Rightarrow> i32 option" where
  "parse_i32 s =
     (case s of
        c # cs \<Rightarrow>
          (if c = CHR ''-'' then
             (if cs = [] then None
              else map_option (\<lambda>n. - word_of_nat n) (parse_digits (2 ^ 31 + 1) 0 cs))
           else map_option word_of_nat (parse_unsigned (2 ^ 31) s))
      | [] \<Rightarrow> None)"

text \<open>A hexadecimal digit in lower case.\<close>

definition hex_digit :: "nat \<Rightarrow> char" where
  "hex_digit d = (if d < 10 then char_of (48 + d) else char_of (87 + d))"

fun show_nat :: "nat \<Rightarrow> string" where
  "show_nat n =
     (if n < 10 then [char_of (48 + n)] else show_nat (n div 10) @ [char_of (48 + n mod 10)])"

declare show_nat.simps [simp del]

lemma digit_val_digit [simp]: "d < 10 \<Longrightarrow> digit_val (char_of (48 + d)) = Some d"
  by (simp add: digit_val_def)

lemma parse_digits_append:
  "parse_digits lim acc (xs @ ys) =
     (case parse_digits lim acc xs of None \<Rightarrow> None | Some n \<Rightarrow> parse_digits lim n ys)"
  by (induction xs arbitrary: acc) (auto split: option.splits)

lemma parse_digits_show: "n < lim \<Longrightarrow> parse_digits lim 0 (show_nat n) = Some n"
proof (induction n rule: show_nat.induct)
  case (1 n)
  show ?case
  proof (cases "n < 10")
    case True
    with "1.prems" show ?thesis by (simp add: show_nat.simps [of n])
  next
    case False
    then have "parse_digits lim 0 (show_nat (n div 10)) = Some (n div 10)"
      using "1.IH" "1.prems" by simp
    with False "1.prems" show ?thesis
      by (simp add: show_nat.simps [of n] parse_digits_append)
  qed
qed

lemma show_nat_digits: "c \<in> set (show_nat n) \<Longrightarrow> digit_val c \<noteq> None"
proof (induction n rule: show_nat.induct)
  case (1 n)
  then show ?case by (subst (asm) (2) show_nat.simps) (auto split: if_splits)
qed

lemma show_nat_nonempty [simp]: "show_nat n \<noteq> []"
  by (subst show_nat.simps) simp

text \<open>A number of the type survives printing and parsing.\<close>

lemma parse_unsigned_show: "n < lim \<Longrightarrow> parse_unsigned lim (show_nat n) = Some n"
proof -
  assume n: "n < lim"
  obtain c cs where s: "show_nat n = c # cs" by (cases "show_nat n") auto
  then have "c \<noteq> CHR ''+''" using show_nat_digits [of c n] by (auto simp: digit_val_def)
  with s parse_digits_show [OF n] show ?thesis by simp
qed

lemma parse_usize_show: "n < 2 ^ 64 \<Longrightarrow> parse_usize (show_nat n) = Some n"
  by (simp add: parse_usize_def parse_unsigned_show)

lemma parse_u32_show: "parse_u32 (show_nat (unat w)) = Some w"
  unfolding parse_u32_def parse_unsigned_show [OF unat_less_u32] by simp

end
