(* ===== verification/Shm_Layout.thy ===== *)
theory Shm_Layout
  imports Shm_Map Rust_Text
begin

text \<open>
  Creating and mapping the shared table (\<open>create\<close>, \<open>from_fd\<close>, \<open>init_header\<close> and the offset
  functions of \<open>pseudoroot-core/src/shm_map.rs\<close>).  The operating system's answers
  (\<open>memfd_create\<close>, \<open>ftruncate\<close>, \<open>mmap\<close>, \<open>dup\<close>, \<open>fstat\<close>) are the fields of \<open>shm_os\<close>; sizes
  and offsets follow the \<open>repr(C)\<close> rules of the two structs on a 64-bit target.
\<close>

section \<open>Sizes and offsets\<close>

definition round_up :: "nat \<Rightarrow> nat \<Rightarrow> nat" where
  "round_up x a = ((x + a - 1) div a) * a"

text \<open>\<open>size_of\<close> of a \<open>repr(C)\<close> struct from the sizes and alignments of its fields.\<close>

fun fields_end :: "nat \<Rightarrow> (nat \<times> nat) list \<Rightarrow> nat" where
  "fields_end off [] = off"
| "fields_end off ((sz, al) # fs) = fields_end (round_up off al + sz) fs"

definition struct_size :: "nat \<Rightarrow> (nat \<times> nat) list \<Rightarrow> nat" where
  "struct_size align fs = round_up (fields_end 0 fs) (fold (\<lambda>f a. max (snd f) a) fs align)"

definition size_of_Header :: nat where
  "size_of_Header = struct_size 64 [(4, 4), (4, 4), (4, 4), (4, 4), (4, 4)]"

definition size_of_Slot :: nat where
  "size_of_Slot = struct_size 8 [(4, 4), (8, 8), (8, 8), (4, 4), (4, 4), (4, 4), (8, 8)]"

definition slot_offset :: "u32 \<Rightarrow> nat" where
  "slot_offset index = size_of_Header + size_of_Slot * unat index"

definition xattr_region_offset :: "shm_map \<Rightarrow> nat" where
  "xattr_region_offset h = size_of_Header + size_of_Slot * unat (sm_slot_count h)"

definition xattr_page_offset :: "shm_map \<Rightarrow> u32 \<Rightarrow> nat" where
  "xattr_page_offset h index = xattr_region_offset h + XATTR_PAGE_SIZE * unat index"

section \<open>Creation\<close>

datatype shm_error =
    OsError
  | SlotTableTooLarge
  | XattrRegionTooLarge
  | ShmMapTooLarge
  | ShmMapTooSmall
  | HeaderMismatch

record shm_os =
  os_memfd :: i32
  os_ftruncate :: i32
  os_mmap_ok :: bool
  os_dup :: i32
  os_fstat_size :: "nat option"

definition checked_mul :: "nat \<Rightarrow> nat \<Rightarrow> nat option" where
  "checked_mul a b = (if a * b < 2 ^ 64 then Some (a * b) else None)"

definition checked_add :: "nat \<Rightarrow> nat \<Rightarrow> nat option" where
  "checked_add a b = (if a + b < 2 ^ 64 then Some (a + b) else None)"

text \<open>
  \<open>u32::next_power_of_two\<close>: the least power of two that is not smaller; above \<open>2 ^ 31\<close> it
  wraps to 0 (a debug build panics there).
\<close>

definition next_power_of_two :: "u32 \<Rightarrow> u32" where
  "next_power_of_two n =
     (case find (\<lambda>k. unat n \<le> 2 ^ k) [0..<33] of Some k \<Rightarrow> word_of_nat (2 ^ k) | None \<Rightarrow> 0)"

definition zero_slot :: slot where
  "zero_slot = \<lparr>sl_occupied = 0, sl_dev = 0, sl_ino = 0, sl_uid = 0, sl_gid = 0,
     sl_mode = 0, sl_rdev = 0\<rparr>"

text \<open>Fresh shared memory is zero-filled.\<close>

definition zero_mem :: "nat \<Rightarrow> shm_mem" where
  "zero_mem n =
     \<lparr>sh_header = \<lparr>hd_magic = 0, hd_version = 0, hd_slot_count = 0, hd_current_uid = 0,
        hd_current_gid = 0\<rparr>,
      sh_slots = replicate n zero_slot,
      sh_pages = replicate n (replicate XATTR_PAGE_SIZE 0)\<rparr>"

definition init_header :: "shm_map \<Rightarrow> u32 \<Rightarrow> u32 \<Rightarrow> shm_mem \<Rightarrow> shm_mem" where
  "init_header h uid gid m =
     (let m = m\<lparr>sh_header := \<lparr>hd_magic = SHM_MAGIC, hd_version = SHM_VERSION,
                hd_slot_count = sm_slot_count h, hd_current_uid = uid, hd_current_gid = gid\<rparr>\<rparr>
      in fold (\<lambda>i m. modify_slot (word_of_nat i) (\<lambda>s. s\<lparr>sl_occupied := SLOT_EMPTY\<rparr>) m)
           [0..<unat (sm_slot_count h)] m)"

definition shm_create ::
    "shm_os \<Rightarrow> u32 \<Rightarrow> u32 \<Rightarrow> u32 \<Rightarrow> shm_error + shm_map \<times> shm_mem" where
  "shm_create os slot_count uid gid =
     (let slot_count = max (next_power_of_two slot_count) 1024 in
      case checked_mul size_of_Slot (unat slot_count) of
        None \<Rightarrow> Inl SlotTableTooLarge
      | Some slots_size \<Rightarrow>
      case checked_mul XATTR_PAGE_SIZE (unat slot_count) of
        None \<Rightarrow> Inl XattrRegionTooLarge
      | Some xattr_region_size \<Rightarrow>
      case Option.bind (checked_add size_of_Header slots_size)
             (\<lambda>v. checked_add v xattr_region_size) of
        None \<Rightarrow> Inl ShmMapTooLarge
      | Some len \<Rightarrow>
          if sint (os_memfd os) < 0 then Inl OsError
          else if sint (os_ftruncate os) < 0 then Inl OsError
          else if \<not> os_mmap_ok os then Inl OsError
          else
            (let h = \<lparr>sm_len = len, sm_slot_count = slot_count, sm_fd = os_memfd os\<rparr>
             in Inr (h, init_header h uid gid (zero_mem (unat slot_count)))))"

text \<open>
  \<open>from_fd\<close> maps an inherited descriptor; \<open>len_var\<close> is the value of \<open>PSEUDOROOT_SHM_LEN\<close>, if
  set, and \<open>m\<close> the shared memory the descriptor refers to.  Without a usable length the code
  calls \<open>libc::fstat\<close>, and \<open>os_fstat_size\<close> is what the system answers to that.  In the
  preloaded library that name is its own exported hook, which comes back into the
  initialisation the call is part of: \<open>shm_from_fd\<close> is the result if the hook returns,
  \<open>from_fd_stats\<close> says when it is called, and \<open>Library_Init\<close> has what it does then.
\<close>

definition shm_from_fd :: "shm_os \<Rightarrow> string option \<Rightarrow> shm_mem \<Rightarrow> shm_error + shm_map" where
  "shm_from_fd os len_var m =
     (if sint (os_dup os) < 0 then Inl OsError
      else
        case (case Option.bind len_var parse_usize of
                Some len \<Rightarrow> if size_of_Header \<le> len then Some len else os_fstat_size os
              | None \<Rightarrow> os_fstat_size os) of
          None \<Rightarrow> Inl OsError
        | Some len \<Rightarrow>
            if len < size_of_Header then Inl ShmMapTooSmall
            else if \<not> os_mmap_ok os then Inl OsError
            else if hd_magic (sh_header m) \<noteq> SHM_MAGIC \<or> hd_version (sh_header m) \<noteq> SHM_VERSION
            then Inl HeaderMismatch
            else Inr \<lparr>sm_len = len, sm_slot_count = hd_slot_count (sh_header m), sm_fd = os_dup os\<rparr>)"

definition from_fd_stats :: "shm_os \<Rightarrow> string option \<Rightarrow> bool" where
  "from_fd_stats os len_var \<longleftrightarrow> 0 \<le> sint (os_dup os) \<and>
     (case Option.bind len_var parse_usize of Some len \<Rightarrow> len < size_of_Header | None \<Rightarrow> True)"

section \<open>Facts\<close>

lemma size_of_Header_eq [simp]: "size_of_Header = 64"
  by (simp add: size_of_Header_def struct_size_def round_up_def)

lemma size_of_Slot_eq [simp]: "size_of_Slot = 48"
  by (simp add: size_of_Slot_def struct_size_def round_up_def)

lemma next_power_of_two_cases:
  "(\<exists>k\<le>31. next_power_of_two n = 2 ^ k \<and> unat n \<le> 2 ^ k) \<or>
   next_power_of_two n = 0 \<and> 2 ^ 31 < unat n"
proof -
  let ?P = "\<lambda>k. unat n \<le> 2 ^ k"
  have "?P 32" using unat_less_u32 [of n] by simp
  moreover have "32 \<in> set [0..<33::nat]" by simp
  ultimately have "find ?P [0..<33] \<noteq> None" unfolding find_None_iff by blast
  then obtain k where k: "find ?P [0..<33] = Some k" by blast
  then have "k < 33" "?P k" and least: "\<And>j. j < k \<Longrightarrow> \<not> ?P j"
    by (auto simp: find_Some_iff)
  show ?thesis
  proof (cases "k = 32")
    case True
    with k least [of 31] show ?thesis by (simp add: next_power_of_two_def)
  next
    case False
    with \<open>k < 33\<close> have "k \<le> 31" by simp
    with k \<open>?P k\<close> show ?thesis by (auto simp: next_power_of_two_def)
  qed
qed

lemma unat_two_power: "k < 32 \<Longrightarrow> unat (2 ^ k :: u32) = 2 ^ k"
  using unat_of_nat_u32 [of "2 ^ k"] power_strict_increasing [of k 32 "2 :: nat"] by simp

lemma max_two_power:
  assumes "k < 32"
  shows "max (2 ^ k :: u32) 1024 = (if k < 10 then 2 ^ 10 else 2 ^ k)"
proof -
  have "(2 :: nat) ^ k \<le> 1024 \<longleftrightarrow> k \<le> 10"
    using power_increasing_iff [of "2::nat" k 10] by simp
  then show ?thesis
    using assms by (auto simp: max_def word_le_nat_alt unat_two_power)
qed

lemma slot_count_cases:
  "\<exists>k. 10 \<le> k \<and> k \<le> 31 \<and> max (next_power_of_two n) 1024 = 2 ^ k \<and>
     (unat n \<le> 2 ^ 31 \<longrightarrow> unat n \<le> 2 ^ k)"
  using next_power_of_two_cases [of n]
proof
  assume "next_power_of_two n = 0 \<and> 2 ^ 31 < unat n"
  then show ?thesis by (intro exI [of _ 10]) simp
next
  assume "\<exists>k\<le>31. next_power_of_two n = 2 ^ k \<and> unat n \<le> 2 ^ k"
  then obtain k where k: "k \<le> 31" "next_power_of_two n = 2 ^ k" "unat n \<le> 2 ^ k" by blast
  show ?thesis
  proof (cases "k < 10")
    case True
    then have "(2 :: nat) ^ k \<le> 2 ^ 10" by (intro power_increasing) simp_all
    with k True show ?thesis by (intro exI [of _ 10]) (simp add: max_two_power)
  next
    case False
    with k show ?thesis by (intro exI [of _ k]) (simp add: max_two_power)
  qed
qed

lemma init_slots:
  "n \<le> length (sh_slots m) \<Longrightarrow> n \<le> 2 ^ 32 \<Longrightarrow>
   fold (\<lambda>i m. modify_slot (word_of_nat i) f m) [0..<n] m =
     m\<lparr>sh_slots := map f (take n (sh_slots m)) @ drop n (sh_slots m)\<rparr>"
proof (induction n)
  case (Suc n)
  let ?m = "m\<lparr>sh_slots := map f (take n (sh_slots m)) @ drop n (sh_slots m)\<rparr>"
  have n: "unat (word_of_nat n :: u32) = n" using Suc.prems(2) by simp
  have "drop n (sh_slots m) = sh_slots m ! n # drop (Suc n) (sh_slots m)"
    using Suc.prems(1) by (simp add: Cons_nth_drop_Suc)
  then have "modify_slot (word_of_nat n) f ?m =
      m\<lparr>sh_slots := map f (take (Suc n) (sh_slots m)) @ drop (Suc n) (sh_slots m)\<rparr>"
    using Suc.prems(1) by (simp add: modify_slot_def n take_Suc_conv_app_nth nth_append list_update_append)
  with Suc show ?case by simp
qed simp

text \<open>What \<open>create\<close> returns when it succeeds, in closed form.\<close>

lemma shm_create_success:
  assumes "shm_create os sc uid gid = Inr (h, m)"
  shows "\<exists>k. 10 \<le> k \<and> k \<le> 31 \<and> sm_slot_count h = 2 ^ k \<and> (unat sc \<le> 2 ^ 31 \<longrightarrow> unat sc \<le> 2 ^ k)"
    and "sm_len h = 64 + 48 * nslots h + XATTR_PAGE_SIZE * nslots h" and "sm_len h < 2 ^ 64"
    and "m = \<lparr>sh_header = \<lparr>hd_magic = SHM_MAGIC, hd_version = SHM_VERSION,
                hd_slot_count = sm_slot_count h, hd_current_uid = uid, hd_current_gid = gid\<rparr>,
              sh_slots = replicate (nslots h) zero_slot,
              sh_pages = replicate (nslots h) (replicate XATTR_PAGE_SIZE 0)\<rparr>"
proof -
  have h: "sm_slot_count h = max (next_power_of_two sc) 1024"
      "sm_len h = 64 + 48 * nslots h + XATTR_PAGE_SIZE * nslots h" "sm_len h < 2 ^ 64"
    and m: "m = init_header h uid gid (zero_mem (nslots h))"
    using assms
    by (auto simp: shm_create_def Let_def checked_mul_def checked_add_def
          split: option.splits if_splits)
  show "\<exists>k. 10 \<le> k \<and> k \<le> 31 \<and> sm_slot_count h = 2 ^ k \<and> (unat sc \<le> 2 ^ 31 \<longrightarrow> unat sc \<le> 2 ^ k)"
    unfolding h(1) by (rule slot_count_cases)
  show "sm_len h = 64 + 48 * nslots h + XATTR_PAGE_SIZE * nslots h" "sm_len h < 2 ^ 64"
    by (fact h)+
  show "m = \<lparr>sh_header = \<lparr>hd_magic = SHM_MAGIC, hd_version = SHM_VERSION,
                hd_slot_count = sm_slot_count h, hd_current_uid = uid, hd_current_gid = gid\<rparr>,
              sh_slots = replicate (nslots h) zero_slot,
              sh_pages = replicate (nslots h) (replicate XATTR_PAGE_SIZE 0)\<rparr>"
    using unat_less_u32 [of "sm_slot_count h"]
    by (simp add: m init_header_def zero_mem_def init_slots zero_slot_def slot_codes Let_def)
qed

text \<open>A created table is a well-formed empty one.\<close>

lemma created_slots:
  assumes "shm_create os sc uid gid = Inr (h, m)" and "p < nslots h"
  shows "is_empty_at m p" and "sh_pages m ! p = replicate XATTR_PAGE_SIZE 0"
  using assms(2) by (simp_all add: shm_create_success(4) [OF assms(1)] slot_state_defs slot_codes
      zero_slot_def)

lemma created_wf:
  assumes create: "shm_create os sc uid gid = Inr (h, m)"
  shows "table_wf h m"
proof -
  obtain k where "k \<le> 31" "sm_slot_count h = 2 ^ k"
    using shm_create_success(1) [OF create] by blast
  then have "0 < nslots h" by (simp add: unat_two_power)
  then show ?thesis
    using created_slots [OF create] slot_states_disjoint
    by (auto simp: table_wf_def shm_create_success(4) [OF create])
qed

lemma created_inv:
  assumes "serde_ok c" and create: "shm_create os sc uid gid = Inr (h, m)"
  shows "shm_inv c h m"
  using assms(1) created_wf [OF create] created_slots(1) [OF create] slot_states_disjoint(1)
  by (auto simp: shm_inv_def)

lemma created_empty:
  assumes create: "shm_create os sc uid gid = Inr (h, m)"
  shows "shm_get_inode c h m k = None"
  using created_slots(1) [OF create] slot_states_disjoint(1)
  by (intro get_absent [OF created_wf [OF create]]) (auto simp: holds_at_def)

text \<open>Operations leave the header, and so the current ids, alone; setting the ids keeps the table.\<close>

lemma put_slot_header: "sh_header (modify_slot i f m) = sh_header m"
    "sh_header (write_xattrs c i x m) = sh_header m"
  by (simp_all add: modify_slot_def write_xattrs_def set_page_def)

lemma shm_header_frame [frame_simps]:
  "sh_header (shm_upsert_inode c h k i m) = sh_header m"
  "sh_header (shm_upsert_chown c h k u g du dg m) = sh_header m"
  "sh_header (snd (shm_remove_inode c h k m)) = sh_header m"
  by (simp_all add: shm_upsert_inode_def shm_upsert_chown_def shm_remove_inode_def
      case_prod_beta put_slot_header split: probe.split)

end
