(* ===== verification/Shm_Capacity.thy ===== *)
theory Shm_Capacity
  imports Shm_Layout
begin

text \<open>
  How many insertions the fixed-size table of \<open>shm_map.rs\<close> takes.  An insertion uses up at
  most one empty slot and nothing makes a slot empty again, so the empty slots are the
  capacity that is left; removed entries do not give it back.
\<close>

definition empties :: "shm_map \<Rightarrow> shm_mem \<Rightarrow> nat set" where
  "empties h m = {p. p < nslots h \<and> is_empty_at m p}"

definition no_tombstones :: "shm_map \<Rightarrow> shm_mem \<Rightarrow> bool" where
  "no_tombstones h m \<longleftrightarrow> (\<forall>p<nslots h. \<not> is_tombstone_at m p)"

abbreviation shm_step :: "xattrs serde \<Rightarrow> shm_map \<Rightarrow> store_op \<Rightarrow> shm_mem \<Rightarrow> shm_mem" where
  "shm_step c h \<equiv>
     run_op (shm_upsert_inode c h) (\<lambda>k m. snd (shm_remove_inode c h k m)) (shm_upsert_chown c h)"

section \<open>What an operation does to the empty slots\<close>

lemma finite_empties [simp]: "finite (empties h m)"
  by (simp add: empties_def)

lemma write_xattrs_slots [simp]: "sh_slots (write_xattrs c i x m) = sh_slots m"
  by (simp add: write_xattrs_def set_page_def)

lemma occupied_modify:
  assumes "unat i < length (sh_slots m)"
  shows "sl_occupied (sh_slots (modify_slot i f m) ! p) =
    sl_occupied (if p = unat i then f (sh_slots m ! p) else sh_slots m ! p)"
  using assms by (simp add: modify_slot_def nth_list_update_conv)

text \<open>An insertion takes the slot its probe proposes; everything else keeps the empty ones.\<close>

definition takes :: "shm_map \<Rightarrow> shm_mem \<Rightarrow> store_op \<Rightarrow> nat \<Rightarrow> bool" where
  "takes h m x p \<longleftrightarrow> inserts x \<and>
     (\<exists>i. shm_probe h m (fst (op_key x)) (snd (op_key x)) = Vacant i \<and> unat i = p)"

lemma step_occupied:
  assumes wf: "table_wf h m"
  shows "is_empty_at (shm_step c h x m) p \<longleftrightarrow> is_empty_at m p \<and> \<not> takes h m x p"
    and "inserts x \<Longrightarrow> is_tombstone_at (shm_step c h x m) p \<longleftrightarrow>
           is_tombstone_at m p \<and> \<not> takes h m x p"
proof -
  have "(is_empty_at (shm_step c h x m) p \<longleftrightarrow> is_empty_at m p \<and> \<not> takes h m x p) \<and>
    (inserts x \<longrightarrow> (is_tombstone_at (shm_step c h x m) p \<longleftrightarrow>
           is_tombstone_at m p \<and> \<not> takes h m x p))"
  proof (cases "shm_probe h m (fst (op_key x)) (snd (op_key x))")
    case (Found i)
    have less: "unat i < length (sh_slots m)" and live: "is_live_at m (unat i)"
      using probe_Found [OF table_wfD(1) [OF wf] Found] table_wfD(2) [OF wf]
      by (simp_all add: holds_at_def)
    then show ?thesis
      using Found
      by (cases x) (auto simp: takes_def shm_upsert_inode_def shm_upsert_chown_def
          shm_remove_inode_def case_prod_beta slot_state_defs occupied_modify slot_codes Let_def)
  next
    case (Vacant i)
    then have "unat i < length (sh_slots m)"
      using probe_Vacant(1) [OF wf Vacant] table_wfD(2) [OF wf] by simp
    then show ?thesis
      using Vacant
      by (cases x) (auto simp: takes_def shm_upsert_inode_def shm_upsert_chown_def
          shm_remove_inode_def case_prod_beta slot_state_defs occupied_modify slot_codes Let_def)
  next
    case Full
    then show ?thesis
      by (cases x) (simp_all add: takes_def shm_upsert_inode_def shm_upsert_chown_def
          shm_remove_inode_def case_prod_beta)
  qed
  then show "is_empty_at (shm_step c h x m) p \<longleftrightarrow> is_empty_at m p \<and> \<not> takes h m x p"
    "inserts x \<Longrightarrow> is_tombstone_at (shm_step c h x m) p \<longleftrightarrow>
           is_tombstone_at m p \<and> \<not> takes h m x p" by blast+
qed

lemma empties_step:
  assumes "table_wf h m"
  shows "empties h (shm_step c h x m) = empties h m - {p. takes h m x p}"
  using step_occupied(1) [OF assms] by (auto simp: empties_def)

lemma takes_unique: "takes h m x p \<Longrightarrow> takes h m x q \<Longrightarrow> p = q"
  by (auto simp: takes_def)

lemma card_empties_step:
  assumes "table_wf h m"
  shows "card (empties h m) \<le> card (empties h (shm_step c h x m)) + (if inserts x then 1 else 0)"
proof (cases "\<exists>p. takes h m x p")
  case True
  then obtain p where "takes h m x p" by blast
  then have "{p. takes h m x p} = {p}" and "inserts x"
    using takes_unique by (auto simp: takes_def)
  then show ?thesis
    using card_Diff1_le [of "empties h m" p] card_Suc_Diff1 [of "empties h m" p]
    by (cases "p \<in> empties h m") (simp_all add: empties_step [OF assms])
next
  case False
  then show ?thesis by (simp add: empties_step [OF assms])
qed

section \<open>Room\<close>

lemma shm_room_iff:
  assumes inv: "shm_inv c h m"
  shows "shm_room h m k \<longleftrightarrow> shm_get_inode c h m k \<noteq> None \<or> empties h m \<noteq> {}"
proof -
  note wf = shm_invD(2) [OF inv]
  have "shm_get_inode c h m k \<noteq> None \<longleftrightarrow> (\<exists>p<nslots h. holds_at m p k)"
    using get_present [OF wf] get_absent [OF wf] by (metis option.distinct(1))
  then show ?thesis
    using probe_Full [OF wf, of "fst k" "snd k"] by (auto simp: shm_room_def empties_def)
qed

text \<open>As long as the insertions do not outnumber the empty slots, the table is never full.\<close>

lemma never_full_capacity:
  "shm_inv c h m \<Longrightarrow> length (filter inserts xs) \<le> card (empties h m) \<Longrightarrow>
     never_full (shm_room h) (shm_step c h) xs m"
proof (induction xs arbitrary: m)
  case (Cons x xs)
  let ?m = "shm_step c h x m"
  have "shm_room h m (op_key x)" if "inserts x"
  proof -
    have "0 < card (empties h m)" using Cons.prems(2) that by simp
    then have "empties h m \<noteq> {}" by (metis card.empty less_nat_zero_code)
    then show ?thesis by (simp add: shm_room_iff [OF Cons.prems(1)])
  qed
  moreover have "length (filter inserts xs) \<le> card (empties h ?m)"
    using Cons.prems(2) card_empties_step [OF shm_invD(2) [OF Cons.prems(1)], of c x]
    by (auto split: if_splits)
  then have "never_full (shm_room h) (shm_step c h) xs ?m"
    by (rule Cons.IH [OF shm.invar_op [OF Cons.prems(1)]])
  ultimately show ?case by simp
qed simp

lemma card_empties_created:
  assumes "shm_create os sc uid gid = Inr (h, m)"
  shows "card (empties h m) = nslots h"
proof -
  have "empties h m = {..<nslots h}"
    using created_slots(1) [OF assms] by (auto simp: empties_def)
  then show ?thesis by simp
qed

section \<open>Using the table up\<close>

text \<open>Inserting a new key into a table without tombstones uses exactly one empty slot.\<close>

lemma fresh_insert:
  assumes inv: "shm_inv c h m" and nt: "no_tombstones h m" and ins: "inserts x"
    and fresh: "shm_get_inode c h m (op_key x) = None" and room: "empties h m \<noteq> {}"
  shows "no_tombstones h (shm_step c h x m)"
    and "Suc (card (empties h (shm_step c h x m))) = card (empties h m)"
proof -
  note wf = shm_invD(2) [OF inv]
  have "shm_room h m (op_key x)" using room by (simp add: shm_room_iff [OF inv])
  moreover have "shm_probe h m (fst (op_key x)) (snd (op_key x)) \<noteq> Found i" for i
  proof
    assume "shm_probe h m (fst (op_key x)) (snd (op_key x)) = Found i"
    with probe_Found [OF table_wfD(1) [OF wf] this] get_present [OF wf] fresh show False by simp
  qed
  ultimately obtain i where vac: "shm_probe h m (fst (op_key x)) (snd (op_key x)) = Vacant i"
    by (cases "shm_probe h m (fst (op_key x)) (snd (op_key x))") (auto simp: shm_room_def)
  have i: "unat i < nslots h" "is_empty_at m (unat i)"
    using probe_Vacant(1,2) [OF wf vac] table_wfD(5) [OF wf] nt
    by (auto simp: no_tombstones_def)
  have "{p. takes h m x p} = {unat i}" using vac ins by (auto simp: takes_def)
  then have "empties h (shm_step c h x m) = empties h m - {unat i}"
    by (simp add: empties_step [OF wf])
  moreover have "unat i \<in> empties h m" using i by (simp add: empties_def)
  ultimately show "Suc (card (empties h (shm_step c h x m))) = card (empties h m)"
    using card_Suc_Diff1 [of "empties h m"] by simp
  show "no_tombstones h (shm_step c h x m)"
    using nt step_occupied(2) [OF wf ins] by (simp add: no_tombstones_def)
qed

lemma fill_up:
  assumes "shm_inv c h m" "no_tombstones h m" "distinct (map op_key xs)" "list_all inserts xs"
    and "\<forall>x\<in>set xs. shm_get_inode c h m (op_key x) = None" "length xs \<le> card (empties h m)"
  shows "card (empties h (fold (shm_step c h) xs m)) + length xs = card (empties h m)"
  using assms
proof (induction xs arbitrary: m)
  case (Cons x xs)
  let ?m = "shm_step c h x m"
  have "empties h m \<noteq> {}" using Cons.prems(6) by auto
  then have step: "no_tombstones h ?m" "Suc (card (empties h ?m)) = card (empties h m)"
    using fresh_insert [of c h m x] Cons.prems by simp_all
  have "shm_get_inode c h ?m (op_key y) = None" if "y \<in> set xs" for y
  proof -
    have "op_key y \<in> op_key ` set xs" using that by simp
    moreover have "op_key x \<notin> op_key ` set xs" using Cons.prems(3) by simp
    ultimately have "op_key y \<noteq> op_key x" by metis
    with that Cons.prems(5) shm.lookup_op_other [OF Cons.prems(1)] show ?thesis by simp
  qed
  then have "card (empties h (fold (shm_step c h) xs ?m)) + length xs = card (empties h ?m)"
    using Cons.prems step by (intro Cons.IH shm.invar_op) simp_all
  with step show ?case by simp
qed simp

lemma fold_inv: "shm_inv c h m \<Longrightarrow> shm_inv c h (fold (shm_step c h) xs m)"
  by (induction xs arbitrary: m) (simp_all add: shm.invar_op)

lemma fold_empties:
  "shm_inv c h m \<Longrightarrow> empties h (fold (shm_step c h) xs m) \<subseteq> empties h m"
proof (induction xs arbitrary: m)
  case (Cons x xs)
  have "empties h (fold (shm_step c h) xs (shm_step c h x m)) \<subseteq> empties h (shm_step c h x m)"
    by (rule Cons.IH [OF shm.invar_op [OF Cons.prems]])
  also have "\<dots> \<subseteq> empties h m" by (auto simp: empties_step [OF shm_invD(2) [OF Cons.prems]])
  finally show ?case by simp
qed simp

lemma fold_remove_lookup:
  "shm_inv c h m \<Longrightarrow> shm_get_inode c h (fold (shm_step c h) (map Remove ks) m) k =
     (if k \<in> set ks then None else shm_get_inode c h m k)"
  by (induction ks arbitrary: m) (simp_all add: shm.invar_remove shm.lookup_remove)

text \<open>Without empty slots, only keys that are present can be written.\<close>

lemma exhausted:
  assumes inv: "shm_inv c h m" and "empties h m = {}" and "shm_get_inode c h m (op_key x) = None"
  shows "shm_step c h x m = m"
proof -
  have "\<not> shm_room h m (op_key x)" using assms by (simp add: shm_room_iff [OF inv])
  moreover have "snd (shm_remove_inode c h k m) = m" if "shm_get_inode c h m k = None" for k
    using that shm_remove_inode_spec(3) [OF inv, of k]
    by (auto simp: shm_remove_inode_def case_prod_beta split: probe.splits)
  ultimately show ?thesis
    using assms(3) by (cases x) (simp_all add: shm_full_noop)
qed

end
