(* ===== verification/Shm_Threads.thy ===== *)
theory Shm_Threads
  imports Shm_Capacity
begin

text \<open>
  Several processes on one shared table (\<open>pseudoroot-core/src/shm_map.rs\<close>).  The operations of
  \<open>Shm_Map\<close> are taken apart into the accesses they make: the probe loads the state of a slot,
  then the device and the inode number of a live one, and what follows is a list of stores, one
  per field and one per \<open>copy_from_slice\<close> into an attribute page.  Between any two accesses of
  one process the others may run; a schedule is the list of the processes in the order they
  take their steps.  Accesses take effect in program order and one at a time.
\<close>

section \<open>Stores\<close>

datatype shm_store =
    SetDev u32 u64
  | SetIno u32 u64
  | SetUid u32 u32
  | SetGid u32 u32
  | SetMode u32 u32
  | SetRdev u32 u64
  | SetOccupied u32 u32
  | SetPage u32 nat bytes

fun do_store :: "shm_store \<Rightarrow> shm_mem \<Rightarrow> shm_mem" where
  "do_store (SetDev i v) m = modify_slot i (\<lambda>s. s\<lparr>sl_dev := v\<rparr>) m"
| "do_store (SetIno i v) m = modify_slot i (\<lambda>s. s\<lparr>sl_ino := v\<rparr>) m"
| "do_store (SetUid i v) m = modify_slot i (\<lambda>s. s\<lparr>sl_uid := v\<rparr>) m"
| "do_store (SetGid i v) m = modify_slot i (\<lambda>s. s\<lparr>sl_gid := v\<rparr>) m"
| "do_store (SetMode i v) m = modify_slot i (\<lambda>s. s\<lparr>sl_mode := v\<rparr>) m"
| "do_store (SetRdev i v) m = modify_slot i (\<lambda>s. s\<lparr>sl_rdev := v\<rparr>) m"
| "do_store (SetOccupied i v) m = modify_slot i (\<lambda>s. s\<lparr>sl_occupied := v\<rparr>) m"
| "do_store (SetPage i off bs) m = set_page i (copy_at off bs (xattr_page m i)) m"

fun store_slot :: "shm_store \<Rightarrow> u32" where
  "store_slot (SetDev i v) = i"
| "store_slot (SetIno i v) = i"
| "store_slot (SetUid i v) = i"
| "store_slot (SetGid i v) = i"
| "store_slot (SetMode i v) = i"
| "store_slot (SetRdev i v) = i"
| "store_slot (SetOccupied i v) = i"
| "store_slot (SetPage i off bs) = i"

text \<open>The stores of \<open>write_xattrs\<close>.\<close>

definition xattr_stores :: "xattrs serde \<Rightarrow> u32 \<Rightarrow> xattrs \<Rightarrow> shm_store list" where
  "xattr_stores c i xattrs =
     (if xattrs = fmempty then [SetPage i 0 (le32 0)]
      else case (case serialize c xattrs of
                   Some bytes \<Rightarrow> if length bytes \<le> XATTR_PAGE_SIZE - 4 then Some bytes else None
                 | None \<Rightarrow> None) of
             Some bytes \<Rightarrow> [SetPage i 0 (le32 (word_of_nat (length bytes))), SetPage i 4 bytes]
           | None \<Rightarrow> [SetPage i 0 (le32 0)])"

text \<open>The stores an operation makes once its probe has an outcome, in their order.\<close>

fun op_stores :: "xattrs serde \<Rightarrow> store_op \<Rightarrow> probe \<Rightarrow> shm_store list" where
  "op_stores c (Chown k uid gid default_uid default_gid) (Found i) =
     (if uid \<noteq> ID_UNCHANGED then [SetUid i uid] else []) @
     (if gid \<noteq> ID_UNCHANGED then [SetGid i gid] else [])"
| "op_stores c (Chown k uid gid default_uid default_gid) (Vacant i) =
     xattr_stores c i fmempty @
     [SetDev i (fst k), SetIno i (snd k),
      SetUid i (if uid = ID_UNCHANGED then default_uid else uid),
      SetGid i (if gid = ID_UNCHANGED then default_gid else gid),
      SetMode i 0, SetRdev i 0, SetOccupied i SLOT_LIVE]"
| "op_stores c (Upsert k n) (Found i) =
     [SetUid i (i_uid n), SetGid i (i_gid n), SetMode i (unwrap_or_0 (i_mode n)),
      SetRdev i (unwrap_or_0 (i_rdev n))] @ xattr_stores c i (i_xattrs n)"
| "op_stores c (Upsert k n) (Vacant i) =
     xattr_stores c i (i_xattrs n) @
     [SetDev i (fst k), SetIno i (snd k), SetUid i (i_uid n), SetGid i (i_gid n),
      SetMode i (unwrap_or_0 (i_mode n)), SetRdev i (unwrap_or_0 (i_rdev n)), SetOccupied i SLOT_LIVE]"
| "op_stores c (Remove k) (Found i) = xattr_stores c i fmempty @ [SetOccupied i SLOT_TOMBSTONE]"
| "op_stores c (Remove k) (Vacant i) = []"
| "op_stores c x Full = []"

section \<open>One process\<close>

text \<open>
  Where a process is: before the load of a slot's state, of its device, of its inode number
  (with the iterations of the probe loop that remain after this one, the slot, and the slot to
  reuse), or with these stores to make.  A process is done when none are left.
\<close>

datatype shm_pc =
    LoadOccupied store_op nat u32 "u32 option"
  | LoadDev store_op nat u32 "u32 option"
  | LoadIno store_op nat u32 "u32 option"
  | Storing "shm_store list"

definition op_start :: "shm_map \<Rightarrow> store_op \<Rightarrow> shm_pc" where
  "op_start h x = LoadOccupied x (nslots h) (shm_hash h (fst (op_key x)) (snd (op_key x))) None"

fun pc_step :: "xattrs serde \<Rightarrow> shm_map \<Rightarrow> shm_pc \<Rightarrow> shm_mem \<Rightarrow> shm_pc \<times> shm_mem" where
  "pc_step c h (LoadOccupied x 0 idx reuse) m = (Storing (op_stores c x Full), m)"
| "pc_step c h (LoadOccupied x (Suc t) idx reuse) m =
     (let occupied = sl_occupied (shm_slot m idx) in
      (if occupied = SLOT_EMPTY
       then Storing (op_stores c x (Vacant (case reuse of Some r \<Rightarrow> r | None \<Rightarrow> idx)))
       else if occupied = SLOT_LIVE then LoadDev x t idx reuse
       else LoadOccupied x t ((idx + 1) mod sm_slot_count h)
              (if occupied = SLOT_TOMBSTONE \<and> reuse = None then Some idx else reuse), m))"
| "pc_step c h (LoadDev x t idx reuse) m =
     (if sl_dev (shm_slot m idx) = fst (op_key x) then LoadIno x t idx reuse
      else LoadOccupied x t ((idx + 1) mod sm_slot_count h) reuse, m)"
| "pc_step c h (LoadIno x t idx reuse) m =
     (if sl_ino (shm_slot m idx) = snd (op_key x) then Storing (op_stores c x (Found idx))
      else LoadOccupied x t ((idx + 1) mod sm_slot_count h) reuse, m)"
| "pc_step c h (Storing []) m = (Storing [], m)"
| "pc_step c h (Storing (w # ws)) m = (Storing ws, do_store w m)"

section \<open>All processes\<close>

type_synonym sched_state = "(nat \<Rightarrow> shm_pc) \<times> shm_mem"

definition sched_step :: "xattrs serde \<Rightarrow> shm_map \<Rightarrow> nat \<Rightarrow> sched_state \<Rightarrow> sched_state" where
  "sched_step c h p s =
     (case pc_step c h (fst s p) (snd s) of (pc, m) \<Rightarrow> ((fst s)(p := pc), m))"

definition run_schedule :: "xattrs serde \<Rightarrow> shm_map \<Rightarrow> nat list \<Rightarrow> sched_state \<Rightarrow> sched_state" where
  "run_schedule c h ps s = fold (sched_step c h) ps s"

lemma run_schedule_simps [simp]:
  "run_schedule c h [] s = s"
  "run_schedule c h (p # ps) s = run_schedule c h ps (sched_step c h p s)"
  "run_schedule c h (ps @ qs) s = run_schedule c h qs (run_schedule c h ps s)"
  by (simp_all add: run_schedule_def)

section \<open>Every operation ends\<close>

text \<open>A bound on the steps a process still takes, whatever the others do.\<close>

fun pc_cost :: "shm_pc \<Rightarrow> nat" where
  "pc_cost (LoadOccupied x t idx reuse) = 3 * t + 10"
| "pc_cost (LoadDev x t idx reuse) = 3 * t + 12"
| "pc_cost (LoadIno x t idx reuse) = 3 * t + 11"
| "pc_cost (Storing ws) = length ws"

lemma length_xattr_stores: "2 \<le> n \<Longrightarrow> length (xattr_stores c i x) \<le> n"
  by (simp add: xattr_stores_def split: option.split)

lemma length_op_stores: "9 \<le> n \<Longrightarrow> length (op_stores c x r) \<le> n"
  by (rule order_trans [of _ 9], cases x; cases r) (simp_all add: length_xattr_stores)

lemma pc_step_cost: "pc_step c h pc m = (pc', m') \<Longrightarrow> pc_cost pc' \<le> pc_cost pc - 1"
  by (cases "(c, h, pc, m)" rule: pc_step.cases) (auto simp: Let_def length_op_stores split: if_splits)

lemma run_schedule_cost:
  "pc_cost (fst (run_schedule c h ps s) p) \<le> pc_cost (fst s p) - count_list ps p"
proof (induction ps arbitrary: s)
  case (Cons q ps)
  have "pc_cost (fst (sched_step c h q s) p) \<le> (if q = p then pc_cost (fst s p) - 1 else pc_cost (fst s p))"
    using pc_step_cost [of c h "fst s p" "snd s"] by (auto simp: sched_step_def split: prod.split)
  with Cons [of "sched_step c h q s"] show ?case by (auto split: if_splits)
qed simp

lemma pc_cost_start: "pc_cost (op_start h x) = 3 * nslots h + 10"
  by (simp add: op_start_def)

lemma op_ends:
  assumes "fst s p = op_start h x" and "3 * nslots h + 10 \<le> count_list ps p"
  shows "fst (run_schedule c h ps s) p = Storing []"
  using run_schedule_cost [of c h ps s p] assms
  by (cases "fst (run_schedule c h ps s) p") (auto simp: pc_cost_start)

lemma done_stays: "fst s p = Storing [] \<Longrightarrow> fst (run_schedule c h ps s) p = Storing []"
  using run_schedule_cost [of c h ps s p] by (cases "fst (run_schedule c h ps s) p") auto

section \<open>No schedule breaks the layout\<close>

text \<open>The parts of the table have their sizes and every slot has a state that the probe knows.\<close>

definition table_shape :: "shm_map \<Rightarrow> shm_mem \<Rightarrow> bool" where
  "table_shape h m \<longleftrightarrow> length (sh_slots m) = nslots h \<and> length (sh_pages m) = nslots h \<and>
     (\<forall>p<nslots h. length (sh_pages m ! p) = XATTR_PAGE_SIZE) \<and>
     (\<forall>p<nslots h. sl_occupied (sh_slots m ! p) \<in> {SLOT_EMPTY, SLOT_LIVE, SLOT_TOMBSTONE})"

fun store_fits :: "shm_store \<Rightarrow> bool" where
  "store_fits (SetOccupied i v) = (v \<in> {SLOT_EMPTY, SLOT_LIVE, SLOT_TOMBSTONE})"
| "store_fits (SetPage i off bs) = (off + length bs \<le> XATTR_PAGE_SIZE)"
| "store_fits w = True"

fun pc_fits :: "shm_pc \<Rightarrow> bool" where
  "pc_fits (Storing ws) = (\<forall>w\<in>set ws. store_fits w)"
| "pc_fits pc = True"

lemma op_stores_fit: "w \<in> set (op_stores c x r) \<Longrightarrow> store_fits w"
proof -
  have "store_fits w" if "w \<in> set (xattr_stores c i a)" for i a
    using that by (auto simp: xattr_stores_def XATTR_PAGE_SIZE_def split: if_splits option.splits)
  then show "w \<in> set (op_stores c x r) \<Longrightarrow> store_fits w"
    by (cases x; cases r) (auto split: if_splits)
qed

lemma table_shape_slot:
  "(\<And>s. sl_occupied (f s) \<in> {sl_occupied s, SLOT_EMPTY, SLOT_LIVE, SLOT_TOMBSTONE}) \<Longrightarrow>
     table_shape h m \<Longrightarrow> table_shape h (modify_slot i f m)"
  unfolding table_shape_def modify_slot_def
  by (cases "unat i < nslots h") (force simp: nth_list_update list_update_beyond)+

lemma table_shape_page:
  "length page = XATTR_PAGE_SIZE \<Longrightarrow> table_shape h m \<Longrightarrow> table_shape h (set_page i page m)"
  unfolding table_shape_def set_page_def
  by (cases "unat i < nslots h") (auto simp: nth_list_update list_update_beyond)

lemma table_shape_store:
  assumes fits: "store_fits w" and shape: "table_shape h m"
  shows "table_shape h (do_store w m)"
proof (cases w)
  case (SetPage i off bs)
  show ?thesis
  proof (cases "unat i < nslots h")
    case True
    then have "length (xattr_page m i) = XATTR_PAGE_SIZE"
      using shape by (simp add: table_shape_def xattr_page_def)
    then have "length (copy_at off bs (xattr_page m i)) = XATTR_PAGE_SIZE"
      using SetPage fits by (simp add: copy_at_def)
    then show ?thesis using SetPage by (simp add: table_shape_page shape)
  next
    case False
    with SetPage shape show ?thesis by (simp add: set_page_def table_shape_def list_update_beyond)
  qed
qed (use fits in \<open>auto intro!: table_shape_slot [OF _ shape]\<close>)

lemma do_store_header: "sh_header (do_store w m) = sh_header m"
  by (cases w) (simp_all add: modify_slot_def set_page_def)

lemma pc_step_shape:
  "pc_step c h pc m = (pc', m') \<Longrightarrow> pc_fits pc \<Longrightarrow> table_shape h m \<Longrightarrow>
     pc_fits pc' \<and> table_shape h m' \<and> sh_header m' = sh_header m"
  by (cases "(c, h, pc, m)" rule: pc_step.cases)
     (auto simp: Let_def table_shape_store do_store_header op_stores_fit split: if_splits)

lemma schedule_shape:
  "\<forall>p. pc_fits (fst s p) \<Longrightarrow> table_shape h (snd s) \<Longrightarrow>
     table_shape h (snd (run_schedule c h ps s)) \<and>
     sh_header (snd (run_schedule c h ps s)) = sh_header (snd s)"
proof (induction ps arbitrary: s)
  case (Cons p ps)
  obtain pc m where step: "pc_step c h (fst s p) (snd s) = (pc, m)" by fastforce
  show ?case
    using Cons.IH [of "sched_step c h p s"] pc_step_shape [OF step] Cons.prems
    by (simp add: sched_step_def step)
qed simp

section \<open>A process alone\<close>

text \<open>What a process would end with if the memory stayed as it is now.\<close>

fun pc_outcome :: "shm_map \<Rightarrow> shm_mem \<Rightarrow> shm_pc \<Rightarrow> probe option" where
  "pc_outcome h m (LoadOccupied x t idx reuse) =
     Some (probe_loop t h m (fst (op_key x)) (snd (op_key x)) idx reuse)"
| "pc_outcome h m (LoadDev x t idx reuse) =
     (if sl_occupied (shm_slot m idx) = SLOT_LIVE
      then Some (probe_loop (Suc t) h m (fst (op_key x)) (snd (op_key x)) idx reuse) else None)"
| "pc_outcome h m (LoadIno x t idx reuse) =
     (if sl_occupied (shm_slot m idx) = SLOT_LIVE \<and> sl_dev (shm_slot m idx) = fst (op_key x)
      then Some (probe_loop (Suc t) h m (fst (op_key x)) (snd (op_key x)) idx reuse) else None)"
| "pc_outcome h m (Storing ws) = None"

fun pending :: "xattrs serde \<Rightarrow> shm_map \<Rightarrow> shm_mem \<Rightarrow> shm_pc \<Rightarrow> shm_store list option" where
  "pending c h m (Storing ws) = Some ws"
| "pending c h m (LoadOccupied x t idx reuse) = map_option (op_stores c x) (pc_outcome h m (LoadOccupied x t idx reuse))"
| "pending c h m (LoadDev x t idx reuse) = map_option (op_stores c x) (pc_outcome h m (LoadDev x t idx reuse))"
| "pending c h m (LoadIno x t idx reuse) = map_option (op_stores c x) (pc_outcome h m (LoadIno x t idx reuse))"

lemma pending_step:
  "pending c h m pc = Some ws \<Longrightarrow> pc \<noteq> Storing ws \<Longrightarrow> pc_step c h pc m = (pc', m') \<Longrightarrow>
     m' = m \<and> pending c h m pc' = Some ws"
  by (cases "(c, h, pc, m)" rule: pc_step.cases)
     (auto simp: probe_loop.simps(2) Let_def slot_codes split: if_splits)

lemma fold_xattr_stores [simp]: "fold do_store (xattr_stores c i x) m = write_xattrs c i x m"
  by (cases "unat i < length (sh_pages m)")
     (auto simp: xattr_stores_def write_xattrs_def encode_page_def set_page_def xattr_page_def
        list_update_beyond split: option.split)

lemma modify_slot_twice [simp]:
  "modify_slot i f (modify_slot i g m) = modify_slot i (f \<circ> g) m"
  by (cases "unat i < length (sh_slots m)") (simp_all add: modify_slot_def list_update_beyond)

lemma modify_slot_same [simp]: "modify_slot i (\<lambda>s. s) m = m"
  by (simp add: modify_slot_def)

lemma op_stores_effect:
  "fold do_store (op_stores c x (shm_probe h m (fst (op_key x)) (snd (op_key x)))) m = shm_step c h x m"
  by (cases x; cases "shm_probe h m (fst (op_key x)) (snd (op_key x))")
     (auto simp: shm_upsert_inode_def shm_upsert_chown_def shm_remove_inode_def case_prod_beta Let_def
        comp_def)

text \<open>The two phases of a process that runs alone.\<close>

lemma world_idem: "fst s p = pc \<Longrightarrow> ((fst s)(p := pc), snd s) = s"
  by (intro prod_eqI) (simp_all add: fun_upd_idem)

lemma alone_stores:
  "fst s p = Storing ws \<Longrightarrow> length ws \<le> n \<Longrightarrow>
     run_schedule c h (replicate n p) s = ((fst s)(p := Storing []), fold do_store ws (snd s))"
proof (induction n arbitrary: s ws)
  case 0
  then have "ws = []" by simp
  with 0 show ?case
    by (simp only: replicate.simps run_schedule_simps fold.simps id_apply world_idem)
next
  case (Suc n)
  show ?case
  proof (cases ws)
    case Nil
    with Suc.prems have "sched_step c h p s = s" by (cases s) (simp add: sched_step_def fun_upd_idem)
    with Nil Suc.prems(1) Suc.IH [of s "[]"] show ?thesis by simp
  next
    case (Cons w ws')
    with Suc.prems Suc.IH [of "sched_step c h p s" ws'] show ?thesis
      by (simp add: sched_step_def prod_eq_iff fun_eq_iff)
  qed
qed

lemma run_stores:
  "fst s p = Storing (ws @ vs) \<Longrightarrow>
     run_schedule c h (replicate (length ws) p) s = ((fst s)(p := Storing vs), fold do_store ws (snd s))"
proof (induction ws arbitrary: s)
  case Nil
  then show ?case by (simp only: list.size replicate.simps run_schedule_simps fold.simps id_apply
      append_Nil world_idem)
next
  case (Cons w ws)
  then have "fst (sched_step c h p s) p = Storing (ws @ vs)" by (simp add: sched_step_def)
  from Cons.IH [OF this] Cons.prems show ?case by (simp add: sched_step_def fun_upd_def fun_eq_iff)
qed

lemma alone_pending:
  "pending c h (snd s) (fst s p) = Some ws \<Longrightarrow> pc_cost (fst s p) \<le> n \<Longrightarrow> length ws \<le> n \<Longrightarrow>
     run_schedule c h (replicate n p) s = ((fst s)(p := Storing []), fold do_store ws (snd s))"
proof (induction n arbitrary: s)
  case 0
  then have "fst s p = Storing []" "ws = []" by (cases "fst s p"; simp)+
  then show ?case by (simp only: replicate.simps run_schedule_simps fold.simps id_apply world_idem)
next
  case (Suc n)
  show ?case
  proof (cases "fst s p = Storing ws")
    case True
    then show ?thesis by (rule alone_stores [OF _ Suc.prems(3)])
  next
    case False
    obtain pc m where step: "pc_step c h (fst s p) (snd s) = (pc, m)" by fastforce
    have m: "m = snd s" "pending c h (snd s) pc = Some ws"
      using pending_step [OF Suc.prems(1) False step] by auto
    have "pc_cost pc \<le> n" using pc_step_cost [OF step] Suc.prems(2) by simp
    moreover have "length ws \<le> pc_cost pc" using m(2) length_op_stores by (cases pc) (auto split: if_splits)
    ultimately show ?thesis
      using Suc.IH [of "((fst s)(p := pc), snd s)"] m
      by (simp add: sched_step_def step fun_upd_def fun_eq_iff)
  qed
qed

text \<open>A process that runs without interruption performs its operation.\<close>

lemma alone:
  assumes "fst s p = op_start h x" and "3 * nslots h + 10 \<le> n"
  shows "run_schedule c h (replicate n p) s = ((fst s)(p := Storing []), shm_step c h x (snd s))"
proof -
  let ?ws = "op_stores c x (shm_probe h (snd s) (fst (op_key x)) (snd (op_key x)))"
  have "pending c h (snd s) (fst s p) = Some ?ws"
    by (simp add: assms(1) op_start_def shm_probe_def)
  from alone_pending [OF this] show ?thesis
    using assms length_op_stores [of n] by (simp add: pc_cost_start op_stores_effect)
qed

end
