(* ===== verification/Shm_Linear.thy ===== *)
theory Shm_Linear
  imports Shm_Threads
begin

text \<open>
  Processes that change different existing entries of the shared table do not disturb each
  other: whatever the interleaving of their accesses, the memory they leave is that of the
  whole operations one after the other.  Stores into different slots commute, and what the
  other processes store never moves the slot a probe is looking for.
\<close>

section \<open>Stores of different slots\<close>

lemma modify_slot_commute:
  "i \<noteq> j \<Longrightarrow> modify_slot i f (modify_slot j g m) = modify_slot j g (modify_slot i f m)"
  by (simp add: modify_slot_def list_update_swap word_unat_eq_iff)

lemma page_after_slot:
  "set_page i bs (modify_slot j g m) = modify_slot j g (set_page i bs m)"
  "xattr_page (modify_slot j g m) i = xattr_page m i"
  by (simp_all add: modify_slot_def set_page_def xattr_page_def)

lemma page_commute:
  assumes "i \<noteq> j"
  shows "do_store (SetPage i off bs) (do_store (SetPage j off' bs') m) =
    do_store (SetPage j off' bs') (do_store (SetPage i off bs) m)"
  using assms by (simp add: set_page_def xattr_page_def list_update_swap word_unat_eq_iff)

lemma do_store_commute:
  assumes "store_slot v \<noteq> store_slot w"
  shows "do_store v (do_store w m) = do_store w (do_store v m)"
proof (cases "\<exists>i off bs j off' bs'. v = SetPage i off bs \<and> w = SetPage j off' bs'")
  case True
  with assms page_commute show ?thesis by auto
next
  case False
  with assms show ?thesis by (cases v; cases w) (simp_all add: modify_slot_commute page_after_slot)
qed

lemma fold_pull:
  "(\<And>v. v \<in> set ys \<Longrightarrow> store_slot v \<noteq> store_slot w) \<Longrightarrow>
     fold do_store (ys @ w # zs) m = fold do_store (ys @ zs) (do_store w m)"
proof (induction ys arbitrary: m)
  case (Cons v ys)
  then show ?case using do_store_commute [of v w m] by simp
qed simp

lemma do_store_other: "q \<noteq> unat (store_slot w) \<Longrightarrow> sh_slots (do_store w m) ! q = sh_slots m ! q"
  by (cases w) (simp_all add: modify_slot_def set_page_def)

lemma fold_store_other:
  "(\<And>w. w \<in> set ws \<Longrightarrow> q \<noteq> unat (store_slot w)) \<Longrightarrow>
     sh_slots (fold do_store ws m) ! q = sh_slots m ! q"
  by (induction ws arbitrary: m) (simp_all add: do_store_other)

section \<open>Stores into an existing entry\<close>

fun entry_store :: "u32 \<Rightarrow> shm_store \<Rightarrow> bool" where
  "entry_store i (SetDev j v) = False"
| "entry_store i (SetIno j v) = False"
| "entry_store i (SetOccupied j v) = (j = i \<and> v = SLOT_TOMBSTONE)"
| "entry_store i w = (store_slot w = i)"

lemma entry_store_slot: "entry_store i w \<Longrightarrow> store_slot w = i"
  by (cases w) simp_all

lemma xattr_stores_entry: "w \<in> set (xattr_stores c i x) \<Longrightarrow> entry_store i w"
  by (auto simp: xattr_stores_def split: if_splits option.splits)

lemma op_stores_entry: "w \<in> set (op_stores c x (Found i)) \<Longrightarrow> entry_store i w"
  by (cases x) (auto dest: xattr_stores_entry split: if_splits)

text \<open>What every process sees of the table stays: keys, empty slots, and no new live ones.\<close>

definition same_shape :: "shm_map \<Rightarrow> shm_mem \<Rightarrow> shm_mem \<Rightarrow> bool" where
  "same_shape h m0 m \<longleftrightarrow> length (sh_slots m) = length (sh_slots m0) \<and>
     (\<forall>q<nslots h. key_at m q = key_at m0 q \<and> (is_empty_at m q \<longleftrightarrow> is_empty_at m0 q) \<and>
        (is_live_at m q \<longrightarrow> is_live_at m0 q))"

lemma same_shape_refl [simp]: "same_shape h m m"
  by (simp add: same_shape_def)

lemma same_shapeD:
  assumes "same_shape h m0 m" and "q < nslots h"
  shows "sl_dev (sh_slots m ! q) = sl_dev (sh_slots m0 ! q)"
    and "sl_ino (sh_slots m ! q) = sl_ino (sh_slots m0 ! q)"
    and "is_empty_at m q \<longleftrightarrow> is_empty_at m0 q" and "is_live_at m q \<Longrightarrow> is_live_at m0 q"
  using assms by (simp_all add: same_shape_def key_at_def)

lemma entry_store_shape:
  assumes shape: "same_shape h m0 m" and w: "entry_store i w" and i: "unat i < nslots h"
    and full: "\<not> is_empty_at m0 (unat i)" and len: "length (sh_slots m0) = nslots h"
  shows "same_shape h m0 (do_store w m)"
proof -
  have here: "sl_dev (sh_slots (do_store w m) ! unat i) = sl_dev (sh_slots m ! unat i)"
    "sl_ino (sh_slots (do_store w m) ! unat i) = sl_ino (sh_slots m ! unat i)"
    "sl_occupied (sh_slots (do_store w m) ! unat i) \<in> {sl_occupied (sh_slots m ! unat i), SLOT_TOMBSTONE}"
    using w i shape len
    by (cases w; simp add: modify_slot_def set_page_def same_shape_def)+
  have "sh_slots (do_store w m) ! q = sh_slots m ! q" if "q \<noteq> unat i" for q
    using that entry_store_slot [OF w] by (simp add: do_store_other)
  then have "key_at (do_store w m) q = key_at m0 q \<and>
      (is_empty_at (do_store w m) q \<longleftrightarrow> is_empty_at m0 q) \<and>
      (is_live_at (do_store w m) q \<longrightarrow> is_live_at m0 q)" if "q < nslots h" for q
    using here same_shapeD [OF shape that] full
    by (cases "q = unat i") (auto simp: slot_state_defs slot_codes)
  moreover have "length (sh_slots (do_store w m)) = length (sh_slots m)"
    by (cases w) (simp_all add: modify_slot_def set_page_def)
  ultimately show ?thesis using shape by (simp add: same_shape_def)
qed

section \<open>Where a process is\<close>

text \<open>
  A process whose key is at slot \<open>i\<close> of the table it started on has that slot still ahead of it,
  with no empty slot before it, or makes stores into it.
\<close>

definition ahead :: "shm_map \<Rightarrow> shm_mem \<Rightarrow> u32 \<Rightarrow> nat \<Rightarrow> u32 \<Rightarrow> bool" where
  "ahead h m idx t i \<longleftrightarrow>
     (\<exists>j<t. path_pos h (unat idx) j = unat i \<and> (\<forall>l<j. \<not> is_empty_at m (path_pos h (unat idx) l)))"

lemma ahead_0 [simp]: "\<not> ahead h m idx 0 i"
  by (simp add: ahead_def)

lemma ahead_Suc:
  assumes "unat idx < nslots h"
  shows "ahead h m idx (Suc t) i \<longleftrightarrow>
    idx = i \<or> \<not> is_empty_at m (unat idx) \<and> ahead h m ((idx + 1) mod sm_slot_count h) t i"
  using assms
  by (auto simp: ahead_def Ex_less_Suc2 All_less_Suc2 next_index path_pos_Suc word_unat_eq_iff)

lemma ahead_start:
  assumes wf: "table_wf h m" and here: "holds_at m (unat i) (dev, ino)" and i: "unat i < nslots h"
  shows "ahead h m (shm_hash h dev ino) (nslots h) i"
  using table_wfD(6) [OF wf i] here by (auto simp: ahead_def reachable_at_def holds_at_def home_def)

fun on_track :: "shm_map \<Rightarrow> shm_mem \<Rightarrow> store_op \<Rightarrow> u32 \<Rightarrow> shm_pc \<Rightarrow> bool" where
  "on_track h m x i (LoadOccupied y t idx reuse) = (y = x \<and> unat idx < nslots h \<and> ahead h m idx t i)"
| "on_track h m x i (LoadDev y t idx reuse) =
     (y = x \<and> unat idx < nslots h \<and> ahead h m idx (Suc t) i \<and> is_live_at m (unat idx))"
| "on_track h m x i (LoadIno y t idx reuse) =
     (y = x \<and> unat idx < nslots h \<and> ahead h m idx (Suc t) i \<and> is_live_at m (unat idx) \<and>
      sl_dev (shm_slot m idx) = fst (op_key x))"
| "on_track h m x i (Storing ws) = (\<forall>w\<in>set ws. entry_store i w)"

fun remaining :: "xattrs serde \<Rightarrow> store_op \<Rightarrow> u32 \<Rightarrow> shm_pc \<Rightarrow> shm_store list" where
  "remaining c x i (Storing ws) = ws"
| "remaining c x i (LoadOccupied y t idx reuse) = op_stores c x (Found i)"
| "remaining c x i (LoadDev y t idx reuse) = op_stores c x (Found i)"
| "remaining c x i (LoadIno y t idx reuse) = op_stores c x (Found i)"

fun loading :: "shm_pc \<Rightarrow> bool" where
  "loading (Storing ws) = False"
| "loading pc = True"

lemma remaining_entry: "on_track h m x i pc \<Longrightarrow> w \<in> set (remaining c x i pc) \<Longrightarrow> entry_store i w"
  by (cases pc) (auto dest: op_stores_entry)

lemma probing_step:
  assumes wf: "table_wf h m0" and shape: "same_shape h m0 m"
    and i: "unat i < nslots h" and here: "holds_at m0 (unat i) (op_key x)"
    and live: "is_live_at m (unat i)" and track: "on_track h m0 x i pc" and loading: "loading pc"
    and step: "pc_step c h pc m = (pc', m')"
  shows "m' = m \<and> on_track h m0 x i pc' \<and> remaining c x i pc' = remaining c x i pc"
proof -
  have key: "sl_dev (shm_slot m i) = fst (op_key x)" "sl_ino (shm_slot m i) = snd (op_key x)"
    using here same_shapeD(1,2) [OF shape i]
    by (simp_all add: holds_at_def key_at_def shm_slot_def prod_eq_iff)
  have occ: "sl_occupied (shm_slot m i) = SLOT_LIVE"
    using live by (simp add: is_live_at_def shm_slot_def)
  show ?thesis
  proof (cases pc)
    case (LoadOccupied y t idx reuse)
    then obtain t' where t: "t = Suc t'" using track by (cases t) simp_all
    note track' = track [unfolded LoadOccupied t on_track.simps]
    note shape' = same_shapeD(3,4) [OF shape, of "unat idx"]
    show ?thesis
      using step track' shape' occ ahead_Suc [of idx h m0 t' i] next_index_less [of idx h]
      by (auto simp: LoadOccupied t Let_def slot_state_defs shm_slot_def slot_codes split: if_splits)
  next
    case (LoadDev y t idx reuse)
    note track' = track [unfolded LoadDev on_track.simps]
    show ?thesis
      using step track' key ahead_Suc [of idx h m0 t i] next_index_less [of idx h]
        same_shapeD(1) [OF shape, of "unat idx"]
      by (auto simp: LoadDev shm_slot_def split: if_splits)
  next
    case (LoadIno y t idx reuse)
    note track' = track [unfolded LoadIno on_track.simps]
    have "idx = i" if "sl_ino (shm_slot m idx) = snd (op_key x)"
    proof -
      have "holds_at m0 (unat idx) (op_key x)"
        using that track' same_shapeD(2) [OF shape, of "unat idx"]
        by (simp add: holds_at_def key_at_def shm_slot_def prod_eq_iff)
      then show ?thesis
        using holds_unique [OF wf _ i _ here] track' by (simp add: word_unat_eq_iff)
    qed
    then show ?thesis
      using step track' key ahead_Suc [of idx h m0 t i] next_index_less [of idx h]
      by (auto simp: LoadIno op_stores_entry split: if_splits)
  next
    case (Storing ws)
    with loading show ?thesis by simp
  qed
qed

section \<open>All processes\<close>

text \<open>
  Process \<open>p\<close> performs the operation \<open>xs ! p\<close>, whose key is at slot \<open>slot p\<close> of the table \<open>m0\<close>.
  The invariant of a schedule: every process is where it should be, and making the stores
  that remain, one process after the other, gives the memory \<open>M\<close>.
\<close>

definition sched_inv ::
    "xattrs serde \<Rightarrow> shm_map \<Rightarrow> shm_mem \<Rightarrow> store_op list \<Rightarrow> (nat \<Rightarrow> u32) \<Rightarrow> shm_mem \<Rightarrow> sched_state \<Rightarrow> bool"
where
  "sched_inv c h m0 xs slot M s \<longleftrightarrow>
     same_shape h m0 (snd s) \<and>
     (\<forall>p<length xs. on_track h m0 (xs ! p) (slot p) (fst s p)) \<and>
     (\<forall>p<length xs. loading (fst s p) \<longrightarrow> is_live_at (snd s) (unat (slot p))) \<and>
     (\<forall>p\<ge>length xs. fst s p = Storing []) \<and>
     fold do_store (concat (map (\<lambda>p. remaining c (xs ! p) (slot p) (fst s p)) [0..<length xs])) (snd s) = M"

definition at_slots :: "shm_map \<Rightarrow> shm_mem \<Rightarrow> store_op list \<Rightarrow> (nat \<Rightarrow> u32) \<Rightarrow> bool" where
  "at_slots h m xs slot \<longleftrightarrow> inj_on slot {..<length xs} \<and>
     (\<forall>p<length xs. unat (slot p) < nslots h \<and> holds_at m (unat (slot p)) (op_key (xs ! p)))"

lemma upt_split: "p < n \<Longrightarrow> [0..<n] = [0..<p] @ p # [Suc p..<n]"
  by (metis less_imp_le_nat upt_add_eq_append upt_conv_Cons le_add_diff_inverse zero_le)

lemma sched_inv_stay:
  assumes inv: "sched_inv c h m0 xs slot M s" and p: "p < length xs"
    and track: "on_track h m0 (xs ! p) (slot p) pc"
    and rem: "remaining c (xs ! p) (slot p) pc = remaining c (xs ! p) (slot p) (fst s p)"
    and load: "loading (fst s p)"
  shows "sched_inv c h m0 xs slot M ((fst s)(p := pc), snd s)"
proof -
  have "(\<lambda>q. remaining c (xs ! q) (slot q) (((fst s)(p := pc)) q)) =
      (\<lambda>q. remaining c (xs ! q) (slot q) (fst s q))"
    using rem by auto
  then show ?thesis using inv p track load by (simp add: sched_inv_def)
qed

lemma sched_inv_store:
  assumes inv: "sched_inv c h m0 xs slot M s" and at: "at_slots h m0 xs slot"
    and wf: "table_wf h m0" and p: "p < length xs" and pc: "fst s p = Storing (w # ws)"
  shows "sched_inv c h m0 xs slot M ((fst s)(p := Storing ws), do_store w (snd s))"
proof -
  have track: "\<forall>q<length xs. on_track h m0 (xs ! q) (slot q) (fst s q)"
    and shape: "same_shape h m0 (snd s)"
    using inv by (simp_all add: sched_inv_def)
  have w: "entry_store (slot p) w" "\<forall>v\<in>set ws. entry_store (slot p) v"
    using track p pc by (metis on_track.simps(4) list.set_intros)+
  have other: "slot q \<noteq> slot p" if "q < length xs" "q \<noteq> p" for q
    using at that p by (auto simp: at_slots_def dest: inj_onD)
  have at_p: "unat (slot p) < nslots h" "holds_at m0 (unat (slot p)) (op_key (xs ! p))"
    using at p by (simp_all add: at_slots_def)
  have "same_shape h m0 (do_store w (snd s))"
    using at_p(2) slot_states_disjoint
    by (intro entry_store_shape [OF shape w(1) at_p(1) _ table_wfD(2) [OF wf]]) (auto simp: holds_at_def)
  moreover have "is_live_at (do_store w (snd s)) (unat (slot q))"
    if "q < length xs" "q \<noteq> p" "is_live_at (snd s) (unat (slot q))" for q
    using that other [OF that(1,2)] entry_store_slot [OF w(1)]
    by (simp add: is_live_at_def do_store_other word_unat_eq_iff)
  moreover have "fold do_store (concat (map (\<lambda>q. remaining c (xs ! q) (slot q) (((fst s)(p := Storing ws)) q))
      [0..<length xs])) (do_store w (snd s)) = M"
  proof -
    let ?r = "\<lambda>q. remaining c (xs ! q) (slot q) (fst s q)"
    let ?ys = "concat (map ?r [0..<p])" and ?zs = "concat (map ?r [Suc p..<length xs])"
    have "store_slot v \<noteq> store_slot w" if v: "v \<in> set ?ys" for v
    proof -
      obtain q where q: "q < p" "v \<in> set (?r q)" using v by auto
      then have "entry_store (slot q) v" using track p by (intro remaining_entry [of h m0]) auto
      with other [of q] q p w(1) show ?thesis by (auto dest!: entry_store_slot)
    qed
    then have "fold do_store (?ys @ w # (ws @ ?zs)) (snd s) =
        fold do_store (?ys @ (ws @ ?zs)) (do_store w (snd s))"
      by (rule fold_pull)
    moreover have "fold do_store (?ys @ w # (ws @ ?zs)) (snd s) = M"
      using inv p pc by (simp add: sched_inv_def upt_split [OF p])
    moreover have "map (\<lambda>q. remaining c (xs ! q) (slot q) (((fst s)(p := Storing ws)) q)) [0..<length xs] =
        map ?r [0..<p] @ ws # map ?r [Suc p..<length xs]"
      by (simp add: upt_split [OF p])
    ultimately show ?thesis by simp
  qed
  ultimately show ?thesis
    using inv p w(2) by (simp add: sched_inv_def)
qed

lemma sched_inv_step:
  assumes inv: "sched_inv c h m0 xs slot M s" and at: "at_slots h m0 xs slot" and wf: "table_wf h m0"
  shows "sched_inv c h m0 xs slot M (sched_step c h p s)"
proof (cases "p < length xs")
  case False
  then have "fst s p = Storing []" using inv by (simp add: sched_inv_def)
  then show ?thesis using inv world_idem [of s p] by (simp only: sched_step_def) simp
next
  case p: True
  obtain pc m where step: "pc_step c h (fst s p) (snd s) = (pc, m)" by fastforce
  have at_p: "unat (slot p) < nslots h" "holds_at m0 (unat (slot p)) (op_key (xs ! p))"
    using at p by (simp_all add: at_slots_def)
  have track: "on_track h m0 (xs ! p) (slot p) (fst s p)" and shape: "same_shape h m0 (snd s)"
    using inv p by (simp_all add: sched_inv_def)
  show ?thesis
  proof (cases "fst s p" rule: loading.cases)
    case (1 ws)
    show ?thesis
    proof (cases ws)
      case Nil
      with 1 show ?thesis using inv world_idem [of s p "Storing []"] by (simp only: sched_step_def) simp
    next
      case (Cons w ws')
      then show ?thesis
        using sched_inv_store [OF inv at wf p, of w ws'] 1 by (simp add: sched_step_def)
    qed
  qed (use sched_inv_stay [OF inv p] probing_step [OF wf shape at_p _ track _ step] inv p step in
      \<open>auto simp: sched_inv_def [of c h m0 xs slot M s] sched_step_def simp del: fun_upd_apply\<close>)+
qed

lemma sched_inv_run:
  assumes "sched_inv c h m0 xs slot M s" and "at_slots h m0 xs slot" and "table_wf h m0"
  shows "sched_inv c h m0 xs slot M (run_schedule c h ps s)"
  using assms(1) by (induction ps arbitrary: s) (simp_all add: sched_inv_step assms(2,3))

text \<open>The processes at the start, each before the first access of its operation.\<close>

definition shm_processes :: "shm_map \<Rightarrow> store_op list \<Rightarrow> nat \<Rightarrow> shm_pc" where
  "shm_processes h xs p = (if p < length xs then op_start h (xs ! p) else Storing [])"

section \<open>One operation after the other\<close>

lemma found_step:
  assumes wf: "table_wf h m" and i: "unat i < nslots h" and here: "holds_at m (unat i) (op_key x)"
  shows "shm_step c h x m = fold do_store (op_stores c x (Found i)) m"
proof -
  have "shm_probe h m (fst (op_key x)) (snd (op_key x)) = Found i"
    using probe_present [OF wf i, of "fst (op_key x)" "snd (op_key x)"] here
    by (auto simp flip: word_unat_eq_iff)
  then show ?thesis using op_stores_effect [of c x h m] by simp
qed

lemma sequential_stores:
  "shm_inv c h m \<Longrightarrow> at_slots h m xs slot \<Longrightarrow>
     fold (shm_step c h) xs m =
     fold do_store (concat (map (\<lambda>p. op_stores c (xs ! p) (Found (slot p))) [0..<length xs])) m"
proof (induction xs arbitrary: m slot)
  case (Cons x xs)
  let ?ws = "op_stores c x (Found (slot 0))"
  have wf: "table_wf h m" using Cons.prems(1) by (simp add: shm_inv_def)
  have first: "unat (slot 0) < nslots h" "holds_at m (unat (slot 0)) (op_key x)"
    using Cons.prems(2) by (auto simp: at_slots_def)
  have step: "shm_step c h x m = fold do_store ?ws m" by (rule found_step [OF wf first])
  have "inj_on (\<lambda>p. slot (Suc p)) {..<length xs}"
    using Cons.prems(2) by (force simp: at_slots_def inj_on_def)
  moreover have "unat (slot (Suc p)) < nslots h \<and>
      holds_at (fold do_store ?ws m) (unat (slot (Suc p))) (op_key (xs ! p))"
    if "p < length xs" for p
  proof -
    have "slot (Suc p) \<noteq> slot 0"
      using Cons.prems(2) that by (auto simp: at_slots_def dest: inj_onD)
    then have "sh_slots (fold do_store ?ws m) ! unat (slot (Suc p)) = sh_slots m ! unat (slot (Suc p))"
      by (intro fold_store_other) (auto dest!: op_stores_entry entry_store_slot simp: word_unat_eq_iff)
    moreover have "unat (slot (Suc p)) < nslots h \<and> holds_at m (unat (slot (Suc p))) (op_key (xs ! p))"
      using Cons.prems(2) that by (auto simp: at_slots_def)
    ultimately show ?thesis by (simp add: slot_state_defs)
  qed
  ultimately have "at_slots h (fold do_store ?ws m) xs (\<lambda>p. slot (Suc p))"
    by (simp add: at_slots_def)
  moreover have "shm_inv c h (fold do_store ?ws m)"
    using fold_inv [OF Cons.prems(1), of "[x]"] step by simp
  ultimately show ?case
    using Cons.IH [of "fold do_store ?ws m" "\<lambda>p. slot (Suc p)"] step
    by (simp add: upt_conv_Cons flip: map_Suc_upt del: upt_Suc) (simp add: comp_def)
qed simp

section \<open>Any interleaving\<close>

lemma get_holds:
  assumes "table_wf h m" and "shm_get_inode c h m k \<noteq> None"
  shows "\<exists>i :: u32. unat i < nslots h \<and> holds_at m (unat i) k"
proof -
  obtain i where "shm_probe h m (fst k) (snd k) = Found i"
    using assms(2) by (auto simp: shm_get_inode_def case_prod_beta split: probe.splits)
  then have "unat i < nslots h \<and> holds_at m (unat i) k"
    using probe_Found [OF table_wfD(1) [OF assms(1)], of m "fst k" "snd k" i] by simp
  then show ?thesis ..
qed

lemma existing_at_slots:
  assumes wf: "table_wf h m" and distinct: "distinct (map op_key xs)"
    and present: "\<forall>x\<in>set xs. shm_get_inode c h m (op_key x) \<noteq> None"
  obtains slot where "at_slots h m xs slot"
proof -
  have "\<forall>p. \<exists>i :: u32. p < length xs \<longrightarrow> unat i < nslots h \<and> holds_at m (unat i) (op_key (xs ! p))"
    using get_holds [OF wf] present by (meson nth_mem)
  then obtain slot :: "nat \<Rightarrow> u32" where slot: "\<And>p. p < length xs \<Longrightarrow>
      unat (slot p) < nslots h \<and> holds_at m (unat (slot p)) (op_key (xs ! p))"
    by metis
  moreover have "inj_on slot {..<length xs}"
  proof (rule inj_onI)
    fix p q assume pq: "p \<in> {..<length xs}" "q \<in> {..<length xs}" "slot p = slot q"
    then have "op_key (xs ! p) = op_key (xs ! q)" using slot [of p] slot [of q] by (simp add: holds_at_def)
    with pq show "p = q" using nth_eq_iff_index_eq [OF distinct, of p q] by simp
  qed
  ultimately show ?thesis by (intro that [of slot]) (simp add: at_slots_def)
qed

lemma interleaved_updates:
  assumes inv: "shm_inv c h m" and "distinct (map op_key xs)"
    and "\<forall>x\<in>set xs. shm_get_inode c h m (op_key x) \<noteq> None"
    and enough: "\<forall>p<length xs. 3 * nslots h + 10 \<le> count_list ps p"
  shows "snd (run_schedule c h ps (shm_processes h xs, m)) = fold (shm_step c h) xs m"
proof -
  have wf: "table_wf h m" using inv by (simp add: shm_inv_def)
  obtain slot where at: "at_slots h m xs slot" using existing_at_slots [OF wf assms(2,3)] .
  let ?M = "fold (shm_step c h) xs m"
  let ?s = "run_schedule c h ps (shm_processes h xs, m)"
  have "on_track h m (xs ! p) (slot p) (op_start h (xs ! p))" if "p < length xs" for p
    using at that ahead_start [OF wf, of "slot p" "fst (op_key (xs ! p))" "snd (op_key (xs ! p))"]
      home_less [OF table_wfD(1) [OF wf], of "op_key (xs ! p)"]
    by (simp add: op_start_def at_slots_def home_def)
  moreover have "is_live_at m (unat (slot p))" if "p < length xs" for p
    using at that by (simp add: at_slots_def holds_at_def)
  moreover have "map (\<lambda>p. remaining c (xs ! p) (slot p) (shm_processes h xs p)) [0..<length xs] =
      map (\<lambda>p. op_stores c (xs ! p) (Found (slot p))) [0..<length xs]"
    by (simp add: shm_processes_def op_start_def)
  then have "fold do_store (concat (map (\<lambda>p. remaining c (xs ! p) (slot p) (shm_processes h xs p))
      [0..<length xs])) m = ?M"
    by (simp only: sequential_stores [OF inv at])
  ultimately have "sched_inv c h m xs slot ?M (shm_processes h xs, m)"
    unfolding sched_inv_def by (simp add: shm_processes_def)
  then have "sched_inv c h m xs slot ?M ?s" by (rule sched_inv_run [OF _ at wf])
  moreover have "fst ?s p = Storing []" if "p < length xs" for p
    using that enough by (intro op_ends [of _ _ h "xs ! p"]) (simp_all add: shm_processes_def)
  then have "concat (map (\<lambda>p. remaining c (xs ! p) (slot p) (fst ?s p)) [0..<length xs]) = []"
    by simp
  ultimately show ?thesis by (simp add: sched_inv_def)
qed

end
