(* ===== verification/Wincode_Example.thy ===== *)
theory Wincode_Example
  imports Wincode
begin

text \<open>
  A concrete serializer, so that theorems about code that serializes can be applied to
  something: a self-delimiting encoding built from small encoder/decoder pairs.  It is an
  instance of the hypotheses of \<open>Wincode\<close>, not the format of the external crate.
\<close>

type_synonym 'a decoder = "bytes \<Rightarrow> ('a \<times> bytes) option"

definition codec_pair :: "('a \<Rightarrow> bytes) \<Rightarrow> 'a decoder \<Rightarrow> bool" where
  "codec_pair e d \<longleftrightarrow> (\<forall>x r. d (e x @ r) = Some (x, r)) \<and> (\<forall>x. e x \<noteq> [])"

lemma codec_pairD:
  "codec_pair e d \<Longrightarrow> d (e x @ r) = Some (x, r)" "codec_pair e d \<Longrightarrow> e x \<noteq> []"
  by (simp_all add: codec_pair_def)

definition serde_of :: "('a \<Rightarrow> bytes) \<Rightarrow> 'a decoder \<Rightarrow> 'a serde" where
  "serde_of e d =
     \<lparr>serialize = (\<lambda>x. Some (e x)),
      deserialize = (\<lambda>b. case d b of Some (x, []) \<Rightarrow> Some x | _ \<Rightarrow> None)\<rparr>"

lemma serde_of_ok: "codec_pair e d \<Longrightarrow> serde_ok (serde_of e d)"
  using codec_pairD(1) [of e d _ "[]"] by (auto simp: serde_ok_def serde_of_def codec_pair_def)

lemma serde_of_total: "serde_total (serde_of e d)"
  by (simp add: serde_total_def serde_of_def)

section \<open>Encoders\<close>

fun enc_nat :: "nat \<Rightarrow> bytes" where
  "enc_nat 0 = [0]"
| "enc_nat (Suc n) = 1 # enc_nat n"

fun dec_nat :: "nat decoder" where
  "dec_nat [] = None"
| "dec_nat (b # bs) =
     (if b = 0 then Some (0, bs) else map_option (\<lambda>(n, r). (Suc n, r)) (dec_nat bs))"

definition enc_bits :: "'a::len word \<Rightarrow> bytes" where
  "enc_bits w = map (\<lambda>i. if bit w i then 1 else 0) [0..<LENGTH('a)]"

definition dec_bits :: "'a::len word decoder" where
  "dec_bits bs =
     (if length bs < LENGTH('a) then None
      else Some (horner_sum of_bool 2 (map (\<lambda>b. b = 1) (take LENGTH('a) bs)), drop LENGTH('a) bs))"

definition enc_blob :: "bytes \<Rightarrow> bytes" where
  "enc_blob bs = enc_nat (length bs) @ bs"

definition dec_blob :: "bytes decoder" where
  "dec_blob bs =
     (case dec_nat bs of
        Some (n, r) \<Rightarrow> if length r < n then None else Some (take n r, drop n r)
      | None \<Rightarrow> None)"

definition enc_pair :: "('a \<Rightarrow> bytes) \<Rightarrow> ('b \<Rightarrow> bytes) \<Rightarrow> 'a \<times> 'b \<Rightarrow> bytes" where
  "enc_pair e f p = e (fst p) @ f (snd p)"

definition dec_pair :: "'a decoder \<Rightarrow> 'b decoder \<Rightarrow> ('a \<times> 'b) decoder" where
  "dec_pair d g bs =
     (case d bs of
        Some (x, r) \<Rightarrow> (case g r of Some (y, s) \<Rightarrow> Some ((x, y), s) | None \<Rightarrow> None)
      | None \<Rightarrow> None)"

definition enc_list :: "('a \<Rightarrow> bytes) \<Rightarrow> 'a list \<Rightarrow> bytes" where
  "enc_list e xs = enc_nat (length xs) @ concat (map e xs)"

fun dec_many :: "'a decoder \<Rightarrow> nat \<Rightarrow> 'a list decoder" where
  "dec_many d 0 bs = Some ([], bs)"
| "dec_many d (Suc n) bs =
     (case d bs of
        Some (x, r) \<Rightarrow> (case dec_many d n r of Some (xs, s) \<Rightarrow> Some (x # xs, s) | None \<Rightarrow> None)
      | None \<Rightarrow> None)"

definition dec_list :: "'a decoder \<Rightarrow> 'a list decoder" where
  "dec_list d bs = (case dec_nat bs of Some (n, r) \<Rightarrow> dec_many d n r | None \<Rightarrow> None)"

text \<open>A type is encoded through an injection into an encoded one.\<close>

definition dec_map :: "('a \<Rightarrow> 'b) \<Rightarrow> 'a decoder \<Rightarrow> 'b decoder" where
  "dec_map f d bs = map_option (\<lambda>(x, r). (f x, r)) (d bs)"

section \<open>They are pairs\<close>

lemma pair_nat: "codec_pair enc_nat dec_nat"
proof -
  have "dec_nat (enc_nat n @ r) = Some (n, r)" for n r by (induction n) simp_all
  moreover have "enc_nat n \<noteq> []" for n by (cases n) simp_all
  ultimately show ?thesis by (simp add: codec_pair_def)
qed

lemma pair_bits: "codec_pair (enc_bits :: 'a::len word \<Rightarrow> bytes) dec_bits"
proof -
  have "map (\<lambda>b. b = 1) (enc_bits w) = map (bit w) [0..<LENGTH('a)]" for w :: "'a word"
    by (simp add: enc_bits_def)
  moreover have "length (enc_bits w) = LENGTH('a)" for w :: "'a word"
    by (simp add: enc_bits_def)
  ultimately have "dec_bits (enc_bits w @ r) = Some (w, r)" for w :: "'a word" and r
    by (simp add: dec_bits_def horner_sum_bit_eq_take_bit)
  moreover have "enc_bits w \<noteq> []" for w :: "'a word" by (simp add: enc_bits_def)
  ultimately show ?thesis by (simp add: codec_pair_def)
qed

lemma pair_blob: "codec_pair enc_blob dec_blob"
  using codec_pairD [OF pair_nat] by (simp add: codec_pair_def enc_blob_def dec_blob_def)

lemma pair_pair: "codec_pair e d \<Longrightarrow> codec_pair f g \<Longrightarrow> codec_pair (enc_pair e f) (dec_pair d g)"
  by (simp add: codec_pair_def enc_pair_def dec_pair_def)

lemma dec_many: "codec_pair e d \<Longrightarrow> dec_many d (length xs) (concat (map e xs) @ r) = Some (xs, r)"
  by (induction xs) (simp_all add: codec_pairD)

lemma pair_list: "codec_pair e d \<Longrightarrow> codec_pair (enc_list e) (dec_list d)"
  using codec_pairD [OF pair_nat]
  by (simp add: codec_pair_def [of "enc_list e"] enc_list_def dec_list_def dec_many)

lemma pair_map:
  "codec_pair e d \<Longrightarrow> (\<And>x. g (f x) = x) \<Longrightarrow> codec_pair (\<lambda>x. e (f x)) (dec_map g d)"
  by (simp add: codec_pair_def dec_map_def)

section \<open>Options, flags and attribute maps\<close>

definition enc_opt :: "('a \<Rightarrow> bytes) \<Rightarrow> 'a option \<Rightarrow> bytes" where
  "enc_opt e x = enc_list e (case x of Some v \<Rightarrow> [v] | None \<Rightarrow> [])"

definition dec_opt :: "'a decoder \<Rightarrow> 'a option decoder" where
  "dec_opt d = dec_map (\<lambda>xs. case xs of v # _ \<Rightarrow> Some v | [] \<Rightarrow> None) (dec_list d)"

lemma pair_opt: "codec_pair e d \<Longrightarrow> codec_pair (enc_opt e) (dec_opt d)"
  unfolding enc_opt_def dec_opt_def
  by (rule pair_map [OF pair_list]) (simp_all split: option.splits)

definition enc_bool :: "bool \<Rightarrow> bytes" where
  "enc_bool b = enc_nat (if b then 1 else 0)"

definition dec_bool :: "bool decoder" where
  "dec_bool = dec_map (\<lambda>n. n = 1) dec_nat"

lemma pair_bool: "codec_pair enc_bool dec_bool"
  unfolding enc_bool_def dec_bool_def by (rule pair_map [OF pair_nat]) simp

definition enc_xattrs :: "xattrs \<Rightarrow> bytes" where
  "enc_xattrs x = enc_list (enc_pair enc_blob enc_blob) (sorted_list_of_fmap x)"

definition dec_xattrs :: "xattrs decoder" where
  "dec_xattrs = dec_map fmap_of_list (dec_list (dec_pair dec_blob dec_blob))"

lemma fmap_of_sorted_list [simp]: "fmap_of_list (sorted_list_of_fmap m) = m"
  by (rule fmap_ext) (simp add: fmlookup_of_list)

lemma sorted_list_of_fmupd_fmempty: "sorted_list_of_fmap (fmupd k v fmempty) = [(k, v)]"
  by (simp add: sorted_list_of_fmap_def sorted_list_of_fset.rep_eq)

lemma length_enc_nat [simp]: "length (enc_nat n) = Suc n"
  by (induction n) simp_all

lemma pair_xattrs: "codec_pair enc_xattrs dec_xattrs"
  unfolding enc_xattrs_def dec_xattrs_def
  by (rule pair_map [OF pair_list [OF pair_pair [OF pair_blob pair_blob]]]) simp

definition xattrs_serde :: "xattrs serde" where
  "xattrs_serde = serde_of enc_xattrs dec_xattrs"

lemma xattrs_serde_ok: "serde_ok xattrs_serde"
  unfolding xattrs_serde_def by (rule serde_of_ok [OF pair_xattrs])

end
