(* ===== verification/Shm_Properties.thy ===== *)
theory Shm_Properties
  imports Shm_Capacity Wincode_Example
begin

text \<open>
  The properties of the shared-memory table (\<open>pseudoroot-core/src/shm_map.rs\<close>), stated over the
  definitions of \<open>Shm_Table\<close>, \<open>Shm_Map\<close> and \<open>Shm_Layout\<close> and proved from their lemmas.
\<close>

section \<open>Lemmas for the properties\<close>

definition os_all_ok :: shm_os where
  "os_all_ok =
     \<lparr>os_memfd = 3, os_ftruncate = 0, os_mmap_ok = True, os_dup = 4, os_fstat_size = None\<rparr>"

lemma os_all_ok_sel [simp]:
  "os_memfd os_all_ok = 3" "os_ftruncate os_all_ok = 0" "os_mmap_ok os_all_ok" "os_dup os_all_ok = 4"
  by (simp_all add: os_all_ok_def)

lemma shm_create_ok:
  assumes "0 \<le> sint (os_memfd os)" "0 \<le> sint (os_ftruncate os)" "os_mmap_ok os"
  shows "\<exists>h m. shm_create os sc uid gid = Inr (h, m)"
proof -
  let ?n = "unat (max (next_power_of_two sc) 1024)"
  have "?n < 2 ^ 32" by (rule unat_less_u32)
  then have "48 * ?n < 2 ^ 64" "XATTR_PAGE_SIZE * ?n < 2 ^ 64"
    "64 + 48 * ?n < 2 ^ 64" "64 + 48 * ?n + XATTR_PAGE_SIZE * ?n < 2 ^ 64"
    by (simp_all add: XATTR_PAGE_SIZE_def)
  with assms show ?thesis
    by (simp add: shm_create_def Let_def checked_mul_def checked_add_def)
qed

lemma created_example:
  obtains h m where "shm_create os_all_ok 65536 0 0 = Inr (h, m)" "nslots h = 65536"
proof -
  obtain h m where hm: "shm_create os_all_ok 65536 0 0 = Inr (h, m)"
    using shm_create_ok [of os_all_ok 65536 0 0] by auto
  have "next_power_of_two 65536 = 65536"
    by (simp add: next_power_of_two_def upt_conv_Cons)
  moreover have "sm_slot_count h = max (next_power_of_two 65536) 1024"
    using hm by (auto simp: shm_create_def Let_def split: option.splits if_splits)
  ultimately have "nslots h = 65536" by simp
  with hm show ?thesis by (rule that)
qed

text \<open>A handle enters the operations only through its slot count.\<close>

lemma probe_loop_cong:
  assumes "sm_slot_count h' = sm_slot_count h"
  shows "probe_loop t h' m dev ino idx r = probe_loop t h m dev ino idx r"
  by (induction t arbitrary: idx r) (simp_all add: probe_loop.simps(2) assms Let_def)

lemma shm_probe_cong:
  assumes "sm_slot_count h' = sm_slot_count h"
  shows "shm_probe h' m dev ino = shm_probe h m dev ino"
  using assms probe_loop_cong [OF assms] by (simp add: shm_probe_def shm_hash_def)

lemma hash_take_bit:
  assumes "sm_slot_count h = 2 ^ k" and "k < 32"
  shows "shm_hash h dev ino = ucast (take_bit k (dev XOR (ino * 0x9E3779B97F4A7C15)))"
proof -
  have "(ucast (2 ^ k :: u32) :: u64) = 2 ^ k"
    using assms(2) by (intro bit_word_eqI) (auto simp: bit_simps)
  then show ?thesis using assms by (simp add: shm_hash_def Let_def take_bit_eq_mod)
qed

lemma take_bit_add_push_bit:
  fixes a b :: u64
  assumes "k \<le> 64"
  shows "take_bit k (a + push_bit k b) = take_bit k a"
proof -
  have tb: "unat (take_bit k w) = unat w mod 2 ^ k" for w :: u64
    using unsigned_take_bit_eq [of k w, where ?'a = nat] by (simp only: take_bit_eq_mod)
  have "(2::nat) ^ k dvd 2 ^ 64" using assms by (rule le_imp_power_dvd)
  then have "unat (a + push_bit k b) mod 2 ^ k = (unat a + unat (push_bit k b)) mod 2 ^ k"
    by (simp add: unat_word_ariths mod_mod_cancel)
  also have "\<dots> = (unat a + unat (push_bit k b) mod 2 ^ k) mod 2 ^ k"
    by (rule mod_add_right_eq [symmetric])
  also have "unat (push_bit k b) mod 2 ^ k = 0"
    unfolding tb [symmetric] by (simp add: take_bit_push_bit)
  finally have "unat (take_bit k (a + push_bit k b)) = unat (take_bit k a)"
    by (simp only: tb add_0_right)
  then show ?thesis by (simp only: word_unat_eq_iff)
qed

text \<open>The home slot depends only on the low bits of device and inode number.\<close>

lemma hash_low_bits:
  assumes "shm_create os sc uid gid = Inr (h, m)"
  shows "shm_hash h dev (ino + word_of_nat (t * nslots h)) = shm_hash h dev ino"
proof -
  obtain k where k: "k \<le> 31" "sm_slot_count h = 2 ^ k"
    using shm_create_success(1) [OF assms] by blast
  have "(word_of_nat (t * nslots h) :: u64) = word_of_nat t * 2 ^ k"
    using k by (simp add: unat_two_power)
  then have "(ino + word_of_nat (t * nslots h)) * 0x9E3779B97F4A7C15 =
      ino * 0x9E3779B97F4A7C15 + push_bit k (word_of_nat t * 0x9E3779B97F4A7C15)"
    by (simp add: push_bit_eq_mult algebra_simps)
  then have "take_bit k (dev XOR ((ino + word_of_nat (t * nslots h)) * 0x9E3779B97F4A7C15)) =
      take_bit k (dev XOR (ino * 0x9E3779B97F4A7C15))"
    using k(1) take_bit_add_push_bit [of k "ino * 0x9E3779B97F4A7C15"
        "word_of_nat t * 0x9E3779B97F4A7C15"]
    by (simp add: take_bit_xor)
  then show ?thesis using k by (simp add: hash_take_bit)
qed

lemma word_of_nat_inj64:
  assumes "(word_of_nat i :: u64) = word_of_nat j" "i < 65536" "j < 65536"
  shows "i = j"
proof -
  have "unat (word_of_nat i :: u64) = i" "unat (word_of_nat j :: u64) = j"
    using assms(2,3) by (simp_all add: unat_of_nat)
  with assms(1) show ?thesis by metis
qed

lemma fold_other:
  "shm_inv c h m \<Longrightarrow> k \<notin> set (map op_key xs) \<Longrightarrow>
     shm_get_inode c h (fold (shm_step c h) xs m) k = shm_get_inode c h m k"
proof (induction xs arbitrary: m)
  case (Cons x xs)
  then show ?case
    using Cons.IH [OF shm.invar_op [OF Cons.prems(1)]] shm.lookup_op_other [OF Cons.prems(1)]
    by simp
qed simp

text \<open>Mapping an inherited descriptor: the same table under another descriptor number.\<close>

lemma from_fd_created:
  assumes "shm_create os sc uid gid = Inr (h, m)" and "sh_header m' = sh_header m"
    and "0 \<le> sint (os_dup os')" and "os_mmap_ok os'"
  shows "shm_from_fd os' (Some (show_nat (sm_len h))) m' =
    Inr \<lparr>sm_len = sm_len h, sm_slot_count = sm_slot_count h, sm_fd = os_dup os'\<rparr>"
proof -
  have "sm_len h < 2 ^ 64" "64 \<le> sm_len h"
    using shm_create_success(2,3) [OF assms(1)] by simp_all
  then show ?thesis
    using assms(2-4) by (simp add: shm_from_fd_def parse_usize_show shm_create_success(4) [OF assms(1)])
qed

lemma from_fd_same:
  assumes "shm_inv c h m"
  shows "shm_inv c \<lparr>sm_len = l, sm_slot_count = sm_slot_count h, sm_fd = fd\<rparr> m"
    and "shm_get_inode c \<lparr>sm_len = l, sm_slot_count = sm_slot_count h, sm_fd = fd\<rparr> m = shm_get_inode c h m"
proof -
  let ?h = "\<lparr>sm_len = l, sm_slot_count = sm_slot_count h, sm_fd = fd\<rparr>"
  show "shm_get_inode c ?h m = shm_get_inode c h m"
    by (simp add: fun_eq_iff shm_get_inode_def shm_probe_cong [of ?h h])
  show "shm_inv c ?h m"
    using assms by (simp add: shm_inv_def table_wf_def reachable_at_def path_pos_def home_def shm_hash_def)
qed

text \<open>A created table refines the plain map while there is room.\<close>

lemma created_refines:
  assumes "serde_ok c" and "shm_create os sc uid gid = Inr (h, m)"
    and "length (filter inserts ops) \<le> nslots h"
  shows "shm_get_inode c h (fold (shm_step c h) ops m) = fold (spec_op (shm_canon c)) ops Map.empty"
proof -
  have inv: "shm_inv c h m" by (rule created_inv [OF assms(1,2)])
  have "never_full (shm_room h) (shm_step c h) ops m"
    using never_full_capacity [OF inv] assms(3) card_empties_created [OF assms(2)] by simp
  then have "shm_get_inode c h (fold (shm_step c h) ops m)
      = fold (spec_op (shm_canon c)) ops (shm_get_inode c h m)"
    using shm.fold_refines [OF inv] by blast
  moreover have "shm_get_inode c h m = Map.empty" using created_empty [OF assms(2)] by auto
  ultimately show ?thesis by simp
qed

section \<open>Properties\<close>

text \<open>
  C1: A freshly created table behaves as the plain map from keys to metadata under any
  sequence of upserts, chowns and removals, up to the table's canonical form of an inode,
  as long as the upserts and chowns of the sequence do not outnumber the slots.
\<close>

theorem shm_session_refines_map:
  assumes "serde_ok c" and "shm_create os sc uid gid = Inr (h, m)"
    and "length (filter inserts ops) \<le> nslots h"
  shows "shm_get_inode c h (fold (shm_step c h) ops m) = fold (spec_op (shm_canon c)) ops Map.empty"
  using assms by (rule created_refines)

theorem shm_session_refines_map_witness:
  "\<exists>h m. shm_create os_all_ok 65536 0 0 = Inr (h, m) \<and>
     shm_get_inode xattrs_serde h
       (fold (shm_step xattrs_serde h)
          [Chown (9, 42) 1000 2000 0 0, Chown (9, 42) 0xFFFFFFFF 7 0 0, Remove (9, 43)] m) (9, 42)
     = Some (fake_inode_new 1000 7)"
proof -
  obtain h m where hm: "shm_create os_all_ok 65536 0 0 = Inr (h, m)" "nslots h = 65536"
    by (rule created_example)
  have "merge_ids 0xFFFFFFFF 7 (merge_ids 1000 2000 (fake_inode_new 0 0)) = fake_inode_new 1000 7"
    by (rule fake_inode_eqI) (simp_all add: ID_UNCHANGED_def)
  then show ?thesis
    using hm shm_session_refines_map [OF xattrs_serde_ok hm(1), of
        "[Chown (9, 42) 1000 2000 0 0, Chown (9, 42) 0xFFFFFFFF 7 0 0, Remove (9, 43)]"]
    by (intro exI [of _ h] exI [of _ m]) simp
qed

text \<open>
  C4: No operation, on a full table or not, breaks the table invariant, shows at another
  key, or touches the header with the current ids.
\<close>

theorem shm_step_safe:
  assumes "shm_inv c h m"
  shows "shm_inv c h (shm_step c h x m) \<and> sh_header (shm_step c h x m) = sh_header m \<and>
    (\<forall>k. k \<noteq> op_key x \<longrightarrow> shm_get_inode c h (shm_step c h x m) k = shm_get_inode c h m k)"
proof -
  have "sh_header (shm_step c h x m) = sh_header m" by (cases x) (simp_all add: frame_simps)
  then show ?thesis using shm.invar_op [OF assms] shm.lookup_op_other [OF assms] by blast
qed

theorem shm_step_safe_witness:
  "\<exists>h m. shm_create os_all_ok 65536 0 0 = Inr (h, m) \<and>
     shm_get_inode xattrs_serde h (shm_step xattrs_serde h (Chown (9, 42) 1 2 0 0) m) (9, 43) = None"
proof -
  obtain h m where hm: "shm_create os_all_ok 65536 0 0 = Inr (h, m)" "nslots h = 65536"
    by (rule created_example)
  show ?thesis
    using hm shm_step_safe [OF created_inv [OF xattrs_serde_ok hm(1)], of "Chown (9, 42) 1 2 0 0"]
      created_empty [OF hm(1)]
    by (intro exI [of _ h] exI [of _ m]) simp
qed

text \<open>
  On a well-formed table a probe is exact: it returns \<open>Found\<close> for the slot of the key if
  there is one, otherwise \<open>Vacant\<close> for a slot that may be taken (not live, reachable from the
  key's home slot), and \<open>Full\<close> exactly when the key is absent and no slot is empty.
\<close>

lemma shm_probe_exact:
  assumes "table_wf h m"
  shows "(case shm_probe h m dev ino of
      Found i \<Rightarrow> unat i < nslots h \<and> holds_at m (unat i) (dev, ino)
    | Vacant i \<Rightarrow> unat i < nslots h \<and> \<not> is_live_at m (unat i) \<and>
        reachable_at h m (dev, ino) (unat i) \<and> (\<forall>p<nslots h. \<not> holds_at m p (dev, ino))
    | Full \<Rightarrow> (\<forall>p<nslots h. \<not> is_empty_at m p \<and> \<not> holds_at m p (dev, ino))) \<and>
    (\<forall>p<nslots h. holds_at m p (dev, ino) \<longrightarrow> (\<exists>i. shm_probe h m dev ino = Found i \<and> unat i = p))"
  using probe_Found [OF table_wfD(1) [OF assms]] probe_Vacant [OF assms] probe_Full [OF assms]
    probe_present [OF assms]
  by (auto split: probe.split)

text \<open>
  C5: Removed entries are never given back.  Once as many different keys were inserted as
  the table has slots, and all of them removed again, the table is empty to every lookup and
  yet refuses every chown and every upsert, although all its slots are reusable tombstones.
\<close>

theorem removed_entries_exhaust_table:
  assumes "serde_ok c" and "shm_create os sc uid gid = Inr (h, m)"
    and "distinct ks" and "length ks = nslots h"
    and "m1 = fold (\<lambda>k. shm_upsert_chown c h k u g du dg) ks m"
    and "m2 = fold (\<lambda>k m. snd (shm_remove_inode c h k m)) ks m1"
  shows "(\<forall>k. shm_get_inode c h m2 k = None) \<and>
    (\<forall>k u g du dg. shm_upsert_chown c h k u g du dg m2 = m2) \<and>
    (\<forall>k i. shm_upsert_inode c h k i m2 = m2)"
proof -
  let ?ins = "map (\<lambda>k. Chown k u g du dg) ks"
  have inv: "shm_inv c h m" by (rule created_inv [OF assms(1,2)])
  have "shm_step c h (Chown k u g du dg) = shm_upsert_chown c h k u g du dg"
    "shm_step c h (Remove k) = (\<lambda>m. snd (shm_remove_inode c h k m))" for k by (rule ext, simp)+
  then have m1: "m1 = fold (shm_step c h) ?ins m" and m2: "m2 = fold (shm_step c h) (map Remove ks) m1"
    by (simp_all add: assms(5,6) fold_map comp_def)
  have inv1: "shm_inv c h m1" unfolding m1 by (rule fold_inv [OF inv])
  have inv2: "shm_inv c h m2" unfolding m2 by (rule fold_inv [OF inv1])
  have "no_tombstones h m"
    using created_slots(1) [OF assms(2)] slot_states_disjoint(2) by (auto simp: no_tombstones_def)
  then have "card (empties h m1) + length ks = nslots h"
    using fill_up [OF inv, where xs = ?ins] created_empty [OF assms(2)] card_empties_created [OF assms(2)]
      assms(3,4) by (simp add: m1 comp_def list_all_iff)
  then have "empties h m1 = {}" using assms(4) by simp
  then have no_room: "empties h m2 = {}"
    using fold_empties [OF inv1, of "map Remove ks"] by (simp add: m2)
  have "shm_get_inode c h m1 k = None" if "k \<notin> set ks" for k
    using that fold_other [OF inv, where xs = ?ins and k = k] created_empty [OF assms(2)]
    by (simp add: m1 comp_def)
  then have gone: "shm_get_inode c h m2 k = None" for k
    unfolding m2 fold_remove_lookup [OF inv1] by (cases "k \<in> set ks") simp_all
  then show ?thesis
    using exhausted [OF inv2 no_room, of "Chown _ _ _ _ _"] exhausted [OF inv2 no_room, of "Upsert _ _"]
    by simp
qed

theorem removed_entries_exhaust_table_witness:
  "\<exists>h m ks. shm_create os_all_ok 65536 0 0 = Inr (h, m) \<and> distinct ks \<and> length ks = 65536 \<and>
     (let m1 = fold (\<lambda>k. shm_upsert_chown xattrs_serde h k 0 0 0 0) ks m;
          m2 = fold (\<lambda>k m. snd (shm_remove_inode xattrs_serde h k m)) ks m1
      in shm_upsert_chown xattrs_serde h (9, 42) 1000 1000 0 0 m2 = m2)"
proof -
  obtain h m where hm: "shm_create os_all_ok 65536 0 0 = Inr (h, m)" "nslots h = 65536"
    by (rule created_example)
  let ?ks = "map (\<lambda>i. (0, word_of_nat i) :: inode_key) [0..<65536]"
  have "inj_on (\<lambda>i. (0, word_of_nat i) :: inode_key) {0..<65536}"
    by (rule inj_onI) (auto dest: word_of_nat_inj64)
  then have ks: "distinct ?ks" "length ?ks = nslots h"
    using hm(2) by (simp_all add: distinct_map)
  show ?thesis
    using hm ks removed_entries_exhaust_table [OF xattrs_serde_ok hm(1) ks refl refl,
        where u = 0 and g = 0 and du = 0 and dg = 0]
    by (intro exI [of _ h] exI [of _ m] exI [of _ ?ks]) (simp add: Let_def)
qed

text \<open>
  C12: What is written to an attribute page is read back, an attribute map that does not fit
  the page reads back as none at all, and the other pages keep their contents.
\<close>

theorem xattr_page_roundtrip:
  assumes "serde_ok c" and "unat i < length (sh_pages m)"
    and "length (sh_pages m ! unat i) = XATTR_PAGE_SIZE"
  shows "read_xattrs c (write_xattrs c i x m) i = (if fits_page c x then x else fmempty) \<and>
    length (xattr_page (write_xattrs c i x m) i) = XATTR_PAGE_SIZE \<and>
    (\<forall>j. j \<noteq> i \<longrightarrow> xattr_page (write_xattrs c i x m) j = xattr_page m j)"
proof -
  have "j \<noteq> i \<Longrightarrow> unat j \<noteq> unat i" for j by (metis word_unat_eq_iff)
  then show ?thesis
    using assms decode_encode_page [OF assms(1,3), of x] length_encode_page [OF assms(3), of c x]
    by (simp add: read_xattrs_def write_xattrs_def set_page_def xattr_page_def canon_xattrs_def
        nth_list_update_conv)
qed

theorem xattr_page_roundtrip_witness:
  "read_xattrs xattrs_serde
     (write_xattrs xattrs_serde 0 (fmupd (bytes_of ''user.a'') [1, 2] fmempty) (zero_mem 1)) 0
   = fmupd (bytes_of ''user.a'') [1, 2] fmempty"
proof -
  have "fits_page xattrs_serde (fmupd (bytes_of ''user.a'') [1, 2] fmempty)"
    by (simp add: fits_page_def xattrs_serde_def serde_of_def enc_xattrs_def enc_list_def
        enc_pair_def enc_blob_def sorted_list_of_fmupd_fmempty XATTR_PAGE_SIZE_def)
  then show ?thesis
    using xattr_page_roundtrip [OF xattrs_serde_ok, of 0 "zero_mem 1"
        "fmupd (bytes_of ''user.a'') [1, 2] fmempty"]
    by (simp add: zero_mem_def)
qed

text \<open>
  C13: The slots and the attribute pages of a created map lie inside the mapping, behind the
  header, aligned for the words they hold, and no two of them overlap.
\<close>

theorem shm_regions_disjoint:
  assumes "shm_create os sc uid gid = Inr (h, m)" and "unat i < nslots h" and "unat j < nslots h"
  shows "size_of_Header \<le> slot_offset i \<and> 8 dvd slot_offset i \<and>
    slot_offset i + size_of_Slot \<le> xattr_page_offset h j \<and>
    xattr_page_offset h i + XATTR_PAGE_SIZE \<le> sm_len h \<and> sm_len h < 2 ^ 64 \<and>
    (i \<noteq> j \<longrightarrow>
      (slot_offset i + size_of_Slot \<le> slot_offset j \<or> slot_offset j + size_of_Slot \<le> slot_offset i) \<and>
      (xattr_page_offset h i + XATTR_PAGE_SIZE \<le> xattr_page_offset h j \<or>
       xattr_page_offset h j + XATTR_PAGE_SIZE \<le> xattr_page_offset h i))"
proof -
  have "i \<noteq> j \<longrightarrow> Suc (unat i) \<le> unat j \<or> Suc (unat j) \<le> unat i"
    by (metis not_less_eq_eq linorder_neqE_nat Suc_leI word_unat_eq_iff)
  moreover have "8 dvd (64 :: nat)" "8 dvd (48 :: nat)" by presburger+
  ultimately show ?thesis
    using assms(2,3) shm_create_success(2,3) [OF assms(1)]
    by (auto simp: slot_offset_def xattr_page_offset_def xattr_region_offset_def
        XATTR_PAGE_SIZE_def intro!: dvd_add dvd_mult2)
qed

theorem shm_regions_disjoint_witness:
  "\<exists>h m. shm_create os_all_ok 65536 0 0 = Inr (h, m) \<and>
     (slot_offset 7 + size_of_Slot \<le> slot_offset 8 \<or> slot_offset 8 + size_of_Slot \<le> slot_offset 7) \<and>
     xattr_page_offset h 7 + XATTR_PAGE_SIZE \<le> sm_len h"
proof -
  obtain h m where hm: "shm_create os_all_ok 65536 0 0 = Inr (h, m)" "nslots h = 65536"
    by (rule created_example)
  have "unat (7 :: u32) < nslots h" "unat (8 :: u32) < nslots h" "(7 :: u32) \<noteq> 8"
    using hm(2) by simp_all
  then show ?thesis
    using hm(1) shm_regions_disjoint [OF hm(1), of 7 8]
    by (intro exI [of _ h] exI [of _ m]) blast
qed

text \<open>Creating a map succeeds for every requested size when the system serves its calls.\<close>

lemma shm_create_total:
  assumes "0 \<le> sint (os_memfd os)" and "0 \<le> sint (os_ftruncate os)" and "os_mmap_ok os"
  shows "\<exists>h m k. shm_create os sc uid gid = Inr (h, m) \<and> 10 \<le> k \<and> k \<le> 31 \<and>
    sm_slot_count h = 2 ^ k \<and> (unat sc \<le> 2 ^ 31 \<longrightarrow> unat sc \<le> nslots h) \<and> table_wf h m \<and>
    (\<forall>c key. shm_get_inode c h m key = None) \<and>
    shm_current_uid m = uid \<and> shm_current_gid m = gid"
proof -
  obtain h m where create: "shm_create os sc uid gid = Inr (h, m)"
    using shm_create_ok [OF assms] by blast
  obtain k where k: "10 \<le> k" "k \<le> 31" "sm_slot_count h = 2 ^ k"
      "unat sc \<le> 2 ^ 31 \<longrightarrow> unat sc \<le> 2 ^ k"
    using shm_create_success(1) [OF create] by blast
  have "nslots h = 2 ^ k" using k by (simp add: unat_two_power)
  moreover have "shm_current_uid m = uid" "shm_current_gid m = gid"
    by (simp_all add: shm_create_success(4) [OF create] shm_current_uid_def shm_current_gid_def)
  ultimately show ?thesis
    using create k created_wf [OF create] created_empty [OF create]
    by (intro exI [of _ h] exI [of _ m] exI [of _ k]) simp
qed

text \<open>Mapping the inherited descriptor gives the same table.\<close>

lemma shm_from_fd_inherits:
  assumes "shm_create os sc uid gid = Inr (h, m)" and "shm_inv c h m'" and "sh_header m' = sh_header m"
    and "0 \<le> sint (os_dup os')" and "os_mmap_ok os'"
  shows "\<exists>h'. shm_from_fd os' (Some (show_nat (sm_len h))) m' = Inr h' \<and>
    sm_len h' = sm_len h \<and> sm_slot_count h' = sm_slot_count h \<and> shm_inv c h' m' \<and>
    shm_get_inode c h' m' = shm_get_inode c h m'"
  using from_fd_created [OF assms(1,3-5)] from_fd_same [OF assms(2)] by simp

text \<open>
  The length variable is trusted: any length from the header's size up is accepted, and a
  length below the created one leaves the last attribute page outside the mapping.
\<close>

lemma shm_from_fd_accepts_truncated:
  assumes "shm_create os sc uid gid = Inr (h, m)" and "size_of_Header \<le> len" and "len < sm_len h"
    and "0 \<le> sint (os_dup os')" and "os_mmap_ok os'"
  shows "\<exists>h'. shm_from_fd os' (Some (show_nat len)) m = Inr h' \<and> sm_len h' = len \<and>
    sm_slot_count h' = sm_slot_count h \<and>
    sm_len h' < xattr_page_offset h' (sm_slot_count h' - 1) + XATTR_PAGE_SIZE"
proof -
  obtain k where k: "k \<le> 31" "sm_slot_count h = 2 ^ k"
    using shm_create_success(1) [OF assms(1)] by blast
  then have "nslots h \<noteq> 0" by (simp add: unat_two_power)
  then have last: "Suc (unat (sm_slot_count h - 1)) = nslots h"
    using unat_minus_one [of "sm_slot_count h"] by fastforce
  have "len < 2 ^ 64" using assms(3) shm_create_success(3) [OF assms(1)] by linarith
  moreover have "sm_len h = 64 + 48 * nslots h + XATTR_PAGE_SIZE * Suc (unat (sm_slot_count h - 1))"
    unfolding last by (rule shm_create_success(2) [OF assms(1)])
  ultimately show ?thesis
    using assms(2-5)
    by (simp add: shm_from_fd_def parse_usize_show shm_create_success(4) [OF assms(1)]
        xattr_page_offset_def xattr_region_offset_def)
qed

end
