(* ===== verification/Shm_Race.thy ===== *)
theory Shm_Race
  imports Shm_Linear Shm_Properties
begin

text \<open>
  The properties of several processes on one shared table: an operation that runs alone is
  the atomic one of \<open>Shm_Map\<close>, updates of different existing entries may interleave freely,
  every operation ends whatever the others do, and two inserts may lose one of the entries.
\<close>

section \<open>Two processes that take the same free slot\<close>

text \<open>
  Process 0 has probed and stored the key of its entry when process 1 runs its whole insert
  into the same slot; then process 0 stores its metadata over that of process 1.
\<close>

definition race_schedule :: "nat list" where
  "race_schedule = [0, 1] @ replicate 3 0 @ replicate 8 1 @ replicate 5 0"

text \<open>An insertion into a fresh table finds its home slot empty.\<close>

lemma created_vacant:
  assumes create: "shm_create os sc uid gid = Inr (h, m)"
  shows "unat (shm_hash h (fst k) (snd k)) < nslots h"
    and "sl_occupied (shm_slot m (shm_hash h (fst k) (snd k))) = SLOT_EMPTY"
proof -
  show less: "unat (shm_hash h (fst k) (snd k)) < nslots h"
    using home_less [OF table_wfD(1) [OF created_wf [OF create]]] by (simp add: home_def)
  show "sl_occupied (shm_slot m (shm_hash h (fst k) (snd k))) = SLOT_EMPTY"
    using created_slots(1) [OF create less] by (simp add: is_empty_at_def shm_slot_def)
qed

lemma insert_probed:
  assumes create: "shm_create os sc uid gid = Inr (h, m)"
    and start: "fst s p = op_start h x" and mem: "snd s = m"
  shows "sched_step c h p s =
    ((fst s)(p := Storing (op_stores c x (Vacant (shm_hash h (fst (op_key x)) (snd (op_key x)))))), m)"
proof -
  obtain n where "nslots h = Suc n"
    using table_wfD(1) [OF created_wf [OF create]] by (cases "nslots h") auto
  then show ?thesis
    by (simp add: sched_step_def start mem op_start_def created_vacant(2) [OF create])
qed

text \<open>The memory the two leave: one entry, the key of process 1 with the metadata of process 0.\<close>

definition torn_entry :: "u32 \<Rightarrow> inode_key \<Rightarrow> u32 \<Rightarrow> u32 \<Rightarrow> shm_mem \<Rightarrow> bool" where
  "torn_entry i k uid gid m \<longleftrightarrow>
     shm_slot m i = \<lparr>sl_occupied = SLOT_LIVE, sl_dev = fst k, sl_ino = snd k, sl_uid = uid, sl_gid = gid,
       sl_mode = 0, sl_rdev = 0\<rparr> \<and> take 4 (xattr_page m i) = le32 0 \<and>
     (\<forall>q<length (sh_slots m). q \<noteq> unat i \<longrightarrow> sl_occupied (sh_slots m ! q) \<noteq> SLOT_LIVE)"

lemma race_run:
  assumes wa: "wa = op_stores c (Chown a ua ga da ea) (Vacant i)"
    and wb: "wb = op_stores c (Chown b ub gb db eb) (Vacant i)"
    and "fst s 0 = Storing wa" and "fst s 1 = Storing wb"
  shows "run_schedule c h (replicate 3 0 @ replicate 8 1 @ replicate 5 0) s =
    ((fst s)(0 := Storing [], 1 := Storing []),
     fold do_store (drop 3 wa) (fold do_store wb (fold do_store (take 3 wa) (snd s))))"
proof -
  have len: "length (take 3 wa) = 3" "length wb = 8" "length (drop 3 wa) = 5"
    by (simp_all add: wa wb xattr_stores_def)
  let ?s1 = "((fst s)(0 := Storing (drop 3 wa)), fold do_store (take 3 wa) (snd s))"
  let ?s2 = "((fst ?s1)(1 := Storing []), fold do_store wb (snd ?s1))"
  have 1: "run_schedule c h (replicate 3 0) s = ?s1"
    using run_stores [of s 0 "take 3 wa" "drop 3 wa" c h] assms(3) len(1) by simp
  have 2: "run_schedule c h (replicate 8 1) ?s1 = ?s2"
    using run_stores [of ?s1 1 wb "[]" c h] assms(4) len(2) by simp
  have 3: "run_schedule c h (replicate 5 0) ?s2 =
      ((fst ?s2)(0 := Storing []), fold do_store (drop 3 wa) (snd ?s2))"
    using run_stores [of ?s2 0 "drop 3 wa" "[]" c h] len(3) by simp
  show ?thesis
    by (simp only: run_schedule_simps 1 2 3) (simp add: fun_eq_iff)
qed

lemma race_memory:
  assumes slots: "unat i < length (sh_slots m)" "unat i < length (sh_pages m)"
    and page: "length (sh_pages m ! unat i) = XATTR_PAGE_SIZE"
    and empty: "\<forall>q<length (sh_slots m). sl_occupied (sh_slots m ! q) \<noteq> SLOT_LIVE"
    and ids: "ua \<noteq> ID_UNCHANGED" "ga \<noteq> ID_UNCHANGED"
  shows "torn_entry i b ua ga
    (fold do_store (drop 3 (op_stores c (Chown a ua ga da ea) (Vacant i)))
      (fold do_store (op_stores c (Chown b ub gb db eb) (Vacant i))
        (fold do_store (take 3 (op_stores c (Chown a ua ga da ea) (Vacant i))) m)))"
  using assms
  by (simp add: torn_entry_def xattr_stores_def shm_slot_def xattr_page_def modify_slot_def set_page_def
      copy_at_def XATTR_PAGE_SIZE_def)

lemma torn_lookup:
  assumes torn: "torn_entry (shm_hash h (fst k) (snd k)) k uid gid m"
    and n: "0 < nslots h" and len: "length (sh_slots m) = nslots h"
  shows "shm_get_inode c h m k = Some (fake_inode_new uid gid)"
    and "a \<noteq> k \<Longrightarrow> shm_get_inode c h m a = None"
proof -
  obtain n' where "nslots h = Suc n'" using n by (cases "nslots h") auto
  then have "shm_probe h m (fst k) (snd k) = Found (shm_hash h (fst k) (snd k))"
    using torn by (simp add: shm_probe_def torn_entry_def Let_def slot_codes probe_loop.simps(2))
  then show "shm_get_inode c h m k = Some (fake_inode_new uid gid)"
    using torn by (simp add: shm_get_inode_def torn_entry_def case_prod_beta Let_def read_xattrs_def
        decode_page_def fake_inode_new_def)
  show "shm_get_inode c h m a = None" if "a \<noteq> k"
  proof (cases "shm_probe h m (fst a) (snd a)")
    case (Found j)
    then have j: "unat j < nslots h" "holds_at m (unat j) a"
      using probe_Found [OF n, of m "fst a" "snd a" j] by simp_all
    then have "unat j = unat (shm_hash h (fst k) (snd k))"
      using torn len by (auto simp: torn_entry_def slot_state_defs)
    with j(2) torn that show ?thesis by (auto simp: torn_entry_def slot_state_defs shm_slot_def)
  qed (simp_all add: shm_get_inode_def case_prod_beta)
qed

lemma do_store_length [simp]: "length (sh_slots (do_store w m)) = length (sh_slots m)"
  by (cases w) (simp_all add: modify_slot_def set_page_def)

lemma fold_store_length [simp]: "length (sh_slots (fold do_store ws m)) = length (sh_slots m)"
  by (induction ws arbitrary: m) simp_all

lemma race_result:
  assumes create: "shm_create os sc uid gid = Inr (h, m)"
    and slot: "shm_hash h (fst b) (snd b) = shm_hash h (fst a) (snd a)"
    and ids: "ua \<noteq> ID_UNCHANGED" "ga \<noteq> ID_UNCHANGED"
    and s: "s = run_schedule c h race_schedule
      (shm_processes h [Chown a ua ga da ea, Chown b ub gb db eb], m)"
  shows "fst s 0 = Storing []" "fst s 1 = Storing []"
    "torn_entry (shm_hash h (fst b) (snd b)) b ua ga (snd s)" "length (sh_slots (snd s)) = nslots h"
proof -
  let ?i = "shm_hash h (fst b) (snd b)"
  let ?wa = "op_stores c (Chown a ua ga da ea) (Vacant ?i)" and ?wb = "op_stores c (Chown b ub gb db eb) (Vacant ?i)"
  let ?s = "(shm_processes h [Chown a ua ga da ea, Chown b ub gb db eb], m)"
  let ?s1 = "((fst ?s)(0 := Storing ?wa), m)" and ?s2 = "((fst ?s)(0 := Storing ?wa, 1 := Storing ?wb), m)"
  have "sched_step c h 0 ?s = ?s1"
    using insert_probed [OF create, of ?s 0 "Chown a ua ga da ea" c] slot by (simp add: shm_processes_def)
  moreover have "sched_step c h 1 ?s1 = ?s2"
    using insert_probed [OF create, of ?s1 1 "Chown b ub gb db eb" c] by (simp add: shm_processes_def)
  ultimately have run: "s = run_schedule c h (replicate 3 0 @ replicate 8 1 @ replicate 5 0) ?s2"
    unfolding s race_schedule_def by (simp only: run_schedule_simps append_Cons append_Nil)
  note wf = created_wf [OF create]
  let ?M = "fold do_store (drop 3 ?wa) (fold do_store ?wb (fold do_store (take 3 ?wa) m))"
  have "s = ((fst ?s2)(0 := Storing [], 1 := Storing []), fold do_store (drop 3 ?wa)
      (fold do_store ?wb (fold do_store (take 3 ?wa) (snd ?s2))))"
    unfolding run by (rule race_run [OF refl refl]) (simp_all del: op_stores.simps)
  then have "fst s = (fst ?s2)(0 := Storing [], 1 := Storing [])" and M: "snd s = ?M"
    by (simp_all only: fst_conv snd_conv)
  then show "fst s 0 = Storing []" "fst s 1 = Storing []" by simp_all
  show "length (sh_slots (snd s)) = nslots h"
    unfolding M fold_store_length by (rule table_wfD(2) [OF wf])
  show "torn_entry ?i b ua ga (snd s)"
    unfolding M
    using created_vacant(1) [OF create, of b] table_wfD(2-4) [OF wf] created_slots(1) [OF create]
    by (intro race_memory) (auto simp: ids slot_state_defs slot_codes)
qed

lemma table_wf_shape: "table_wf h m \<Longrightarrow> table_shape h m"
  by (auto simp: table_wf_def table_shape_def slot_state_defs)

section \<open>Two processes in a table with two entries\<close>

definition two_entries :: "store_op list" where
  "two_entries = [Chown (9, 42) 1 2 0 0, Chown (9, 43) 3 4 0 0]"

definition two_updates :: "store_op list" where
  "two_updates = [Chown (9, 42) 5 6 0 0, Remove (9, 43)]"

lemma two_entries_lookup:
  assumes create: "shm_create os_all_ok 65536 0 0 = Inr (h, m)" and n: "nslots h = 65536"
  shows "shm_get_inode xattrs_serde h (fold (shm_step xattrs_serde h) two_entries m) (9, 42) \<noteq> None"
    and "shm_get_inode xattrs_serde h (fold (shm_step xattrs_serde h) two_entries m) (9, 43) \<noteq> None"
    and "shm_get_inode xattrs_serde h
      (fold (shm_step xattrs_serde h) two_updates (fold (shm_step xattrs_serde h) two_entries m)) (9, 43) = None"
    and "map_option i_uid (shm_get_inode xattrs_serde h
      (fold (shm_step xattrs_serde h) two_updates (fold (shm_step xattrs_serde h) two_entries m)) (9, 42)) = Some 5"
  using created_refines [OF xattrs_serde_ok create, of two_entries]
    created_refines [OF xattrs_serde_ok create, of "two_entries @ two_updates"]
  by (simp_all add: n two_entries_def two_updates_def ID_UNCHANGED_def)

lemma count_alternating: "count_list (concat (replicate n [Suc 0, 0])) p = (if p < (2::nat) then n else 0)"
  by (induction n) auto

section \<open>Properties\<close>

text \<open>
  C10: A process whose accesses no other process interrupts performs the atomic operation of the
  table, whatever state the table is in, within three loads per slot and ten stores.
\<close>

theorem shm_alone_is_atomic:
  "run_schedule c h (replicate (3 * nslots h + 10) p) (pcs(p := op_start h x), m) =
     (pcs(p := Storing []), shm_step c h x m)"
  using alone [of "(pcs(p := op_start h x), m)" p h x "3 * nslots h + 10" c]
  by (simp add: fun_upd_def fun_eq_iff)

text \<open>
  C6: Processes that change different existing entries, by a chown, an upsert or a removal, may
  interleave their accesses in any way: once each has had its steps, the memory is the one the
  operations leave when they run one after the other.
\<close>

theorem concurrent_updates_serialise:
  assumes "shm_inv c h m" and "distinct (map op_key xs)"
    and "\<forall>x\<in>set xs. shm_get_inode c h m (op_key x) \<noteq> None"
    and "\<forall>p<length xs. 3 * nslots h + 10 \<le> count_list ps p"
  shows "snd (run_schedule c h ps (shm_processes h xs, m)) = fold (shm_step c h) xs m"
  using assms by (rule interleaved_updates)

theorem concurrent_updates_serialise_witness:
  "\<exists>h m. shm_create os_all_ok 65536 0 0 = Inr (h, m) \<and>
     (let m' = snd (run_schedule xattrs_serde h (concat (replicate 200000 [1, 0]))
            (shm_processes h two_updates, fold (shm_step xattrs_serde h) two_entries m))
      in shm_get_inode xattrs_serde h m' (9, 43) = None \<and>
         map_option i_uid (shm_get_inode xattrs_serde h m' (9, 42)) = Some 5)"
proof -
  obtain h m where hm: "shm_create os_all_ok 65536 0 0 = Inr (h, m)" "nslots h = 65536"
    by (rule created_example)
  have "snd (run_schedule xattrs_serde h (concat (replicate 200000 [1, 0]))
            (shm_processes h two_updates, fold (shm_step xattrs_serde h) two_entries m)) =
      fold (shm_step xattrs_serde h) two_updates (fold (shm_step xattrs_serde h) two_entries m)"
    using two_entries_lookup(1,2) [OF hm] fold_inv [OF created_inv [OF xattrs_serde_ok hm(1)]]
    by (intro concurrent_updates_serialise) (auto simp: two_updates_def count_alternating hm(2))
  then show ?thesis
    using hm(1) two_entries_lookup(3,4) [OF hm] by (intro exI [of _ h] exI [of _ m]) (simp add: Let_def)
qed

text \<open>
  C9: Two concurrent inserts into a fresh session can lose a file: process 0 chowns \<open>a\<close>, process 1
  chowns \<open>b\<close>, both probes end at the same free slot, and when both are done the table has no
  entry for \<open>a\<close> and reports \<open>b\<close> with the owner that was given to \<open>a\<close>.
\<close>

theorem concurrent_inserts_lose_entry:
  assumes "shm_create os sc uid gid = Inr (h, m)" and "a \<noteq> b"
    and "shm_hash h (fst b) (snd b) = shm_hash h (fst a) (snd a)"
    and "ua \<noteq> ID_UNCHANGED" and "ga \<noteq> ID_UNCHANGED"
    and "s = run_schedule c h race_schedule
      (shm_processes h [Chown a ua ga da ea, Chown b ub gb db eb], m)"
  shows "fst s 0 = Storing [] \<and> fst s 1 = Storing [] \<and>
    shm_get_inode c h (snd s) a = None \<and>
    shm_get_inode c h (snd s) b = Some (fake_inode_new ua ga)"
proof -
  note race = race_result [OF assms(1,3-6)]
  have "0 < nslots h" by (rule table_wfD(1) [OF created_wf [OF assms(1)]])
  from torn_lookup [OF race(3) this race(4)] show ?thesis using race(1,2) assms(2) by simp
qed

theorem concurrent_inserts_lose_entry_witness:
  "\<exists>h m s. shm_create os_all_ok 65536 0 0 = Inr (h, m) \<and>
     s = run_schedule xattrs_serde h race_schedule
       (shm_processes h [Chown (9, 42) 1000 1000 0 0, Chown (9, 65578) 2000 2000 0 0], m) \<and>
     shm_get_inode xattrs_serde h (snd s) (9, 42) = None \<and>
     shm_get_inode xattrs_serde h (snd s) (9, 65578) = Some (fake_inode_new 1000 1000)"
proof -
  obtain h m where hm: "shm_create os_all_ok 65536 0 0 = Inr (h, m)" "nslots h = 65536"
    by (rule created_example)
  have "shm_hash h (fst (9, 65578)) (snd (9, 65578)) = shm_hash h (fst (9, 42)) (snd (9, 42))"
    using hash_low_bits [OF hm(1), of 9 42 1] hm(2) by simp
  then show ?thesis
    using hm(1) concurrent_inserts_lose_entry [OF hm(1) _ _ _ _ refl, of "(9, 42)" "(9, 65578)" 1000 1000]
    by (intro exI [of _ h] exI [of _ m] exI) (auto simp: ID_UNCHANGED_def)
qed

text \<open>
  C11: Whatever the interleaving of any operations, the parts of the table keep their sizes, every
  slot has one of the three states, the header with the current ids is untouched, and a process
  that has had three steps for each slot and ten more is done: nobody waits for anybody.
\<close>

theorem schedule_keeps_shape:
  assumes "table_shape h m" and "s = run_schedule c h ps (shm_processes h xs, m)"
  shows "table_shape h (snd s) \<and> sh_header (snd s) = sh_header m \<and>
    (\<forall>p<length xs. 3 * nslots h + 10 \<le> count_list ps p \<longrightarrow> fst s p = Storing [])"
proof (intro conjI allI impI)
  have "pc_fits (shm_processes h xs p)" for p by (simp add: shm_processes_def op_start_def)
  with schedule_shape [of "(shm_processes h xs, m)" h c ps] assms
  show "table_shape h (snd s)" "sh_header (snd s) = sh_header m" by simp_all
  show "fst s p = Storing []" if "p < length xs" "3 * nslots h + 10 \<le> count_list ps p" for p
    unfolding assms(2) using that by (intro op_ends [of _ _ h "xs ! p"]) (simp_all add: shm_processes_def)
qed

theorem schedule_keeps_shape_witness:
  "\<exists>h m. shm_create os_all_ok 65536 0 0 = Inr (h, m) \<and>
     table_shape h (snd (run_schedule xattrs_serde h race_schedule (shm_processes h two_entries, m))) \<and>
     fst (run_schedule xattrs_serde h (concat (replicate 200000 [1, 0]))
       (shm_processes h two_entries, m)) 1 = Storing []"
proof -
  obtain h m where hm: "shm_create os_all_ok 65536 0 0 = Inr (h, m)" "nslots h = 65536"
    by (rule created_example)
  have "table_shape h m" by (rule table_wf_shape [OF created_wf [OF hm(1)]])
  then show ?thesis
    using hm schedule_keeps_shape [OF _ refl, of h m xattrs_serde race_schedule two_entries]
      schedule_keeps_shape [OF _ refl, of h m xattrs_serde "concat (replicate 200000 [1, 0])" two_entries]
    by (intro exI [of _ h] exI [of _ m]) (simp add: count_alternating two_entries_def)
qed

end
