(* ===== verification/Shm_Readers.thy ===== *)
theory Shm_Readers
  imports Shm_Linear Shm_Properties
begin

text \<open>
  Lookups while another process changes the table (\<open>get_inode\<close>, \<open>probe\<close> and \<open>read_xattrs\<close> in
  \<open>pseudoroot-core/src/shm_map.rs\<close>): a lookup is taken apart into its loads, one per access,
  with the steps of a writer and of other readers between them.  The bytes of a page after its
  length are read in one step.
\<close>

section \<open>A lookup, load by load\<close>

text \<open>
  The next load of a reader: the state, device or inode number of the slot a probe has come to
  (with the iterations that remain after this one), then the fields of the slot it found, the
  mode and the device number once to compare them with 0 and once for their value, then the
  page.  \<open>fake_inode\<close> is the result as far as it is filled in.
\<close>

datatype reader =
    RdOccupied nat u32
  | RdDev nat u32
  | RdIno nat u32
  | RdUid u32
  | RdGid u32 u32
  | RdMode u32 fake_inode
  | RdModeValue u32 fake_inode
  | RdRdev u32 fake_inode
  | RdRdevValue u32 fake_inode
  | RdLen u32 fake_inode
  | RdBytes u32 fake_inode nat
  | RdDone "fake_inode option"

definition reader_start :: "shm_map \<Rightarrow> inode_key \<Rightarrow> reader" where
  "reader_start h key = RdOccupied (nslots h) (shm_hash h (fst key) (snd key))"

fun reader_step :: "xattrs serde \<Rightarrow> shm_map \<Rightarrow> inode_key \<Rightarrow> reader \<Rightarrow> shm_mem \<Rightarrow> reader" where
  "reader_step c h key (RdOccupied 0 idx) m = RdDone None"
| "reader_step c h key (RdOccupied (Suc t) idx) m =
     (if sl_occupied (shm_slot m idx) = SLOT_EMPTY then RdDone None
      else if sl_occupied (shm_slot m idx) = SLOT_LIVE then RdDev t idx
      else RdOccupied t ((idx + 1) mod sm_slot_count h))"
| "reader_step c h key (RdDev t idx) m =
     (if sl_dev (shm_slot m idx) = fst key then RdIno t idx
      else RdOccupied t ((idx + 1) mod sm_slot_count h))"
| "reader_step c h key (RdIno t idx) m =
     (if sl_ino (shm_slot m idx) = snd key then RdUid idx
      else RdOccupied t ((idx + 1) mod sm_slot_count h))"
| "reader_step c h key (RdUid idx) m = RdGid idx (sl_uid (shm_slot m idx))"
| "reader_step c h key (RdGid idx uid) m = RdMode idx (fake_inode_new uid (sl_gid (shm_slot m idx)))"
| "reader_step c h key (RdMode idx inode) m =
     (if sl_mode (shm_slot m idx) \<noteq> 0 then RdModeValue idx inode else RdRdev idx inode)"
| "reader_step c h key (RdModeValue idx inode) m =
     RdRdev idx (inode\<lparr>i_mode := Some (sl_mode (shm_slot m idx))\<rparr>)"
| "reader_step c h key (RdRdev idx inode) m =
     (if sl_rdev (shm_slot m idx) \<noteq> 0 then RdRdevValue idx inode else RdLen idx inode)"
| "reader_step c h key (RdRdevValue idx inode) m =
     RdLen idx (inode\<lparr>i_rdev := Some (sl_rdev (shm_slot m idx))\<rparr>)"
| "reader_step c h key (RdLen idx inode) m =
     (let len = unat (of_le32 (take 4 (xattr_page m idx))) in
      if len = 0 \<or> XATTR_PAGE_SIZE - 4 < len then RdDone (Some (inode\<lparr>i_xattrs := fmempty\<rparr>))
      else RdBytes idx inode len)"
| "reader_step c h key (RdBytes idx inode len) m =
     RdDone (Some (inode\<lparr>i_xattrs :=
       (case deserialize c (take len (drop 4 (xattr_page m idx))) of
          Some xattrs \<Rightarrow> xattrs | None \<Rightarrow> fmempty)\<rparr>))"
| "reader_step c h key (RdDone r) m = RdDone r"

text \<open>
  One writer and readers \<open>0, 1, \<dots>\<close> that look up \<open>keys r\<close>; in a schedule \<open>None\<close> is a step of the
  writer and \<open>Some r\<close> one of reader \<open>r\<close>.
\<close>

record readers_state =
  rs_writer :: shm_pc
  rs_readers :: "nat \<Rightarrow> reader"
  rs_mem :: shm_mem

definition readers_step ::
    "xattrs serde \<Rightarrow> shm_map \<Rightarrow> (nat \<Rightarrow> inode_key) \<Rightarrow> nat option \<Rightarrow> readers_state \<Rightarrow> readers_state" where
  "readers_step c h keys who s =
     (case who of
        None \<Rightarrow> (case pc_step c h (rs_writer s) (rs_mem s) of (pc, m) \<Rightarrow> s\<lparr>rs_writer := pc, rs_mem := m\<rparr>)
      | Some r \<Rightarrow> s\<lparr>rs_readers := (rs_readers s)(r := reader_step c h (keys r) (rs_readers s r) (rs_mem s))\<rparr>)"

definition run_readers ::
    "xattrs serde \<Rightarrow> shm_map \<Rightarrow> (nat \<Rightarrow> inode_key) \<Rightarrow> nat option list \<Rightarrow> readers_state \<Rightarrow> readers_state" where
  "run_readers c h keys schedule s = fold (readers_step c h keys) schedule s"

definition readers_start :: "shm_map \<Rightarrow> (nat \<Rightarrow> inode_key) \<Rightarrow> store_op \<Rightarrow> shm_mem \<Rightarrow> readers_state" where
  "readers_start h keys x m =
     \<lparr>rs_writer = op_start h x, rs_readers = (\<lambda>r. reader_start h (keys r)), rs_mem = m\<rparr>"

section \<open>Every lookup ends\<close>

fun reader_cost :: "reader \<Rightarrow> nat" where
  "reader_cost (RdOccupied t idx) = 3 * t + 10"
| "reader_cost (RdDev t idx) = 3 * t + 12"
| "reader_cost (RdIno t idx) = 3 * t + 11"
| "reader_cost (RdUid idx) = 8"
| "reader_cost (RdGid idx u) = 7"
| "reader_cost (RdMode idx i) = 6"
| "reader_cost (RdModeValue idx i) = 5"
| "reader_cost (RdRdev idx i) = 4"
| "reader_cost (RdRdevValue idx i) = 3"
| "reader_cost (RdLen idx i) = 2"
| "reader_cost (RdBytes idx i n) = 1"
| "reader_cost (RdDone r) = 0"

lemma reader_step_cost: "reader_cost (reader_step c h key rd m) \<le> reader_cost rd - 1"
  by (cases "(c, h, key, rd, m)" rule: reader_step.cases) (simp_all add: Let_def)

lemma run_reader_cost:
  "reader_cost (rs_readers (run_readers c h keys ps s) r) \<le> reader_cost (rs_readers s r) - count_list ps (Some r)"
proof (induction ps arbitrary: s)
  case (Cons p ps)
  have "reader_cost (rs_readers (readers_step c h keys p s) r) \<le>
      (if p = Some r then reader_cost (rs_readers s r) - 1 else reader_cost (rs_readers s r))"
    using reader_step_cost by (auto simp: readers_step_def case_prod_beta split: option.split)
  with Cons [of "readers_step c h keys p s"] show ?case by (auto simp: run_readers_def split: if_splits)
qed (simp add: run_readers_def)

lemma reader_ends:
  assumes "rs_readers s r = reader_start h key" and "3 * nslots h + 10 \<le> count_list ps (Some r)"
  shows "\<exists>v. rs_readers (run_readers c h keys ps s) r = RdDone v"
  using run_reader_cost [of c h keys ps s r] assms
  by (cases "rs_readers (run_readers c h keys ps s) r") (auto simp: reader_start_def)

section \<open>What a probe finds, by positions\<close>

fun find_slot :: "nat \<Rightarrow> shm_map \<Rightarrow> shm_mem \<Rightarrow> inode_key \<Rightarrow> u32 \<Rightarrow> u32 option" where
  "find_slot 0 h m k idx = None"
| "find_slot (Suc t) h m k idx =
     (if is_empty_at m (unat idx) then None
      else if holds_at m (unat idx) k then Some idx
      else find_slot t h m k ((idx + 1) mod sm_slot_count h))"

lemma probe_find:
  "unat idx < nslots h \<Longrightarrow> probe_loop t h m (fst k) (snd k) idx r = Found i \<longleftrightarrow> find_slot t h m k idx = Some i"
  by (induction t arbitrary: idx r) (simp_all add: probe_step next_index_less)

definition find_entry :: "xattrs serde \<Rightarrow> nat \<Rightarrow> shm_map \<Rightarrow> shm_mem \<Rightarrow> inode_key \<Rightarrow> u32 \<Rightarrow> fake_inode option" where
  "find_entry c t h m k idx = map_option (\<lambda>i. entry_at c m (unat i)) (find_slot t h m k idx)"

lemma get_find:
  assumes "0 < nslots h"
  shows "shm_get_inode c h m k = find_entry c (nslots h) h m k (shm_hash h (fst k) (snd k))"
proof -
  have start: "unat (shm_hash h (fst k) (snd k)) < nslots h"
    using home_less [OF assms, of k] by (simp add: home_def)
  show ?thesis
  proof (cases "shm_probe h m (fst k) (snd k)")
    case (Found i)
    have "shm_get_inode c h m k = Some (entry_at c m (unat i))"
      by (cases k) (use Found in \<open>auto simp: shm_get_inode_def entry_at_def fake_inode_new_def
         shm_slot_def read_xattrs_def xattr_page_def Let_def\<close>)
    then show ?thesis using probe_find [OF start] Found by (simp add: shm_probe_def find_entry_def)
  qed (use probe_find [OF start, of "nslots h" m k None] in \<open>auto simp: shm_get_inode_def case_prod_beta
      shm_probe_def find_entry_def split: option.split\<close>)
qed

section \<open>Memory that a reader cannot tell apart\<close>

text \<open>
  Slots may differ as long as a lookup of \<open>k\<close> goes on past them either way: they stay empty or
  not, those that were not live are not, and those that were live keep a key that is not \<open>k\<close>.
\<close>

definition same_slot :: "shm_mem \<Rightarrow> shm_mem \<Rightarrow> nat \<Rightarrow> bool" where
  "same_slot m0 m q \<longleftrightarrow> sh_slots m ! q = sh_slots m0 ! q \<and> sh_pages m ! q = sh_pages m0 ! q"

definition undisturbed :: "shm_map \<Rightarrow> shm_mem \<Rightarrow> shm_mem \<Rightarrow> inode_key \<Rightarrow> bool" where
  "undisturbed h m0 m k \<longleftrightarrow> (\<forall>q<nslots h. same_slot m0 m q \<or>
     (is_empty_at m q \<longleftrightarrow> is_empty_at m0 q) \<and>
     (if is_live_at m0 q then key_at m q = key_at m0 q \<and> key_at m0 q \<noteq> k else \<not> is_live_at m q))"

lemma undisturbed_refl [simp]: "undisturbed h m m k"
  by (simp add: undisturbed_def same_slot_def)

lemma undisturbedD:
  assumes "undisturbed h m0 m k" and "q < nslots h"
  shows "is_empty_at m q \<longleftrightarrow> is_empty_at m0 q" and "is_live_at m q \<Longrightarrow> is_live_at m0 q"
    and "holds_at m0 q k \<Longrightarrow> same_slot m0 m q"
    and "is_live_at m0 q \<Longrightarrow> key_at m q = key_at m0 q"
  using assms by (auto simp: undisturbed_def same_slot_def slot_state_defs split: if_splits)

text \<open>Where a reader is when it is going to return \<open>v\<close> in memory \<open>m\<close>.\<close>

definition at_entry ::
    "xattrs serde \<Rightarrow> shm_map \<Rightarrow> shm_mem \<Rightarrow> inode_key \<Rightarrow> fake_inode option \<Rightarrow> u32 \<Rightarrow> bool" where
  "at_entry c h m k v idx \<longleftrightarrow> unat idx < nslots h \<and> holds_at m (unat idx) k \<and>
     v = Some (entry_at c m (unat idx))"

fun reader_ok ::
    "xattrs serde \<Rightarrow> shm_map \<Rightarrow> shm_mem \<Rightarrow> inode_key \<Rightarrow> fake_inode option \<Rightarrow> reader \<Rightarrow> bool" where
  "reader_ok c h m k v (RdOccupied t idx) \<longleftrightarrow> unat idx < nslots h \<and> find_entry c t h m k idx = v"
| "reader_ok c h m k v (RdDev t idx) \<longleftrightarrow> unat idx < nslots h \<and> is_live_at m (unat idx) \<and>
     find_entry c (Suc t) h m k idx = v"
| "reader_ok c h m k v (RdIno t idx) \<longleftrightarrow> unat idx < nslots h \<and> is_live_at m (unat idx) \<and>
     sl_dev (shm_slot m idx) = fst k \<and> find_entry c (Suc t) h m k idx = v"
| "reader_ok c h m k v (RdUid idx) \<longleftrightarrow> at_entry c h m k v idx"
| "reader_ok c h m k v (RdGid idx u) \<longleftrightarrow> at_entry c h m k v idx \<and> u = i_uid (the v)"
| "reader_ok c h m k v (RdMode idx n) \<longleftrightarrow> at_entry c h m k v idx \<and>
     n = fake_inode_new (i_uid (the v)) (i_gid (the v))"
| "reader_ok c h m k v (RdModeValue idx n) \<longleftrightarrow> at_entry c h m k v idx \<and>
     n = fake_inode_new (i_uid (the v)) (i_gid (the v)) \<and> i_mode (the v) \<noteq> None"
| "reader_ok c h m k v (RdRdev idx n) \<longleftrightarrow> at_entry c h m k v idx \<and>
     n = (the v)\<lparr>i_rdev := None, i_xattrs := fmempty\<rparr>"
| "reader_ok c h m k v (RdRdevValue idx n) \<longleftrightarrow> at_entry c h m k v idx \<and>
     n = (the v)\<lparr>i_rdev := None, i_xattrs := fmempty\<rparr> \<and> i_rdev (the v) \<noteq> None"
| "reader_ok c h m k v (RdLen idx n) \<longleftrightarrow> at_entry c h m k v idx \<and> n = (the v)\<lparr>i_xattrs := fmempty\<rparr>"
| "reader_ok c h m k v (RdBytes idx n len) \<longleftrightarrow> at_entry c h m k v idx \<and> n = (the v)\<lparr>i_xattrs := fmempty\<rparr> \<and>
     len = unat (of_le32 (take 4 (xattr_page m idx))) \<and> len \<noteq> 0 \<and> len \<le> XATTR_PAGE_SIZE - 4"
| "reader_ok c h m k v (RdDone r) \<longleftrightarrow> r = v"

lemma entry_fields:
  "i_uid (entry_at c m (unat idx)) = sl_uid (shm_slot m idx)"
  "i_gid (entry_at c m (unat idx)) = sl_gid (shm_slot m idx)"
  "i_mode (entry_at c m (unat idx)) = (if sl_mode (shm_slot m idx) = 0 then None else Some (sl_mode (shm_slot m idx)))"
  "i_rdev (entry_at c m (unat idx)) = (if sl_rdev (shm_slot m idx) = 0 then None else Some (sl_rdev (shm_slot m idx)))"
  "i_xattrs (entry_at c m (unat idx)) = decode_page c (xattr_page m idx)"
  by (simp_all add: entry_at_def shm_slot_def xattr_page_def)

text \<open>The loads of the fields, in memory that has the entry as it was.\<close>

fun field_slot :: "reader \<Rightarrow> u32 option" where
  "field_slot (RdUid idx) = Some idx"
| "field_slot (RdGid idx u) = Some idx"
| "field_slot (RdMode idx n) = Some idx"
| "field_slot (RdModeValue idx n) = Some idx"
| "field_slot (RdRdev idx n) = Some idx"
| "field_slot (RdRdevValue idx n) = Some idx"
| "field_slot (RdLen idx n) = Some idx"
| "field_slot (RdBytes idx n len) = Some idx"
| "field_slot rd = None"

lemma field_entry: "field_slot rd = Some idx \<Longrightarrow> reader_ok c h m k v rd \<Longrightarrow> at_entry c h m k v idx"
  by (cases rd) simp_all

lemma field_step:
  assumes "field_slot rd = Some idx" and "reader_ok c h m0 k v rd"
    and "shm_slot m idx = shm_slot m0 idx" and "xattr_page m idx = xattr_page m0 idx"
  shows "reader_ok c h m0 k v (reader_step c h k rd m)"
proof -
  have at: "at_entry c h m0 k v idx" by (rule field_entry [OF assms(1,2)])
  then have v: "v = Some (entry_at c m0 (unat idx))" by (simp add: at_entry_def)
  show ?thesis
    using assms(1,2) at unfolding v
    by (cases rd) (auto simp: assms(3,4) entry_fields fake_inode_new_def decode_page_def Let_def
        intro!: fake_inode_eqI split: option.split if_splits)
qed

lemma undisturbed_entry:
  assumes "undisturbed h m0 m k" and "at_entry c h m0 k v idx"
  shows "shm_slot m idx = shm_slot m0 idx" and "xattr_page m idx = xattr_page m0 idx"
  using undisturbedD(3) [OF assms(1), of "unat idx"] assms(2)
  by (simp_all add: at_entry_def same_slot_def shm_slot_def xattr_page_def)

lemma find_entry_Suc:
  "find_entry c (Suc t) h m k idx =
     (if is_empty_at m (unat idx) then None
      else if holds_at m (unat idx) k then Some (entry_at c m (unat idx))
      else find_entry c t h m k ((idx + 1) mod sm_slot_count h))"
  by (simp add: find_entry_def)

lemma reader_ok_step:
  assumes same: "undisturbed h m0 m k" and ok: "reader_ok c h m0 k v rd"
  shows "reader_ok c h m0 k v (reader_step c h k rd m)"
proof (cases "field_slot rd")
  case (Some idx)
  from field_step [OF Some ok undisturbed_entry [OF same field_entry [OF Some ok]]] show ?thesis .
next
  case None
  show ?thesis
  proof (cases rd)
    case (RdOccupied t idx)
    show ?thesis
    proof (cases t)
      case 0
      with RdOccupied show ?thesis using ok by (auto simp: find_entry_def)
    next
      case (Suc t)
      have idx: "unat idx < nslots h" using ok RdOccupied by simp
      note D = undisturbedD(1,2) [OF same idx]
      show ?thesis
        using ok RdOccupied Suc D idx next_index_less [OF idx] same [unfolded undisturbed_def, rule_format, OF idx]
        by (auto simp: find_entry_Suc slot_state_defs shm_slot_def same_slot_def slot_codes split: if_splits)
    qed
  next
    case (RdDev t idx)
    have idx: "unat idx < nslots h" and live: "is_live_at m0 (unat idx)" using ok RdDev by simp_all
    note D = undisturbedD(4) [OF same idx live]
    show ?thesis
      using ok RdDev D live idx next_index_less [OF idx]
      by (auto simp: find_entry_Suc slot_state_defs shm_slot_def slot_codes)
  next
    case (RdIno t idx)
    have idx: "unat idx < nslots h" and live: "is_live_at m0 (unat idx)" using ok RdIno by simp_all
    note D = undisturbedD(4) [OF same idx live]
    show ?thesis
      using ok RdIno D live idx next_index_less [OF idx]
      by (auto simp: find_entry_Suc slot_state_defs shm_slot_def slot_codes at_entry_def prod_eq_iff)
  qed (use ok None in simp_all)
qed

section \<open>The way a reader has come\<close>

text \<open>A reader that still probes has gone past the slots from the home of its key on.\<close>

definition came_to :: "shm_map \<Rightarrow> shm_mem \<Rightarrow> inode_key \<Rightarrow> nat \<Rightarrow> u32 \<Rightarrow> bool" where
  "came_to h m k t idx \<longleftrightarrow> (\<exists>j. j + t = nslots h \<and> unat idx = path_pos h (home h k) j \<and> passed h m k (home h k) j)"

fun came :: "shm_map \<Rightarrow> shm_mem \<Rightarrow> inode_key \<Rightarrow> reader \<Rightarrow> bool" where
  "came h m k (RdOccupied t idx) = came_to h m k t idx"
| "came h m k (RdDev t idx) = came_to h m k (Suc t) idx"
| "came h m k (RdIno t idx) = came_to h m k (Suc t) idx"
| "came h m k rd = True"

lemma came_next:
  assumes "came_to h m k (Suc t) idx" and "unat idx < nslots h"
    and "\<not> is_empty_at m (unat idx)" and "\<not> holds_at m (unat idx) k"
  shows "came_to h m k t ((idx + 1) mod sm_slot_count h)"
proof -
  obtain j where j: "j + Suc t = nslots h" "unat idx = path_pos h (home h k) j" "passed h m k (home h k) j"
    using assms(1) by (auto simp: came_to_def)
  have "path_pos h (path_pos h (home h k) j) (Suc 0) = path_pos h (home h k) (Suc j)"
    by (simp add: path_pos_def mod_simps)
  then have "unat ((idx + 1) mod sm_slot_count h) = path_pos h (home h k) (Suc j)"
    using next_index [OF assms(2)] j(2) by simp
  moreover have "passed h m k (home h k) (Suc j)"
    using j(2,3) assms(3,4) by (auto simp: passed_def less_Suc_eq)
  ultimately show ?thesis using j(1) unfolding came_to_def by (intro exI [of _ "Suc j"]) simp
qed

lemma came_step:
  assumes same: "undisturbed h m0 m k" and ok: "reader_ok c h m0 k v rd" and came: "came h m0 k rd"
  shows "came h m0 k (reader_step c h k rd m)"
proof (cases rd)
  case (RdOccupied t idx)
  then have idx: "unat idx < nslots h" using ok by simp
  have "\<not> holds_at m0 (unat idx) k" if "\<not> is_live_at m (unat idx)"
    using undisturbedD(3) [OF same idx] that by (auto simp: same_slot_def holds_at_def is_live_at_def)
  then show ?thesis
    using came RdOccupied undisturbedD(1) [OF same idx] came_next [OF _ idx]
    by (cases t) (simp_all add: is_empty_at_def is_live_at_def shm_slot_def)
next
  case (RdDev t idx)
  have idx: "unat idx < nslots h" and live: "is_live_at m0 (unat idx)" using ok RdDev by simp_all
  have "\<not> holds_at m0 (unat idx) k" if "sl_dev (shm_slot m idx) \<noteq> fst k"
    using that undisturbedD(4) [OF same idx live] by (auto simp: holds_at_def key_at_def shm_slot_def)
  then show ?thesis
    using came RdDev slot_states_disjoint(1) [OF live] came_next [OF _ idx] by simp
next
  case (RdIno t idx)
  have idx: "unat idx < nslots h" and live: "is_live_at m0 (unat idx)" using ok RdIno by simp_all
  have "\<not> holds_at m0 (unat idx) k" if "sl_ino (shm_slot m idx) \<noteq> snd k"
    using that undisturbedD(4) [OF same idx live] by (auto simp: holds_at_def key_at_def shm_slot_def)
  then show ?thesis
    using came RdIno slot_states_disjoint(1) [OF live] came_next [OF _ idx] by simp
qed (simp_all add: Let_def)

lemma find_same:
  assumes "\<And>q. q < nslots h \<Longrightarrow> q \<noteq> i \<Longrightarrow> same_slot m0 m q"
  shows "unat idx < nslots h \<Longrightarrow> \<forall>l<t. path_pos h (unat idx) l \<noteq> i \<Longrightarrow>
    find_entry c t h m k idx = find_entry c t h m0 k idx"
proof (induction t arbitrary: idx)
  case (Suc t)
  have "same_slot m0 m (unat idx)" using assms Suc.prems by (auto simp: All_less_Suc2)
  moreover have "\<forall>l<t. path_pos h (unat ((idx + 1) mod sm_slot_count h)) l \<noteq> i"
    using Suc.prems by (simp add: All_less_Suc2 next_index path_pos_Suc)
  ultimately show ?case
    using Suc.IH [OF next_index_less [OF Suc.prems(1)]]
    by (simp add: find_entry_Suc slot_state_defs same_slot_def entry_at_def)
qed (simp add: find_entry_def)

lemma find_passed:
  "unat idx < nslots h \<Longrightarrow> passed h m k (unat idx) j \<Longrightarrow> unat idx' = path_pos h (unat idx) j \<Longrightarrow>
     find_entry c (j + t) h m k idx = find_entry c t h m k idx'"
proof (induction j arbitrary: idx)
  case 0
  then have "idx' = idx" by (simp add: word_unat_eq_iff)
  then show ?case by simp
next
  case (Suc j)
  let ?n = "(idx + 1) mod sm_slot_count h"
  have "passed h m k (unat ?n) j" "unat idx' = path_pos h (unat ?n) j"
    using Suc.prems by (simp_all add: passed_Suc next_index path_pos_Suc)
  then show ?case
    using Suc.IH [OF next_index_less [OF Suc.prems(1)]] Suc.prems by (simp add: find_entry_Suc passed_Suc)
qed

text \<open>When a slot that was not live is filled in one store, a reader returns the old or the new.\<close>

lemma publish_find:
  assumes "came_to h m0 k t idx" and "unat idx < nslots h" and "0 < nslots h"
    and same: "\<And>q. q < nslots h \<Longrightarrow> q \<noteq> i \<Longrightarrow> same_slot m0 m q"
  shows "find_entry c t h m k idx = find_entry c t h m0 k idx \<or>
    find_entry c t h m k idx = shm_get_inode c h m k"
proof (cases "\<exists>l<t. path_pos h (unat idx) l = i")
  case False
  then show ?thesis using find_same [OF same assms(2), of i t] by blast
next
  case True
  then obtain l where l: "l < t" "path_pos h (unat idx) l = i" by blast
  obtain j where j: "j + t = nslots h" "unat idx = path_pos h (home h k) j" "passed h m0 k (home h k) j"
    using assms(1) by (auto simp: came_to_def)
  let ?s = "shm_hash h (fst k) (snd k)"
  have s: "unat ?s = home h k" "home h k < nslots h" using home_less [OF assms(3)] by (simp_all add: home_def)
  have i: "i = path_pos h (home h k) (j + l)" using l(2) j(2) by (simp add: path_pos_def mod_simps add.assoc)
  have "path_pos h (home h k) l' \<noteq> i" if "l' < j" for l'
    using path_pos_inj [of l' h "j + l" "home h k"] that i j(1) l(1) by auto
  then have "same_slot m0 m (path_pos h (home h k) l')" if "l' < j" for l'
    using same [of "path_pos h (home h k) l'"] path_pos_less [OF assms(3)] that by blast
  then have "passed h m k (home h k) j"
    using j(3) by (simp add: passed_def slot_state_defs same_slot_def)
  then have "find_entry c (j + t) h m k ?s = find_entry c t h m k idx"
    using s j(2) by (intro find_passed) simp_all
  then show ?thesis using get_find [OF assms(3)] j(1) by simp
qed

lemma publish:
  assumes ok: "reader_ok c h m0 k v rd" and came: "came h m0 k rd" and "0 < nslots h"
    and dead: "\<not> is_live_at m0 i" and same: "\<And>q. q < nslots h \<Longrightarrow> q \<noteq> i \<Longrightarrow> same_slot m0 m q"
  shows "reader_ok c h m k v rd \<or> reader_ok c h m k (shm_get_inode c h m k) rd"
proof -
  have live: "same_slot m0 m (unat idx)" if "unat idx < nslots h" "is_live_at m0 (unat idx)" for idx :: u32
    using same that dead by metis
  show ?thesis
  proof (cases "field_slot rd")
    case (Some idx)
    have at: "at_entry c h m0 k v idx" by (rule field_entry [OF Some ok])
    then have slot: "same_slot m0 m (unat idx)" using live by (simp add: at_entry_def holds_at_def)
    then have "at_entry c h m k v idx" using at
      by (simp add: at_entry_def same_slot_def slot_state_defs entry_at_def)
    moreover have "xattr_page m idx = xattr_page m0 idx" using slot by (simp add: same_slot_def xattr_page_def)
    ultimately have "reader_ok c h m k v rd" using ok Some by (cases rd) simp_all
    then show ?thesis ..
  next
    case None
    show ?thesis
    proof (cases rd)
      case (RdOccupied t idx)
      then show ?thesis using ok came publish_find [OF _ _ assms(3) same, of k t idx i c] by auto
    next
      case (RdDev t idx)
      then have "same_slot m0 m (unat idx)" using ok live by simp
      then show ?thesis
        using RdDev ok came publish_find [OF _ _ assms(3) same, of k "Suc t" idx i c]
        by (auto simp: same_slot_def slot_state_defs)
    next
      case (RdIno t idx)
      then have "same_slot m0 m (unat idx)" using ok live by simp
      then show ?thesis
        using RdIno ok came publish_find [OF _ _ assms(3) same, of k "Suc t" idx i c]
        by (auto simp: same_slot_def slot_state_defs shm_slot_def)
    qed (use ok None in simp_all)
  qed
qed

section \<open>What the stores of an operation show a reader\<close>

definition publishes :: "shm_map \<Rightarrow> shm_mem \<Rightarrow> shm_mem \<Rightarrow> bool" where
  "publishes h m0 m \<longleftrightarrow> (\<exists>i. \<not> is_live_at m0 i \<and> (\<forall>q<nslots h. q \<noteq> i \<longrightarrow> same_slot m0 m q))"

text \<open>After each of the stores the reader notices nothing, or it was the last and fills one slot in.\<close>

fun quiet :: "shm_map \<Rightarrow> shm_mem \<Rightarrow> inode_key \<Rightarrow> shm_store list \<Rightarrow> shm_mem \<Rightarrow> bool" where
  "quiet h m0 k [] m = True"
| "quiet h m0 k (w # ws) m =
     ((undisturbed h m0 (do_store w m) k \<and> quiet h m0 k ws (do_store w m)) \<or>
      (ws = [] \<and> publishes h m0 (do_store w m)))"

lemma do_store_lengths:
  "length (sh_slots (do_store w m)) = length (sh_slots m)" "length (sh_pages (do_store w m)) = length (sh_pages m)"
  by (cases w; simp add: modify_slot_def set_page_def)+

lemma do_store_same:
  "q \<noteq> unat (store_slot w) \<Longrightarrow> same_slot m0 m q \<Longrightarrow> same_slot m0 (do_store w m) q"
  by (cases w) (simp_all add: same_slot_def modify_slot_def set_page_def)

lemma entry_stores_quiet:
  assumes here: "holds_at m0 (unat i) k'" and "k' \<noteq> k"
  shows "\<forall>w\<in>set ws. entry_store i w \<Longrightarrow> unat i < length (sh_slots m) \<Longrightarrow>
    \<forall>q. q \<noteq> unat i \<longrightarrow> same_slot m0 m q \<Longrightarrow> key_at m (unat i) = k' \<Longrightarrow> \<not> is_empty_at m (unat i) \<Longrightarrow>
    quiet h m0 k ws m"
proof (induction ws arbitrary: m)
  case (Cons w ws)
  let ?m = "do_store w m"
  have slot: "store_slot w = i" and w: "entry_store i w"
    using Cons.prems(1) entry_store_slot [of i w] by simp_all
  have others: "\<forall>q. q \<noteq> unat i \<longrightarrow> same_slot m0 ?m q"
    using Cons.prems(3) do_store_same [of _ w m0 m] slot by simp
  have key: "key_at ?m (unat i) = k'" and full: "\<not> is_empty_at ?m (unat i)"
    using w Cons.prems(2,4,5)
    by (cases w; simp add: modify_slot_def set_page_def slot_state_defs slot_codes)+
  have "undisturbed h m0 ?m k"
    unfolding undisturbed_def
  proof (intro allI impI)
    fix q assume "q < nslots h"
    show "same_slot m0 ?m q \<or> (is_empty_at ?m q \<longleftrightarrow> is_empty_at m0 q) \<and>
        (if is_live_at m0 q then key_at ?m q = key_at m0 q \<and> key_at m0 q \<noteq> k else \<not> is_live_at ?m q)"
      using others key full here assms(2) slot_states_disjoint(1) [of m0 "unat i"]
      by (cases "q = unat i") (simp_all add: holds_at_def)
  qed
  then show ?case
    using Cons.IH [OF _ _ others key full] Cons.prems(1,2) do_store_lengths by simp
qed simp

fun fills :: "u32 \<Rightarrow> shm_store \<Rightarrow> bool" where
  "fills i (SetOccupied j v) = False"
| "fills i w = (store_slot w = i)"

lemma fill_stores_quiet:
  assumes dead: "\<not> is_live_at m0 (unat i)" and "store_slot final = i"
  shows "\<forall>w\<in>set ws. fills i w \<Longrightarrow> unat i < length (sh_slots m) \<Longrightarrow>
    \<forall>q. q \<noteq> unat i \<longrightarrow> same_slot m0 m q \<Longrightarrow>
    sl_occupied (sh_slots m ! unat i) = sl_occupied (sh_slots m0 ! unat i) \<Longrightarrow>
    quiet h m0 k (ws @ [final]) m"
proof (induction ws arbitrary: m)
  case Nil
  then have "publishes h m0 (do_store final m)"
    using dead do_store_same [of _ final m0 m] assms(2) by (auto simp: publishes_def)
  then show ?case by simp
next
  case (Cons w ws)
  let ?m = "do_store w m"
  have w: "fills i w" "store_slot w = i" using Cons.prems(1) by (auto elim: fills.elims)
  have others: "\<forall>q. q \<noteq> unat i \<longrightarrow> same_slot m0 ?m q"
    using Cons.prems(3) do_store_same [of _ w m0 m] w(2) by simp
  have occ: "sl_occupied (sh_slots ?m ! unat i) = sl_occupied (sh_slots m0 ! unat i)"
    using w Cons.prems(2,4) by (cases w) (simp_all add: modify_slot_def set_page_def)
  have "undisturbed h m0 ?m k"
    unfolding undisturbed_def
  proof (intro allI impI)
    fix q assume "q < nslots h"
    show "same_slot m0 ?m q \<or> (is_empty_at ?m q \<longleftrightarrow> is_empty_at m0 q) \<and>
        (if is_live_at m0 q then key_at ?m q = key_at m0 q \<and> key_at m0 q \<noteq> k else \<not> is_live_at ?m q)"
      using others occ dead by (cases "q = unat i") (simp_all add: is_live_at_def is_empty_at_def)
  qed
  then show ?case
    using Cons.IH [OF _ _ others occ] Cons.prems(1,2) do_store_lengths by simp
qed

lemma xattr_stores_fill: "w \<in> set (xattr_stores c i x) \<Longrightarrow> fills i w"
  by (auto simp: xattr_stores_def split: if_splits option.splits)

lemma op_quiet:
  assumes wf: "table_wf h m0" and other: "op_key x \<noteq> k \<or> shm_get_inode c h m0 (op_key x) = None"
  shows "quiet h m0 k (op_stores c x (shm_probe h m0 (fst (op_key x)) (snd (op_key x)))) m0"
proof (cases "shm_probe h m0 (fst (op_key x)) (snd (op_key x))")
  case (Found i)
  have i: "unat i < nslots h" "holds_at m0 (unat i) (op_key x)"
    using probe_Found [OF table_wfD(1) [OF wf] Found] by simp_all
  have "shm_get_inode c h m0 (op_key x) \<noteq> None" using Found by (simp add: shm_get_inode_def case_prod_beta Let_def)
  with other have "op_key x \<noteq> k" by blast
  have "\<forall>w\<in>set (op_stores c x (Found i)). entry_store i w" using op_stores_entry by blast
  then show ?thesis
    unfolding Found
    using i table_wfD(2) [OF wf] slot_states_disjoint(1)
    by (intro entry_stores_quiet [OF i(2) \<open>op_key x \<noteq> k\<close>]) (auto simp: same_slot_def holds_at_def)
next
  case (Vacant i)
  note i = probe_Vacant(1) [OF wf Vacant] and dead = probe_Vacant(2) [OF wf Vacant]
  have len: "unat i < length (sh_slots m0)" using i table_wfD(2) [OF wf] by simp
  note fill = fill_stores_quiet [OF dead, of "SetOccupied i SLOT_LIVE" _ m0 h k, OF _ _ len]
  show ?thesis
    unfolding Vacant
  proof (cases x)
    case (Chown key u g du dg)
    have "op_stores c x (Vacant i) = (xattr_stores c i fmempty @ [SetDev i (fst key), SetIno i (snd key),
        SetUid i (if u = ID_UNCHANGED then du else u), SetGid i (if g = ID_UNCHANGED then dg else g),
        SetMode i 0, SetRdev i 0]) @ [SetOccupied i SLOT_LIVE]"
      by (simp add: Chown)
    then show "quiet h m0 k (op_stores c x (Vacant i)) m0"
      using fill xattr_stores_fill by (simp only:) (intro fill; auto simp: same_slot_def)
  next
    case (Upsert key n)
    have "op_stores c x (Vacant i) = (xattr_stores c i (i_xattrs n) @ [SetDev i (fst key), SetIno i (snd key),
        SetUid i (i_uid n), SetGid i (i_gid n), SetMode i (unwrap_or_0 (i_mode n)),
        SetRdev i (unwrap_or_0 (i_rdev n))]) @ [SetOccupied i SLOT_LIVE]"
      by (simp add: Upsert)
    then show "quiet h m0 k (op_stores c x (Vacant i)) m0"
      using fill xattr_stores_fill by (simp only:) (intro fill; auto simp: same_slot_def)
  qed simp
qed simp

section \<open>Any schedule\<close>

text \<open>
  What holds of a reader: it has noticed nothing yet and the stores to come are such that it
  will not, except perhaps the last; or all are made, and it is going to return what the lookup
  returns before the operation or after it.
\<close>

definition reader_inv ::
    "xattrs serde \<Rightarrow> shm_map \<Rightarrow> shm_mem \<Rightarrow> shm_mem \<Rightarrow> inode_key \<Rightarrow> shm_pc \<Rightarrow> shm_mem \<Rightarrow> reader \<Rightarrow> bool" where
  "reader_inv c h m0 m1 k pc m rd \<longleftrightarrow> (\<exists>vs. pending c h m pc = Some vs \<and> fold do_store vs m = m1 \<and>
     ((undisturbed h m0 m k \<and> reader_ok c h m0 k (shm_get_inode c h m0 k) rd \<and> came h m0 k rd \<and>
       quiet h m0 k vs m) \<or>
      (vs = [] \<and> (reader_ok c h m k (shm_get_inode c h m0 k) rd \<or> reader_ok c h m k (shm_get_inode c h m k) rd))))"

lemma pending_any_step:
  assumes "pending c h m pc = Some vs" and "pc_step c h pc m = (pc', m')"
  shows "(m' = m \<and> pending c h m' pc' = Some vs) \<or>
    (\<exists>w ws. vs = w # ws \<and> m' = do_store w m \<and> pending c h m' pc' = Some ws)"
proof (cases "pc = Storing vs")
  case True
  with assms show ?thesis by (cases vs) auto
next
  case False
  with pending_step [OF assms(1) _ assms(2)] show ?thesis by simp
qed

lemma writer_inv:
  assumes "0 < nslots h" and inv: "reader_inv c h m0 m1 k pc m rd" and step: "pc_step c h pc m = (pc', m')"
  shows "reader_inv c h m0 m1 k pc' m' rd"
proof -
  obtain vs where vs: "pending c h m pc = Some vs" "fold do_store vs m = m1"
    and cases: "(undisturbed h m0 m k \<and> reader_ok c h m0 k (shm_get_inode c h m0 k) rd \<and> came h m0 k rd \<and>
       quiet h m0 k vs m) \<or>
      (vs = [] \<and> (reader_ok c h m k (shm_get_inode c h m0 k) rd \<or> reader_ok c h m k (shm_get_inode c h m k) rd))"
    using inv by (auto simp: reader_inv_def)
  from pending_any_step [OF vs(1) step] show ?thesis
  proof (elim disjE exE conjE)
    assume "m' = m" "pending c h m' pc' = Some vs"
    then show ?thesis using vs(2) cases unfolding reader_inv_def by blast
  next
    fix w ws assume w: "vs = w # ws" "m' = do_store w m" "pending c h m' pc' = Some ws"
    then have old: "reader_ok c h m0 k (shm_get_inode c h m0 k) rd" "came h m0 k rd"
        "quiet h m0 k (w # ws) m" and m1: "fold do_store ws m' = m1"
      using cases vs(2) by simp_all
    from old(3) show ?thesis
      unfolding quiet.simps
    proof (elim disjE conjE)
      assume "undisturbed h m0 (do_store w m) k" "quiet h m0 k ws (do_store w m)"
      then show ?thesis using w old m1 unfolding reader_inv_def by blast
    next
      assume ws: "ws = []" and "publishes h m0 (do_store w m)"
      then obtain i where "\<not> is_live_at m0 i" "\<And>q. q < nslots h \<Longrightarrow> q \<noteq> i \<Longrightarrow> same_slot m0 m' q"
        using w(2) by (auto simp: publishes_def)
      from publish [OF old(1,2) assms(1) this] ws w(3) m1 show ?thesis unfolding reader_inv_def by blast
    qed
  qed
qed

lemma reading_inv:
  assumes "reader_inv c h m0 m1 k pc m rd"
  shows "reader_inv c h m0 m1 k pc m (reader_step c h k rd m)"
  using assms reader_ok_step [of h m0 m k c "shm_get_inode c h m0 k" rd] came_step [of h m0 m k c _ rd]
    reader_ok_step [OF undisturbed_refl, of c h m k _ rd]
  unfolding reader_inv_def by blast

lemma run_reader_inv:
  assumes "0 < nslots h"
  shows "reader_inv c h m0 m1 (keys r) (rs_writer s) (rs_mem s) (rs_readers s r) \<Longrightarrow>
    reader_inv c h m0 m1 (keys r) (rs_writer (run_readers c h keys ps s)) (rs_mem (run_readers c h keys ps s))
      (rs_readers (run_readers c h keys ps s) r)"
proof (induction ps arbitrary: s)
  case (Cons p ps)
  have "reader_inv c h m0 m1 (keys r) (rs_writer (readers_step c h keys p s)) (rs_mem (readers_step c h keys p s))
      (rs_readers (readers_step c h keys p s) r)"
  proof (cases p)
    case None
    obtain pc m where step: "pc_step c h (rs_writer s) (rs_mem s) = (pc, m)" by fastforce
    show ?thesis using writer_inv [OF assms Cons.prems step] by (simp add: None readers_step_def step)
  next
    case (Some q)
    then show ?thesis
      using Cons.prems reading_inv [OF Cons.prems] by (cases "q = r") (simp_all add: readers_step_def)
  qed
  from Cons.IH [OF this] show ?case by (simp add: run_readers_def)
qed (simp add: run_readers_def)

lemma start_reader_inv:
  assumes wf: "table_wf h m" and "op_key x \<noteq> k \<or> shm_get_inode c h m (op_key x) = None"
  shows "reader_inv c h m (shm_step c h x m) k (op_start h x) m (reader_start h k)"
proof -
  note N = table_wfD(1) [OF wf]
  have "pending c h m (op_start h x) = Some (op_stores c x (shm_probe h m (fst (op_key x)) (snd (op_key x))))"
    by (simp add: op_start_def shm_probe_def)
  moreover have "reader_ok c h m k (shm_get_inode c h m k) (reader_start h k)"
    using get_find [OF N] home_less [OF N, of k] by (simp add: reader_start_def home_def)
  moreover have "came h m k (reader_start h k)"
    using home_less [OF N, of k] by (auto simp: reader_start_def came_to_def home_def intro!: exI [of _ 0])
  ultimately show ?thesis
    using op_quiet [OF assms] op_stores_effect [of c x h m] unfolding reader_inv_def by simp
qed

text \<open>
  A lookup of the very entry that is changed has no such promise: between the two stores of a
  chown it finds the new owner with the old group.
\<close>

lemma lookup_inside_chown:
  assumes "shm_inv c h m" and "shm_probe h m (fst k) (snd k) = Found i"
    and "u \<noteq> ID_UNCHANGED" and "g \<noteq> ID_UNCHANGED"
  shows "op_stores c (Chown k u g du dg) (Found i) = [SetUid i u, SetGid i g]"
    and "\<exists>e. shm_get_inode c h m k = Some e \<and>
      shm_get_inode c h (do_store (SetUid i u) m) k = Some (e\<lparr>i_uid := u\<rparr>)"
proof -
  show "op_stores c (Chown k u g du dg) (Found i) = [SetUid i u, SetGid i g]" using assms(3,4) by simp
  obtain e where e: "shm_get_inode c h m k = Some e"
    using assms(2) by (auto simp: shm_get_inode_def case_prod_beta Let_def)
  have "do_store (SetUid i u) m = shm_upsert_chown c h k u ID_UNCHANGED 0 0 m"
    using assms(2,3) by (simp add: shm_upsert_chown_def case_prod_beta)
  then show "\<exists>e. shm_get_inode c h m k = Some e \<and>
      shm_get_inode c h (do_store (SetUid i u) m) k = Some (e\<lparr>i_uid := u\<rparr>)"
    using e shm.lookup_chown [OF assms(1) shm.room_present [OF assms(1) e], of u ID_UNCHANGED 0 0] assms(3)
    by (simp add: merge_ids_def)
qed

section \<open>Property\<close>

text \<open>
  C7: A lookup that runs while another process changes the table returns, under every
  interleaving of their accesses and of those of any number of other lookups, what it would
  return before the whole change or after it, as long as the change enters a new key or is one
  of another key than is looked up; and it returns after at most three loads per slot and ten
  more.
\<close>

theorem lookup_during_change_is_atomic:
  assumes "shm_inv c h m"
    and "op_key x \<noteq> keys r \<or> shm_get_inode c h m (op_key x) = None"
    and "3 * nslots h + 10 \<le> count_list schedule (Some r)"
  shows "\<exists>v. rs_readers (run_readers c h keys schedule (readers_start h keys x m)) r = RdDone v \<and>
    (v = shm_get_inode c h m (keys r) \<or> v = shm_get_inode c h (shm_step c h x m) (keys r))"
proof -
  let ?s = "run_readers c h keys schedule (readers_start h keys x m)"
  note wf = shm_invD(2) [OF assms(1)]
  obtain v where v: "rs_readers ?s r = RdDone v"
    using reader_ends [of "readers_start h keys x m" r h "keys r" schedule c keys] assms(3)
    by (auto simp: readers_start_def)
  have "reader_inv c h m (shm_step c h x m) (keys r) (rs_writer ?s) (rs_mem ?s) (rs_readers ?s r)"
    using start_reader_inv [OF wf assms(2)]
    by (intro run_reader_inv [OF table_wfD(1) [OF wf]]) (simp add: readers_start_def)
  then have "v = shm_get_inode c h m (keys r) \<or> v = shm_get_inode c h (shm_step c h x m) (keys r)"
    unfolding reader_inv_def v by auto
  with v show ?thesis by blast
qed

theorem lookup_during_change_is_atomic_witness:
  "\<exists>h m v. rs_readers (run_readers xattrs_serde h (\<lambda>_. (9, 42)) (Some 0 # None # replicate 196618 (Some 0))
      (readers_start h (\<lambda>_. (9, 42)) (Chown (9, 42) 5 6 0 0) m)) 0 = RdDone v \<and>
    (v = None \<or> v = Some (fake_inode_new 5 6))"
proof -
  obtain h m where hm: "shm_create os_all_ok 65536 0 0 = Inr (h, m)" "nslots h = 65536"
    by (rule created_example)
  let ?x = "Chown (9, 42) 5 6 0 0" and ?ps = "Some 0 # None # replicate 196618 (Some 0)"
  have count: "3 * nslots h + 10 \<le> count_list ?ps (Some 0)"
    by (simp add: hm(2) count_list_eq_length_filter filter_replicate)
  have none: "shm_get_inode xattrs_serde h m (9, 42) = None" by (rule created_empty [OF hm(1)])
  have "shm_get_inode xattrs_serde h (shm_step xattrs_serde h ?x m) (9, 42) = Some (fake_inode_new 5 6)"
    using created_refines [OF xattrs_serde_ok hm(1), of "[?x]"]
    by (simp add: hm(2) ID_UNCHANGED_def fake_inode_eqI)
  with lookup_during_change_is_atomic
    [OF created_inv [OF xattrs_serde_ok hm(1)], of ?x "\<lambda>_. (9, 42)" 0, OF _ count] none
  show ?thesis by (intro exI [of _ h] exI [of _ m]) auto
qed

end
