(* ===== verification/Shm_Torn.thy ===== *)
theory Shm_Torn
  imports Shm_Readers
begin

text \<open>
  Lookups of an entry while another process changes that very entry (\<open>get_inode\<close> against
  \<open>upsert_inode\<close>, \<open>upsert_chown\<close> and \<open>remove_inode\<close> in \<open>pseudoroot-core/src/shm_map.rs\<close>).  The
  lookup is not atomic (\<open>lookup_inside_chown\<close>); this theory says what it can return: every field
  is the one before the change or the one after it, and the entry is not missed unless it is
  being removed.
\<close>

section \<open>What a lookup may have put together\<close>

definition decode_mixed :: "xattrs serde \<Rightarrow> bytes \<Rightarrow> bytes \<Rightarrow> xattrs" where
  "decode_mixed c p q = decode_page c (take 4 p @ drop 4 q)"

text \<open>An optional field that is loaded twice, once to compare it with 0.\<close>

definition mixed_option :: "'a::zero option \<Rightarrow> 'a option \<Rightarrow> 'a option \<Rightarrow> bool" where
  "mixed_option old new v \<longleftrightarrow> v = old \<or> v = new \<or> (old \<noteq> None \<and> new = None \<and> v = Some 0)"

definition mixed_entry :: "xattrs serde \<Rightarrow> shm_mem \<Rightarrow> shm_mem \<Rightarrow> u32 \<Rightarrow> fake_inode \<Rightarrow> bool" where
  "mixed_entry c m0 m1 i e \<longleftrightarrow>
     (let old = entry_at c m0 (unat i); new = entry_at c m1 (unat i) in
      i_uid e \<in> {i_uid old, i_uid new} \<and> i_gid e \<in> {i_gid old, i_gid new} \<and>
      mixed_option (i_mode old) (i_mode new) (i_mode e) \<and>
      mixed_option (i_rdev old) (i_rdev new) (i_rdev e) \<and>
      (\<exists>p\<in>{xattr_page m0 i, xattr_page m1 i}. \<exists>q\<in>{xattr_page m0 i, xattr_page m1 i}.
         i_xattrs e = decode_mixed c p q))"

section \<open>The memory while the entry is written\<close>

text \<open>Stores that bring slot \<open>i\<close> of \<open>m0\<close> closer to what it is in \<open>m1\<close>.\<close>

fun towards :: "shm_mem \<Rightarrow> shm_mem \<Rightarrow> u32 \<Rightarrow> shm_store \<Rightarrow> bool" where
  "towards m0 m1 i (SetUid j v) = (v = sl_uid (shm_slot m1 i))"
| "towards m0 m1 i (SetGid j v) = (v = sl_gid (shm_slot m1 i))"
| "towards m0 m1 i (SetMode j v) = (v = sl_mode (shm_slot m1 i))"
| "towards m0 m1 i (SetRdev j v) = (v = sl_rdev (shm_slot m1 i))"
| "towards m0 m1 i (SetPage j off bs) =
     ((off = 0 \<and> bs = take 4 (xattr_page m1 i) \<and> length bs = 4) \<or>
      (off = 4 \<and> bs @ drop (length bs) (drop 4 (xattr_page m0 i)) = drop 4 (xattr_page m1 i)))"
| "towards m0 m1 i w = True"

lemma xattr_stores_page:
  assumes "unat i < length (sh_pages m)" and "w \<in> set (xattr_stores c i a)"
    and "xattr_page m1 i = xattr_page (fold do_store (xattr_stores c i a) m) i"
    and "xattr_page m0 i = xattr_page m i"
  shows "towards m0 m1 i w"
  using assms
  by (auto simp: xattr_stores_def set_page_def xattr_page_def copy_at_def split: if_splits option.splits)

lemma xattr_stores_slot: "shm_slot (fold do_store (xattr_stores c i a) m) j = shm_slot m j"
  by (auto simp: xattr_stores_def shm_slot_def set_page_def split: option.split)

lemma op_stores_towards:
  assumes m1: "m1 = fold do_store (op_stores c x (Found i)) m0" and w: "w \<in> set (op_stores c x (Found i))"
    and len: "unat i < length (sh_slots m0)" "unat i < length (sh_pages m0)"
  shows "towards m0 m1 i w"
proof (cases x)
  case (Chown k u g du dg)
  with m1 w len show ?thesis
    by (auto simp: shm_slot_def modify_slot_def split: if_splits)
next
  case (Upsert k n)
  let ?ws = "[SetUid i (i_uid n), SetGid i (i_gid n), SetMode i (unwrap_or_0 (i_mode n)), SetRdev i (unwrap_or_0 (i_rdev n))]"
  let ?m = "fold do_store ?ws m0"
  have m1': "m1 = fold do_store (xattr_stores c i (i_xattrs n)) ?m" using m1 Upsert by simp
  have slot: "shm_slot m1 i = shm_slot ?m i" unfolding m1' by (rule xattr_stores_slot)
  show ?thesis
  proof (cases "w \<in> set ?ws")
    case True
    then show ?thesis using len slot by (auto simp: shm_slot_def modify_slot_def)
  next
    case False
    then have "w \<in> set (xattr_stores c i (i_xattrs n))" using w Upsert by auto
    with len show ?thesis
      by (intro xattr_stores_page [of i ?m w c "i_xattrs n" m1 m0])
         (simp_all add: m1' modify_slot_def xattr_page_def)
  qed
next
  case (Remove k)
  show ?thesis
  proof (cases "w \<in> set (xattr_stores c i fmempty)")
    case True
    with len show ?thesis
      by (intro xattr_stores_page [of i m0 w c fmempty m1 m0]) (simp_all add: m1 Remove page_after_slot)
  qed (use w Remove in auto)
qed

text \<open>
  What every memory on the way has: the keys and the empty slots of \<open>m0\<close>, every field of slot
  \<open>i\<close> as it was or as it will be, and no live slot less, except slot \<open>i\<close> when it is removed.
\<close>

definition on_the_way :: "shm_map \<Rightarrow> shm_mem \<Rightarrow> shm_mem \<Rightarrow> u32 \<Rightarrow> bool \<Rightarrow> shm_mem \<Rightarrow> bool" where
  "on_the_way h m0 m1 i removing m \<longleftrightarrow>
     same_shape h m0 m \<and> length (sh_pages m) = length (sh_pages m0) \<and>
     (is_live_at m (unat i) \<or> removing) \<and>
     sl_uid (shm_slot m i) \<in> {sl_uid (shm_slot m0 i), sl_uid (shm_slot m1 i)} \<and>
     sl_gid (shm_slot m i) \<in> {sl_gid (shm_slot m0 i), sl_gid (shm_slot m1 i)} \<and>
     sl_mode (shm_slot m i) \<in> {sl_mode (shm_slot m0 i), sl_mode (shm_slot m1 i)} \<and>
     sl_rdev (shm_slot m i) \<in> {sl_rdev (shm_slot m0 i), sl_rdev (shm_slot m1 i)} \<and>
     4 \<le> length (xattr_page m i) \<and>
     take 4 (xattr_page m i) \<in> {take 4 (xattr_page m0 i), take 4 (xattr_page m1 i)} \<and>
     drop 4 (xattr_page m i) \<in> {drop 4 (xattr_page m0 i), drop 4 (xattr_page m1 i)}"

lemma on_the_way_start:
  assumes "table_wf h m0" and "unat i < nslots h" and "holds_at m0 (unat i) k"
  shows "on_the_way h m0 m1 i removing m0"
  using assms table_wfD(4) [OF assms(1,2)]
  by (simp add: on_the_way_def holds_at_def xattr_page_def XATTR_PAGE_SIZE_def)

lemma copy_at_mixed:
  assumes "4 \<le> length p" and "take 4 p \<in> {take 4 p0, take 4 p1}" and "drop 4 p \<in> {drop 4 p0, drop 4 p1}"
    and "(off = 0 \<and> bs = take 4 p1 \<and> length bs = 4) \<or> (off = 4 \<and> bs @ drop (length bs) (drop 4 p0) = drop 4 p1)"
  shows "4 \<le> length (copy_at off bs p) \<and> take 4 (copy_at off bs p) \<in> {take 4 p0, take 4 p1} \<and>
    drop 4 (copy_at off bs p) \<in> {drop 4 p0, drop 4 p1}"
proof (cases "off = 0")
  case True
  with assms show ?thesis by (auto simp: copy_at_def)
next
  case False
  then have bs: "off = 4" "bs @ drop (length bs) (drop 4 p0) = drop 4 p1" using assms(4) by simp_all
  have "bs @ drop (length bs) (drop 4 p) = drop 4 p1"
  proof (cases "drop 4 p = drop 4 p0")
    case False
    then have "drop 4 p = drop 4 p1" using assms(3) by simp
    then show ?thesis using bs(2) by (metis append_eq_conv_conj)
  qed (use bs(2) in simp)
  then have "drop 4 (copy_at off bs p) = drop 4 p1" and "take 4 (copy_at off bs p) = take 4 p"
    using assms(1) bs(1) by (simp_all add: copy_at_def add.commute)
  with assms(1,2) bs(1) show ?thesis by (simp add: copy_at_def)
qed

lemma on_the_way_store:
  assumes m: "on_the_way h m0 m1 i removing m" and w: "entry_store i w" "towards m0 m1 i w"
    and stays: "\<not> removing \<Longrightarrow> \<forall>j v. w \<noteq> SetOccupied j v"
    and wf: "table_wf h m0" and i: "unat i < nslots h" and here: "holds_at m0 (unat i) k"
  shows "on_the_way h m0 m1 i removing (do_store w m)"
proof -
  have len: "unat i < length (sh_slots m)" "unat i < length (sh_pages m)"
    using m i table_wfD(2,3) [OF wf] by (simp_all add: on_the_way_def same_shape_def)
  have full: "\<not> is_empty_at m0 (unat i)"
    using here slot_states_disjoint(1) by (auto simp: holds_at_def)
  have shape: "same_shape h m0 (do_store w m)"
    using m by (intro entry_store_shape [OF _ w(1) i full table_wfD(2) [OF wf]]) (simp add: on_the_way_def)
  show ?thesis
  proof (cases w)
    case (SetPage j off bs)
    with w have j: "j = i" by simp
    have "4 \<le> length (copy_at off bs (xattr_page m i)) \<and>
        take 4 (copy_at off bs (xattr_page m i)) \<in> {take 4 (xattr_page m0 i), take 4 (xattr_page m1 i)} \<and>
        drop 4 (copy_at off bs (xattr_page m i)) \<in> {drop 4 (xattr_page m0 i), drop 4 (xattr_page m1 i)}"
      using m w(2) SetPage by (intro copy_at_mixed) (simp_all add: on_the_way_def)
    moreover have "xattr_page (do_store w m) i = copy_at off bs (xattr_page m i)"
      using len(2) by (simp add: SetPage j set_page_def xattr_page_def)
    ultimately show ?thesis
      using m shape by (simp add: on_the_way_def SetPage j set_page_def shm_slot_def is_live_at_def)
  qed (use m w stays shape len in \<open>auto simp: on_the_way_def modify_slot_def shm_slot_def xattr_page_def
      is_live_at_def\<close>)
qed

section \<open>Where a lookup of the entry is\<close>

text \<open>The result as far as it is filled in, stage by stage.\<close>

definition owners_mixed :: "shm_mem \<Rightarrow> shm_mem \<Rightarrow> u32 \<Rightarrow> fake_inode \<Rightarrow> bool" where
  "owners_mixed m0 m1 i n \<longleftrightarrow>
     i_uid n \<in> {sl_uid (shm_slot m0 i), sl_uid (shm_slot m1 i)} \<and>
     i_gid n \<in> {sl_gid (shm_slot m0 i), sl_gid (shm_slot m1 i)}"

definition stored_option :: "'a::zero \<Rightarrow> 'a option" where
  "stored_option v = (if v = 0 then None else Some v)"

definition field_mixed :: "('a::zero) \<Rightarrow> 'a \<Rightarrow> 'a option \<Rightarrow> bool" where
  "field_mixed old new v \<longleftrightarrow> mixed_option (stored_option old) (stored_option new) v"

text \<open>A field that was seen to differ from 0: the load of its value finds the new one if it was 0.\<close>

definition seen :: "('a::zero) \<Rightarrow> 'a \<Rightarrow> 'a \<Rightarrow> bool" where
  "seen old new now \<longleftrightarrow> (old = 0 \<longrightarrow> now = new \<and> new \<noteq> 0)"

lemma field_mixed_none: "now \<in> {old, new} \<Longrightarrow> now = 0 \<Longrightarrow> field_mixed old new None"
  by (auto simp: field_mixed_def mixed_option_def stored_option_def)

lemma field_mixed_value: "now \<in> {old, new} \<Longrightarrow> seen old new now \<Longrightarrow> field_mixed old new (Some now)"
  by (auto simp: field_mixed_def mixed_option_def stored_option_def seen_def)

lemma seen_start: "now \<in> {old, new} \<Longrightarrow> now \<noteq> 0 \<Longrightarrow> seen old new now"
  by (auto simp: seen_def)

fun torn_ok :: "xattrs serde \<Rightarrow> shm_map \<Rightarrow> shm_mem \<Rightarrow> shm_mem \<Rightarrow> inode_key \<Rightarrow> u32 \<Rightarrow> bool \<Rightarrow>
    shm_mem \<Rightarrow> reader \<Rightarrow> bool" where
  "torn_ok c h m0 m1 k i removing m (RdOccupied t idx) \<longleftrightarrow>
     unat idx < nslots h \<and> (removing \<or> ahead h m0 idx t i)"
| "torn_ok c h m0 m1 k i removing m (RdDev t idx) \<longleftrightarrow>
     unat idx < nslots h \<and> is_live_at m0 (unat idx) \<and> (removing \<or> ahead h m0 idx (Suc t) i)"
| "torn_ok c h m0 m1 k i removing m (RdIno t idx) \<longleftrightarrow>
     unat idx < nslots h \<and> is_live_at m0 (unat idx) \<and> sl_dev (shm_slot m0 idx) = fst k \<and>
     (removing \<or> ahead h m0 idx (Suc t) i)"
| "torn_ok c h m0 m1 k i removing m (RdUid idx) \<longleftrightarrow> idx = i"
| "torn_ok c h m0 m1 k i removing m (RdGid idx u) \<longleftrightarrow> idx = i \<and>
     u \<in> {sl_uid (shm_slot m0 i), sl_uid (shm_slot m1 i)}"
| "torn_ok c h m0 m1 k i removing m (RdMode idx n) \<longleftrightarrow> idx = i \<and> owners_mixed m0 m1 i n \<and>
     i_mode n = None \<and> i_rdev n = None"
| "torn_ok c h m0 m1 k i removing m (RdModeValue idx n) \<longleftrightarrow> idx = i \<and> owners_mixed m0 m1 i n \<and>
     i_rdev n = None \<and> seen (sl_mode (shm_slot m0 i)) (sl_mode (shm_slot m1 i)) (sl_mode (shm_slot m i))"
| "torn_ok c h m0 m1 k i removing m (RdRdev idx n) \<longleftrightarrow> idx = i \<and> owners_mixed m0 m1 i n \<and>
     field_mixed (sl_mode (shm_slot m0 i)) (sl_mode (shm_slot m1 i)) (i_mode n) \<and> i_rdev n = None"
| "torn_ok c h m0 m1 k i removing m (RdRdevValue idx n) \<longleftrightarrow> idx = i \<and> owners_mixed m0 m1 i n \<and>
     field_mixed (sl_mode (shm_slot m0 i)) (sl_mode (shm_slot m1 i)) (i_mode n) \<and>
     seen (sl_rdev (shm_slot m0 i)) (sl_rdev (shm_slot m1 i)) (sl_rdev (shm_slot m i))"
| "torn_ok c h m0 m1 k i removing m (RdLen idx n) \<longleftrightarrow> idx = i \<and> owners_mixed m0 m1 i n \<and>
     field_mixed (sl_mode (shm_slot m0 i)) (sl_mode (shm_slot m1 i)) (i_mode n) \<and>
     field_mixed (sl_rdev (shm_slot m0 i)) (sl_rdev (shm_slot m1 i)) (i_rdev n)"
| "torn_ok c h m0 m1 k i removing m (RdBytes idx n len) \<longleftrightarrow> idx = i \<and> owners_mixed m0 m1 i n \<and>
     field_mixed (sl_mode (shm_slot m0 i)) (sl_mode (shm_slot m1 i)) (i_mode n) \<and>
     field_mixed (sl_rdev (shm_slot m0 i)) (sl_rdev (shm_slot m1 i)) (i_rdev n) \<and>
     len \<noteq> 0 \<and> len \<le> XATTR_PAGE_SIZE - 4 \<and>
     (\<exists>p\<in>{xattr_page m0 i, xattr_page m1 i}. 4 \<le> length p \<and> len = unat (of_le32 (take 4 p)))"
| "torn_ok c h m0 m1 k i removing m (RdDone r) \<longleftrightarrow>
     (case r of None \<Rightarrow> removing | Some e \<Rightarrow> mixed_entry c m0 m1 i e)"

lemma mixed_entry_fields:
  "mixed_entry c m0 m1 i e \<longleftrightarrow> owners_mixed m0 m1 i e \<and>
     field_mixed (sl_mode (shm_slot m0 i)) (sl_mode (shm_slot m1 i)) (i_mode e) \<and>
     field_mixed (sl_rdev (shm_slot m0 i)) (sl_rdev (shm_slot m1 i)) (i_rdev e) \<and>
     (\<exists>p\<in>{xattr_page m0 i, xattr_page m1 i}. \<exists>q\<in>{xattr_page m0 i, xattr_page m1 i}.
         i_xattrs e = decode_mixed c p q)"
  by (simp add: mixed_entry_def Let_def entry_fields owners_mixed_def field_mixed_def stored_option_def)

lemma torn_ok_store:
  assumes "torn_ok c h m0 m1 k i removing m rd" and "entry_store i w" and "towards m0 m1 i w"
    and "unat i < length (sh_slots m)"
  shows "torn_ok c h m0 m1 k i removing (do_store w m) rd"
proof -
  have "seen (sl_mode (shm_slot m0 i)) (sl_mode (shm_slot m1 i)) (sl_mode (shm_slot m i)) \<Longrightarrow>
      seen (sl_mode (shm_slot m0 i)) (sl_mode (shm_slot m1 i)) (sl_mode (shm_slot (do_store w m) i))"
    and "seen (sl_rdev (shm_slot m0 i)) (sl_rdev (shm_slot m1 i)) (sl_rdev (shm_slot m i)) \<Longrightarrow>
      seen (sl_rdev (shm_slot m0 i)) (sl_rdev (shm_slot m1 i)) (sl_rdev (shm_slot (do_store w m) i))"
    using assms(2-4)
    by (cases w; simp add: seen_def shm_slot_def modify_slot_def set_page_def)+
  with assms(1) show ?thesis by (cases rd) simp_all
qed

lemma decode_mixed_bytes:
  assumes p: "p \<in> {p0, p1}" "4 \<le> length p" "len = unat (of_le32 (take 4 p))"
    and len: "len \<noteq> 0" "len \<le> XATTR_PAGE_SIZE - 4" and q: "drop 4 page \<in> {drop 4 p0, drop 4 p1}"
  shows "\<exists>p\<in>{p0, p1}. \<exists>q\<in>{p0, p1}. (case deserialize c (take len (drop 4 page)) of
      Some xattrs \<Rightarrow> xattrs | None \<Rightarrow> fmempty) = decode_mixed c p q"
proof -
  have "(case deserialize c (take len (drop 4 page)) of Some xattrs \<Rightarrow> xattrs | None \<Rightarrow> fmempty) =
      decode_mixed c p q'" if "drop 4 page = drop 4 q'" for q'
    using p(2,3) len that by (simp add: decode_mixed_def decode_page_def min_def)
  with p(1) q show ?thesis by blast
qed

lemma torn_ok_read:
  assumes m: "on_the_way h m0 m1 i removing m" and ok: "torn_ok c h m0 m1 k i removing m rd"
    and wf: "table_wf h m0" and i: "unat i < nslots h" and here: "holds_at m0 (unat i) k"
    and pages: "4 \<le> length (xattr_page m0 i)" "4 \<le> length (xattr_page m1 i)"
  shows "torn_ok c h m0 m1 k i removing m (reader_step c h k rd m)"
proof -
  have shape: "same_shape h m0 m" and live: "\<not> removing \<Longrightarrow> is_live_at m (unat i)"
    using m by (auto simp: on_the_way_def)
  have key: "sl_dev (shm_slot m i) = fst k" "sl_ino (shm_slot m i) = snd k"
    using here same_shapeD(1,2) [OF shape i] by (simp_all add: holds_at_def key_at_def shm_slot_def prod_eq_iff)
  show ?thesis
  proof (cases rd)
    case (RdOccupied t idx)
    show ?thesis
    proof (cases t)
      case 0
      with RdOccupied ok show ?thesis by simp
    next
      case (Suc t')
      with RdOccupied ok have idx: "unat idx < nslots h" "removing \<or> ahead h m0 idx (Suc t') i" by simp_all
      note shape' = same_shapeD(3,4) [OF shape idx(1)]
      show ?thesis
        using idx shape' live ahead_Suc [OF idx(1), of m0 t' i] next_index_less [OF idx(1)]
        by (auto simp: RdOccupied Suc slot_state_defs shm_slot_def slot_codes split: if_splits)
    qed
  next
    case (RdDev t idx)
    with ok have idx: "unat idx < nslots h" "is_live_at m0 (unat idx)" "removing \<or> ahead h m0 idx (Suc t) i"
      by simp_all
    show ?thesis
      using idx key ahead_Suc [OF idx(1), of m0 t i] next_index_less [OF idx(1)] same_shapeD(1) [OF shape idx(1)]
      by (auto simp: RdDev shm_slot_def)
  next
    case (RdIno t idx)
    with ok have idx: "unat idx < nslots h" "is_live_at m0 (unat idx)" "sl_dev (shm_slot m0 idx) = fst k"
      "removing \<or> ahead h m0 idx (Suc t) i" by simp_all
    have "idx = i" if "sl_ino (shm_slot m idx) = snd k"
    proof -
      have "holds_at m0 (unat idx) k"
        using that idx(2,3) same_shapeD(2) [OF shape idx(1)]
        by (simp add: holds_at_def key_at_def shm_slot_def prod_eq_iff)
      then show ?thesis using holds_unique [OF wf idx(1) i _ here] by (simp add: word_unat_eq_iff)
    qed
    then show ?thesis
      using idx key ahead_Suc [OF idx(1), of m0 t i] next_index_less [OF idx(1)] by (auto simp: RdIno)
  next
    case (RdMode idx n)
    with ok m show ?thesis
      by (auto simp: on_the_way_def intro: field_mixed_none seen_start)
  next
    case (RdModeValue idx n)
    with ok m show ?thesis
      by (auto simp: on_the_way_def owners_mixed_def intro: field_mixed_value)
  next
    case (RdRdev idx n)
    with ok m show ?thesis
      by (auto simp: on_the_way_def intro: field_mixed_none seen_start)
  next
    case (RdRdevValue idx n)
    with ok m show ?thesis
      by (auto simp: on_the_way_def owners_mixed_def intro: field_mixed_value)
  next
    case (RdLen idx n)
    have head: "take 4 (xattr_page m i) \<in> {take 4 (xattr_page m0 i), take 4 (xattr_page m1 i)}"
      using m by (simp add: on_the_way_def)
    then obtain p where p: "p \<in> {xattr_page m0 i, xattr_page m1 i}" "take 4 (xattr_page m i) = take 4 p"
      by blast
    have "\<exists>p\<in>{xattr_page m0 i, xattr_page m1 i}. \<exists>q\<in>{xattr_page m0 i, xattr_page m1 i}.
        fmempty = decode_mixed c p q"
      if "unat (of_le32 (take 4 p)) = 0 \<or> XATTR_PAGE_SIZE - 4 < unat (of_le32 (take 4 p))"
      using p(1) that pages by (intro bexI [of _ p]) (auto simp: decode_mixed_def decode_page_def Let_def)
    moreover have "4 \<le> length p" using p(1) pages by auto
    ultimately show ?thesis
      using ok RdLen p
      by (auto simp: Let_def mixed_entry_fields owners_mixed_def)
  next
    case (RdBytes idx n len)
    with ok obtain p where p: "p \<in> {xattr_page m0 i, xattr_page m1 i}" "4 \<le> length p"
        "len = unat (of_le32 (take 4 p))" "len \<noteq> 0" "len \<le> XATTR_PAGE_SIZE - 4" by auto
    have "drop 4 (xattr_page m i) \<in> {drop 4 (xattr_page m0 i), drop 4 (xattr_page m1 i)}"
      using m by (simp add: on_the_way_def)
    note X = decode_mixed_bytes [OF p this, of c]
    show ?thesis
      using ok RdBytes X by (simp add: mixed_entry_fields owners_mixed_def)
  qed (use ok m in \<open>auto simp: on_the_way_def owners_mixed_def fake_inode_new_def\<close>)
qed

section \<open>Any schedule\<close>

definition is_remove :: "store_op \<Rightarrow> bool" where
  "is_remove x = (case x of Remove k \<Rightarrow> True | _ \<Rightarrow> False)"

text \<open>What the stores to come are like, where the memory is and where the reader is.\<close>

definition torn_inv :: "xattrs serde \<Rightarrow> shm_map \<Rightarrow> shm_mem \<Rightarrow> shm_mem \<Rightarrow> inode_key \<Rightarrow> u32 \<Rightarrow> bool \<Rightarrow>
    shm_pc \<Rightarrow> shm_mem \<Rightarrow> reader \<Rightarrow> bool" where
  "torn_inv c h m0 m1 k i removing pc m rd \<longleftrightarrow>
     (\<exists>vs. pending c h m pc = Some vs \<and>
        (\<forall>w\<in>set vs. entry_store i w \<and> towards m0 m1 i w \<and> (removing \<or> (\<forall>j v. w \<noteq> SetOccupied j v)))) \<and>
     on_the_way h m0 m1 i removing m \<and> torn_ok c h m0 m1 k i removing m rd"

lemma torn_inv_write:
  assumes inv: "torn_inv c h m0 m1 k i removing pc m rd" and step: "pc_step c h pc m = (pc', m')"
    and wf: "table_wf h m0" and i: "unat i < nslots h" and here: "holds_at m0 (unat i) k"
  shows "torn_inv c h m0 m1 k i removing pc' m' rd"
proof -
  obtain vs where vs: "pending c h m pc = Some vs" "\<forall>w\<in>set vs. entry_store i w \<and> towards m0 m1 i w \<and>
      (removing \<or> (\<forall>j v. w \<noteq> SetOccupied j v))" and m: "on_the_way h m0 m1 i removing m"
      "torn_ok c h m0 m1 k i removing m rd"
    using inv by (auto simp: torn_inv_def)
  have len: "unat i < length (sh_slots m)"
    using m(1) i table_wfD(2) [OF wf] by (simp add: on_the_way_def same_shape_def)
  from pending_any_step [OF vs(1) step] show ?thesis
  proof (elim disjE exE conjE)
    assume "m' = m" "pending c h m' pc' = Some vs"
    then show ?thesis using vs(2) m by (simp add: torn_inv_def)
  next
    fix w ws assume w: "vs = w # ws" "m' = do_store w m" "pending c h m' pc' = Some ws"
    have "on_the_way h m0 m1 i removing m'"
      unfolding w(2) using vs(2) w(1) by (intro on_the_way_store [OF m(1) _ _ _ wf i here]) auto
    moreover have "torn_ok c h m0 m1 k i removing m' rd"
      unfolding w(2) using vs(2) w(1) by (intro torn_ok_store [OF m(2) _ _ len]) auto
    ultimately show ?thesis using vs(2) w(1,3) by (simp add: torn_inv_def)
  qed
qed

lemma run_torn_inv:
  assumes wf: "table_wf h m0" and i: "unat i < nslots h" and here: "holds_at m0 (unat i) (keys r)"
    and pages: "4 \<le> length (xattr_page m0 i)" "4 \<le> length (xattr_page m1 i)"
  shows "torn_inv c h m0 m1 (keys r) i removing (rs_writer s) (rs_mem s) (rs_readers s r) \<Longrightarrow>
    torn_inv c h m0 m1 (keys r) i removing (rs_writer (run_readers c h keys ps s))
      (rs_mem (run_readers c h keys ps s)) (rs_readers (run_readers c h keys ps s) r)"
proof (induction ps arbitrary: s)
  case (Cons p ps)
  have "torn_inv c h m0 m1 (keys r) i removing (rs_writer (readers_step c h keys p s))
      (rs_mem (readers_step c h keys p s)) (rs_readers (readers_step c h keys p s) r)"
  proof (cases p)
    case None
    obtain pc m where step: "pc_step c h (rs_writer s) (rs_mem s) = (pc, m)" by fastforce
    show ?thesis using torn_inv_write [OF Cons.prems step wf i here] by (simp add: None readers_step_def step)
  next
    case (Some q)
    have "torn_ok c h m0 m1 (keys r) i removing (rs_mem s)
        (reader_step c h (keys r) (rs_readers s r) (rs_mem s))"
      using Cons.prems by (intro torn_ok_read [OF _ _ wf i here pages]) (simp_all add: torn_inv_def)
    with Cons.prems show ?thesis by (cases "q = r") (auto simp: Some readers_step_def torn_inv_def)
  qed
  from Cons.IH [OF this] show ?case by (simp add: run_readers_def)
qed (simp add: run_readers_def)

lemma lookup_torn:
  assumes inv: "shm_inv c h m" and key: "op_key x = keys r"
    and found: "shm_probe h m (fst (keys r)) (snd (keys r)) = Found i"
  shows "torn_inv c h m (shm_step c h x m) (keys r) i (is_remove x)
    (rs_writer (run_readers c h keys ps (readers_start h keys x m)))
    (rs_mem (run_readers c h keys ps (readers_start h keys x m)))
    (rs_readers (run_readers c h keys ps (readers_start h keys x m)) r)"
proof -
  note wf = shm_invD(2) [OF inv]
  have wf': "table_wf h (shm_step c h x m)"
    using shm_invD(2) [OF fold_inv [OF inv, of "[x]"]] by simp
  have i: "unat i < nslots h" and here: "holds_at m (unat i) (keys r)"
    using probe_Found [OF table_wfD(1) [OF wf] found] by simp_all
  have pages: "4 \<le> length (xattr_page m i)" "4 \<le> length (xattr_page (shm_step c h x m) i)"
    using table_wfD(4) [OF wf i] table_wfD(4) [OF wf' i] by (simp_all add: xattr_page_def XATTR_PAGE_SIZE_def)
  have effect: "shm_step c h x m = fold do_store (op_stores c x (Found i)) m"
    using op_stores_effect [of c x h m] found key by simp
  have "is_remove x \<or> (\<forall>j v. w \<noteq> SetOccupied j v)" if "w \<in> set (op_stores c x (Found i))" for w
    using that by (cases x) (auto simp: is_remove_def dest: xattr_stores_fill split: if_splits)
  then have "\<forall>w\<in>set (op_stores c x (Found i)). entry_store i w \<and> towards m (shm_step c h x m) i w \<and>
      (is_remove x \<or> (\<forall>j v. w \<noteq> SetOccupied j v))"
    using op_stores_entry op_stores_towards [OF effect] i table_wfD(2,3) [OF wf] by auto
  moreover have "pending c h m (op_start h x) = Some (op_stores c x (Found i))"
    using found key by (simp add: op_start_def shm_probe_def)
  moreover have "torn_ok c h m (shm_step c h x m) (keys r) i (is_remove x) m (reader_start h (keys r))"
    using home_less [OF table_wfD(1) [OF wf], of "keys r"] ahead_start [OF wf _ i, of "fst (keys r)" "snd (keys r)"] here
    by (simp add: reader_start_def home_def)
  ultimately show ?thesis
    using on_the_way_start [OF wf i here] by (intro run_torn_inv [where keys = keys, OF wf i here pages])
      (simp add: torn_inv_def readers_start_def)
qed

lemma torn_done:
  assumes "shm_inv c h m" and "op_key x = keys r" and "shm_probe h m (fst (keys r)) (snd (keys r)) = Found i"
    and "3 * nslots h + 10 \<le> count_list schedule (Some r)"
  obtains v where "rs_readers (run_readers c h keys schedule (readers_start h keys x m)) r = RdDone v"
    and "case v of None \<Rightarrow> is_remove x | Some e \<Rightarrow> mixed_entry c m (shm_step c h x m) i e"
proof -
  obtain v where "rs_readers (run_readers c h keys schedule (readers_start h keys x m)) r = RdDone v"
    using reader_ends [of "readers_start h keys x m" r h "keys r" schedule c keys] assms(4)
    by (auto simp: readers_start_def)
  then show ?thesis
    using lookup_torn [where keys = keys and ps = schedule, OF assms(1-3)] that by (simp add: torn_inv_def)
qed

text \<open>A chown mixes at most the owner and the group.\<close>

lemma mixed_option_same [simp]: "mixed_option v v w \<longleftrightarrow> w = v"
  by (auto simp: mixed_option_def)

lemma chown_mixes_owners:
  assumes inv: "shm_inv c h m" and "shm_probe h m (fst k) (snd k) = Found i"
    and mixed: "mixed_entry c m (shm_step c h (Chown k u g du dg) m) i e"
    and old: "shm_get_inode c h m k = Some old"
  shows "\<exists>a\<in>{i_uid old, u}. \<exists>b\<in>{i_gid old, g}. e = old\<lparr>i_uid := a, i_gid := b\<rparr>"
proof -
  define m1 where "m1 = shm_step c h (Chown k u g du dg) m"
  note wf = shm_invD(2) [OF inv]
  have i: "unat i < nslots h" using probe_Found [OF table_wfD(1) [OF wf] assms(2)] by simp
  have old': "old = entry_at c m (unat i)"
    using old get_find [OF table_wfD(1) [OF wf], of c m k] assms(2)
      probe_find [of "shm_hash h (fst k) (snd k)" h "nslots h" m k None i] home_less [OF table_wfD(1) [OF wf], of k]
    by (simp add: find_entry_def shm_probe_def home_def)
  have step: "m1 = fold do_store (op_stores c (Chown k u g du dg) (Found i)) m"
    unfolding m1_def using op_stores_effect [of c "Chown k u g du dg" h m] assms(2) by simp
  have page: "xattr_page m1 i = xattr_page m i" unfolding step by (simp add: page_after_slot)
  have slot: "sl_uid (shm_slot m1 i) \<in> {sl_uid (shm_slot m i), u}" "sl_gid (shm_slot m1 i) \<in> {sl_gid (shm_slot m i), g}"
    "sl_mode (shm_slot m1 i) = sl_mode (shm_slot m i)" "sl_rdev (shm_slot m1 i) = sl_rdev (shm_slot m i)"
    unfolding step using i table_wfD(2) [OF wf] by (simp_all add: shm_slot_def modify_slot_def)
  have "decode_mixed c (xattr_page m i) (xattr_page m i) = i_xattrs old"
    by (simp add: decode_mixed_def old' entry_fields)
  with mixed [folded m1_def] slot have "i_uid e \<in> {i_uid old, u}" "i_gid e \<in> {i_gid old, g}"
      "i_mode e = i_mode old" "i_rdev e = i_rdev old" "i_xattrs e = i_xattrs old"
    by (auto simp: mixed_entry_def Let_def old' entry_fields page)
  then show ?thesis by (auto intro!: fake_inode_eqI)
qed

section \<open>Property\<close>

text \<open>
  C8: A lookup of the entry that another process is changing returns, under every interleaving
  of their accesses, an entry each of whose fields is the one before the change or the one
  after it (a mode or device number that is being dropped may read as 0, and the length and
  the bytes of the attributes may come from different sides); it misses the entry only if the
  change removes it; and it returns after at most three loads per slot and ten more.
\<close>

theorem lookup_of_changing_entry:
  assumes "shm_inv c h m" and "op_key x = keys r" and "shm_probe h m (fst (keys r)) (snd (keys r)) = Found i"
    and "3 * nslots h + 10 \<le> count_list schedule (Some r)"
  shows "\<exists>v. rs_readers (run_readers c h keys schedule (readers_start h keys x m)) r = RdDone v \<and>
    (case v of None \<Rightarrow> x = Remove (keys r)
     | Some e \<Rightarrow> mixed_entry c m (shm_step c h x m) i e \<and>
        (\<forall>u g du dg old. x = Chown (keys r) u g du dg \<longrightarrow> shm_get_inode c h m (keys r) = Some old \<longrightarrow>
           (\<exists>a\<in>{i_uid old, u}. \<exists>b\<in>{i_gid old, g}. e = old\<lparr>i_uid := a, i_gid := b\<rparr>)))"
proof -
  obtain v where v: "rs_readers (run_readers c h keys schedule (readers_start h keys x m)) r = RdDone v"
      "case v of None \<Rightarrow> is_remove x | Some e \<Rightarrow> mixed_entry c m (shm_step c h x m) i e"
    by (rule torn_done [where keys = keys, OF assms])
  have "is_remove x \<Longrightarrow> x = Remove (keys r)" using assms(2) by (cases x) (simp_all add: is_remove_def)
  moreover have "\<exists>a\<in>{i_uid old, u}. \<exists>b\<in>{i_gid old, g}. e = old\<lparr>i_uid := a, i_gid := b\<rparr>"
    if "v = Some e" "x = Chown (keys r) u g du dg" "shm_get_inode c h m (keys r) = Some old" for e u g du dg old
    using chown_mixes_owners [OF assms(1,3) _ that(3), of u g du dg e] v(2) that(1,2) by simp
  ultimately show ?thesis using v by (auto split: option.splits)
qed

theorem lookup_of_changing_entry_witness:
  "\<exists>h m e. rs_readers (run_readers xattrs_serde h (\<lambda>_. (9, 42)) (Some 0 # None # replicate 196618 (Some 0))
      (readers_start h (\<lambda>_. (9, 42)) (Chown (9, 42) 7 8 0 0) m)) 0 = RdDone (Some e) \<and>
    i_uid e \<in> {5, 7} \<and> i_gid e \<in> {6, 8} \<and> i_mode e = None"
proof -
  obtain h m where hm: "shm_create os_all_ok 65536 0 0 = Inr (h, m)" "nslots h = 65536"
    by (rule created_example)
  let ?m = "shm_step xattrs_serde h (Chown (9, 42) 5 6 0 0) m" and ?k = "(9, 42) :: inode_key"
  let ?x = "Chown (9, 42) 7 8 0 0" and ?ps = "Some 0 # None # replicate 196618 (Some 0)"
  have inv: "shm_inv xattrs_serde h ?m"
    using fold_inv [OF created_inv [OF xattrs_serde_ok hm(1)], of "[Chown (9, 42) 5 6 0 0]"] by simp
  have get: "shm_get_inode xattrs_serde h ?m ?k = Some (fake_inode_new 5 6)"
    using created_refines [OF xattrs_serde_ok hm(1), of "[Chown (9, 42) 5 6 0 0]"]
    by (simp add: hm(2) ID_UNCHANGED_def fake_inode_eqI)
  then obtain i where i: "shm_probe h ?m 9 42 = Found i"
    by (auto simp: shm_get_inode_def split: probe.splits)
  have count: "3 * nslots h + 10 \<le> count_list ?ps (Some 0)"
    by (simp add: hm(2) count_list_eq_length_filter filter_replicate)
  from lookup_of_changing_entry [where keys = "\<lambda>_. ?k" and r = 0, OF inv _ _ count, of ?x i] i get
  obtain v where "rs_readers (run_readers xattrs_serde h (\<lambda>_. ?k) ?ps (readers_start h (\<lambda>_. ?k) ?x ?m)) 0 = RdDone v"
      "case v of None \<Rightarrow> False | Some e \<Rightarrow>
        \<exists>a\<in>{5, 7}. \<exists>b\<in>{6, 8}. e = (fake_inode_new 5 6)\<lparr>i_uid := a, i_gid := b\<rparr>"
    by (auto split: option.splits)
  then show ?thesis
    by (intro exI [of _ h] exI [of _ ?m]) (auto simp: fake_inode_new_def split: option.splits)
qed

end
