(* ===== verification/Protocol.thy ===== *)
theory Protocol
  imports Inode_Store Rust_Text
begin

text \<open>
  The wire protocol (\<open>pseudoroot-core/src/protocol.rs\<close>): messages, their payloads, the
  length-prefixed framing and the client's channel.

  The encoding of values is done by the crates \<open>serde\<close>, \<open>serde-wincode\<close> and \<open>wincode\<close>; a
  \<open>wire\<close> is a parameter that stands for \<open>serialize_wincode\<close> and \<open>deserialize_wincode\<close> at one
  type.  (The former calls \<open>expect\<close>: the model covers the runs in which it returns.)
  \<open>wire_ok\<close> is what the code relies on: a value that was encoded decodes to itself.

  A stream is a parameter too, as in the sources (\<open>impl Write\<close>, \<open>impl Read\<close>): the record
  \<open>stream_ops\<close> holds the operations on a socket whose state, with everything behind it, has
  the type \<open>'w\<close>.
\<close>

section \<open>Messages\<close>

datatype message_type =
    RegisterOwnership
  | SetCurrentUidGid
  | GetCurrentUidGid
  | Ping
  | Response
  | Error
  | GetOwnership
  | RemoveOwnership
  | Init
  | UpsertChown
  | Shutdown

record protocol_message =
  message_type :: message_type
  payload :: bytes
  request_id :: u64

record 'a wire =
  to_wire :: "'a \<Rightarrow> bytes"
  from_wire :: "bytes \<Rightarrow> 'a option"

definition wire_ok :: "'a wire \<Rightarrow> bool" where
  "wire_ok c \<longleftrightarrow> (\<forall>x. from_wire c (to_wire c x) = Some x)"

text \<open>The counter \<open>REQUEST_ID\<close> starts at 1; \<open>fetch_add\<close> returns the old value and wraps.\<close>

definition REQUEST_ID_init :: u64 where
  "REQUEST_ID_init = 1"

definition next_request_id :: "u64 \<Rightarrow> u64 \<times> u64" where
  "next_request_id counter = (counter, counter + 1)"

definition pm_new :: "message_type \<Rightarrow> bytes \<Rightarrow> u64 \<Rightarrow> protocol_message" where
  "pm_new t p i = \<lparr>message_type = t, payload = p, request_id = i\<rparr>"

definition pm_ping :: "u64 \<Rightarrow> protocol_message \<times> u64" where
  "pm_ping counter = (case next_request_id counter of (i, counter) \<Rightarrow> (pm_new Ping [] i, counter))"

definition pm_response :: "u64 \<Rightarrow> bytes \<Rightarrow> protocol_message" where
  "pm_response i p = pm_new Response p i"

definition pm_error :: "u64 \<Rightarrow> string \<Rightarrow> protocol_message" where
  "pm_error i error_message = pm_new Error (bytes_of error_message) i"

section \<open>Payloads\<close>

record inode_key_payload =
  ik_dev :: u64
  ik_ino :: u64

record inode_state_payload =
  is_dev :: u64
  is_ino :: u64
  is_uid :: u32
  is_gid :: u32
  is_mode :: "u32 option"
  is_rdev :: "u64 option"
  is_xattrs :: xattrs

record inode_state_result =
  ir_found :: bool
  ir_uid :: u32
  ir_gid :: u32
  ir_mode :: "u32 option"
  ir_rdev :: "u64 option"
  ir_xattrs :: xattrs

record uid_gid_payload =
  ug_uid :: u32
  ug_gid :: u32

record chown_payload =
  cp_dev :: u64
  cp_ino :: u64
  cp_uid :: u32
  cp_gid :: u32
  cp_default_uid :: u32
  cp_default_gid :: u32

text \<open>The encodings a client and a server share, one for each type that goes over the wire.\<close>

record codecs =
  c_message :: "protocol_message wire"
  c_key :: "inode_key_payload wire"
  c_state :: "inode_state_payload wire"
  c_result :: "inode_state_result wire"
  c_uid_gid :: "uid_gid_payload wire"
  c_chown :: "chown_payload wire"

definition codecs_ok :: "codecs \<Rightarrow> bool" where
  "codecs_ok c \<longleftrightarrow> wire_ok (c_message c) \<and> wire_ok (c_key c) \<and> wire_ok (c_state c) \<and>
     wire_ok (c_result c) \<and> wire_ok (c_uid_gid c) \<and> wire_ok (c_chown c)"

section \<open>Framing\<close>

datatype io_error = NotConnected | InvalidData | UnexpectedEof | BrokenPipe | OtherIo

record 'w stream_ops =
  st_connect :: "bytes \<Rightarrow> 'w \<Rightarrow> io_error option \<times> 'w"
  st_set_nonblocking :: "bool \<Rightarrow> 'w \<Rightarrow> io_error option \<times> 'w"
  st_write_all :: "bytes \<Rightarrow> 'w \<Rightarrow> io_error option \<times> 'w"
  st_flush :: "'w \<Rightarrow> io_error option \<times> 'w"
  st_read_exact :: "nat \<Rightarrow> 'w \<Rightarrow> (io_error + bytes) \<times> 'w"

text \<open>The length is \<open>bytes.len() as u32\<close>, which wraps.\<close>

definition write_framed :: "'w stream_ops \<Rightarrow> bytes \<Rightarrow> 'w \<Rightarrow> io_error option \<times> 'w" where
  "write_framed ops bs w =
     (case st_write_all ops (be32 (word_of_nat (length bs))) w of
        (Some e, w) \<Rightarrow> (Some e, w)
      | (None, w) \<Rightarrow>
          (case st_write_all ops bs w of
             (Some e, w) \<Rightarrow> (Some e, w)
           | (None, w) \<Rightarrow> st_flush ops w))"

definition read_framed :: "'w stream_ops \<Rightarrow> 'w \<Rightarrow> (io_error + bytes) \<times> 'w" where
  "read_framed ops w =
     (case st_read_exact ops 4 w of
        (Inl e, w) \<Rightarrow> (Inl e, w)
      | (Inr len_buf, w) \<Rightarrow> st_read_exact ops (unat (of_be32 len_buf)) w)"

section \<open>The client's channel\<close>

text \<open>
  \<open>stream\<close> is \<open>Some\<close> once connected; the socket itself lives in \<open>'w\<close>, so the model keeps
  only whether there is one.
\<close>

record ipc_channel =
  ch_stream :: bool
  ch_socket_path :: bytes

definition DEFAULT_SOCKET_PATH :: bytes where
  "DEFAULT_SOCKET_PATH = bytes_of ''/tmp/pseudoroot.sock''"

definition ipc_new :: "bytes \<Rightarrow> ipc_channel" where
  "ipc_new path = \<lparr>ch_stream = False, ch_socket_path = path\<rparr>"

definition ipc_default :: ipc_channel where
  "ipc_default = ipc_new DEFAULT_SOCKET_PATH"

definition ipc_connect ::
    "'w stream_ops \<Rightarrow> ipc_channel \<times> 'w \<Rightarrow> io_error option \<times> ipc_channel \<times> 'w" where
  "ipc_connect ops s =
     (case s of (ch, w) \<Rightarrow>
      if ch_stream ch then (None, ch, w)
      else
        (case st_connect ops (ch_socket_path ch) w of
           (Some e, w) \<Rightarrow> (Some e, ch, w)
         | (None, w) \<Rightarrow>
             (case st_set_nonblocking ops False w of
                (Some e, w) \<Rightarrow> (Some e, ch, w)
              | (None, w) \<Rightarrow> (None, ch\<lparr>ch_stream := True\<rparr>, w))))"

definition ipc_send ::
    "codecs \<Rightarrow> 'w stream_ops \<Rightarrow> ipc_channel \<Rightarrow> protocol_message \<Rightarrow> 'w \<Rightarrow> io_error option \<times> 'w" where
  "ipc_send c ops ch message w =
     (if ch_stream ch then write_framed ops (to_wire (c_message c) message) w
      else (Some NotConnected, w))"

definition ipc_recv ::
    "codecs \<Rightarrow> 'w stream_ops \<Rightarrow> ipc_channel \<Rightarrow> 'w \<Rightarrow> (io_error + protocol_message) \<times> 'w" where
  "ipc_recv c ops ch w =
     (if ch_stream ch then
        (case read_framed ops w of
           (Inl e, w) \<Rightarrow> (Inl e, w)
         | (Inr buf, w) \<Rightarrow>
             (case from_wire (c_message c) buf of
                Some m \<Rightarrow> (Inr m, w)
              | None \<Rightarrow> (Inl InvalidData, w)))
      else (Inl NotConnected, w))"

definition ipc_request ::
    "codecs \<Rightarrow> 'w stream_ops \<Rightarrow> ipc_channel \<Rightarrow> protocol_message \<Rightarrow> 'w \<Rightarrow>
       (io_error + protocol_message) \<times> 'w" where
  "ipc_request c ops ch message w =
     (case ipc_send c ops ch message w of
        (Some e, w) \<Rightarrow> (Inl e, w)
      | (None, w) \<Rightarrow> ipc_recv c ops ch w)"

section \<open>A socket between two byte queues\<close>

text \<open>
  The sockets the lemmas speak of: \<open>ms_in\<close> is everything the peer sends before it closes,
  \<open>ms_out\<close> what was written so far; a write after the peer closed its side fails.
\<close>

record mem_sock =
  ms_in :: bytes
  ms_out :: bytes
  ms_peer_open :: bool

definition mem_write :: "bytes \<Rightarrow> mem_sock \<Rightarrow> io_error option \<times> mem_sock" where
  "mem_write bs s =
     (if ms_peer_open s then (None, s\<lparr>ms_out := ms_out s @ bs\<rparr>) else (Some BrokenPipe, s))"

definition mem_read :: "nat \<Rightarrow> mem_sock \<Rightarrow> (io_error + bytes) \<times> mem_sock" where
  "mem_read n s =
     (if n \<le> length (ms_in s) then (Inr (take n (ms_in s)), s\<lparr>ms_in := drop n (ms_in s)\<rparr>)
      else (Inl UnexpectedEof, s\<lparr>ms_in := []\<rparr>))"

definition mem_ops :: "mem_sock stream_ops" where
  "mem_ops = \<lparr>st_connect = (\<lambda>_ s. (None, s)), st_set_nonblocking = (\<lambda>_ s. (None, s)),
     st_write_all = mem_write, st_flush = (\<lambda>s. (None, s)), st_read_exact = mem_read\<rparr>"

section \<open>Facts\<close>

lemma codecs_okD:
  assumes "codecs_ok c"
  shows "from_wire (c_message c) (to_wire (c_message c) a) = Some a"
    "from_wire (c_key c) (to_wire (c_key c) k) = Some k"
    "from_wire (c_state c) (to_wire (c_state c) s) = Some s"
    "from_wire (c_result c) (to_wire (c_result c) r) = Some r"
    "from_wire (c_uid_gid c) (to_wire (c_uid_gid c) u) = Some u"
    "from_wire (c_chown c) (to_wire (c_chown c) o') = Some o'"
  using assms by (simp_all add: codecs_ok_def wire_ok_def)

lemma pm_sel [simp]:
  "message_type (pm_response i p) = Response" "payload (pm_response i p) = p"
  "request_id (pm_response i p) = i"
  "message_type (pm_error i e) = Error" "request_id (pm_error i e) = i"
  "payload (pm_error i e) = bytes_of e"
  "message_type (pm_new t p i) = t" "payload (pm_new t p i) = p" "request_id (pm_new t p i) = i"
  by (simp_all add: pm_response_def pm_error_def pm_new_def)

text \<open>A frame as bytes, and what reading it does.\<close>

definition frame :: "bytes \<Rightarrow> bytes" where
  "frame bs = be32 (word_of_nat (length bs)) @ bs"

lemma length_frame [simp]: "length (frame bs) = 4 + length bs"
  by (simp add: frame_def)

lemma mem_write_framed:
  "ms_peer_open s \<Longrightarrow> write_framed mem_ops bs s = (None, s\<lparr>ms_out := ms_out s @ frame bs\<rparr>)"
  by (simp add: write_framed_def mem_ops_def mem_write_def frame_def)

lemma mem_write_framed_closed:
  "\<not> ms_peer_open s \<Longrightarrow> write_framed mem_ops bs s = (Some BrokenPipe, s)"
  by (simp add: write_framed_def mem_ops_def mem_write_def)

lemma mem_read_frame:
  "length bs < 2 ^ 32 \<Longrightarrow> ms_in s = frame bs @ rest \<Longrightarrow>
     read_framed mem_ops s = (Inr bs, s\<lparr>ms_in := rest\<rparr>)"
  by (simp add: read_framed_def mem_ops_def mem_read_def frame_def)

lemma mem_read_short:
  "length (ms_in s) < 4 \<Longrightarrow> read_framed mem_ops s = (Inl UnexpectedEof, s\<lparr>ms_in := []\<rparr>)"
  by (simp add: read_framed_def mem_ops_def mem_read_def)

lemma mem_read_progress:
  "read_framed mem_ops s = (Inr buf, s') \<Longrightarrow>
     length (ms_in s') < length (ms_in s) \<and> ms_out s' = ms_out s \<and> ms_peer_open s' = ms_peer_open s"
  by (auto simp: read_framed_def mem_ops_def mem_read_def split: if_splits)

end
