(* ===== verification/Daemon_Server.thy ===== *)
theory Daemon_Server
  imports Inode_State Protocol
begin

text \<open>
  The fake-root daemon (\<open>pseudoroot-core/src/daemon_server.rs\<close>): the state its client threads
  share, the dispatch of one message, the loop that serves one client, the accept loop, and
  the life of the socket file around them.  Messages printed in verbose mode are not modelled.
\<close>

section \<open>Shared state and dispatch\<close>

record daemon =
  d_state :: fake_root_state
  d_shutdown :: bool

definition new_shared_state :: "u32 \<Rightarrow> u32 \<Rightarrow> fake_root_state" where
  "new_shared_state uid gid = frs_set_current uid gid fake_root_state_new"

text \<open>The conversions between payloads and metadata that the arms of \<open>dispatch_message\<close> do.\<close>

definition inode_of_state :: "inode_state_payload \<Rightarrow> fake_inode" where
  "inode_of_state p =
     \<lparr>i_uid = is_uid p, i_gid = is_gid p, i_mode = is_mode p, i_rdev = is_rdev p,
      i_xattrs = is_xattrs p\<rparr>"

definition result_of_inode :: "fake_inode option \<Rightarrow> inode_state_result" where
  "result_of_inode r =
     (case r of
        Some i \<Rightarrow> \<lparr>ir_found = True, ir_uid = i_uid i, ir_gid = i_gid i, ir_mode = i_mode i,
                   ir_rdev = i_rdev i, ir_xattrs = i_xattrs i\<rparr>
      | None \<Rightarrow> \<lparr>ir_found = False, ir_uid = 0, ir_gid = 0, ir_mode = None, ir_rdev = None,
                 ir_xattrs = fmempty\<rparr>)"

definition dispatch_message :: "codecs \<Rightarrow> protocol_message \<Rightarrow> daemon \<Rightarrow> protocol_message \<times> daemon"
where
  "dispatch_message c message d =
     (let i = request_id message; state = d_state d in
      case message_type message of
        Ping \<Rightarrow> (pm_response i (bytes_of ''pong''), d)
      | GetCurrentUidGid \<Rightarrow>
          (pm_response i (to_wire (c_uid_gid c)
             \<lparr>ug_uid = frs_current_uid state, ug_gid = frs_current_gid state\<rparr>), d)
      | SetCurrentUidGid \<Rightarrow>
          (case from_wire (c_uid_gid c) (payload message) of
             Some p \<Rightarrow>
               (pm_response i [], d\<lparr>d_state := frs_set_current (ug_uid p) (ug_gid p) state\<rparr>)
           | None \<Rightarrow> (pm_error i ''Invalid UidGidPayload'', d))
      | RegisterOwnership \<Rightarrow>
          (case from_wire (c_state c) (payload message) of
             Some p \<Rightarrow>
               (pm_response i [],
                d\<lparr>d_state := frs_set_inode (is_dev p, is_ino p) (inode_of_state p) state\<rparr>)
           | None \<Rightarrow> (pm_error i ''Invalid InodeStatePayload'', d))
      | UpsertChown \<Rightarrow>
          (case from_wire (c_chown c) (payload message) of
             Some p \<Rightarrow>
               (pm_response i [],
                d\<lparr>d_state := frs_upsert_chown (cp_dev p, cp_ino p) (cp_uid p) (cp_gid p)
                     (cp_default_uid p) (cp_default_gid p) state\<rparr>)
           | None \<Rightarrow> (pm_error i ''Invalid ChownPayload'', d))
      | GetOwnership \<Rightarrow>
          (case from_wire (c_key c) (payload message) of
             Some p \<Rightarrow>
               (pm_response i (to_wire (c_result c)
                  (result_of_inode (frs_get_inode state (ik_dev p, ik_ino p)))), d)
           | None \<Rightarrow> (pm_error i ''Invalid InodeKeyPayload'', d))
      | RemoveOwnership \<Rightarrow>
          (case from_wire (c_key c) (payload message) of
             Some p \<Rightarrow>
               (pm_response i [],
                d\<lparr>d_state := snd (frs_remove_inode (ik_dev p, ik_ino p) state)\<rparr>)
           | None \<Rightarrow> (pm_error i ''Invalid InodeKeyPayload'', d))
      | Init \<Rightarrow>
          (case from_wire (c_uid_gid c) (payload message) of
             Some p \<Rightarrow>
               (pm_response i [], d\<lparr>d_state := frs_set_current (ug_uid p) (ug_gid p) state\<rparr>)
           | None \<Rightarrow> (pm_error i ''Invalid UidGidPayload'', d))
      | Shutdown \<Rightarrow> (pm_response i [], d\<lparr>d_shutdown := True\<rparr>)
      | Response \<Rightarrow> (pm_error i ''Unexpected message type'', d)
      | Error \<Rightarrow> (pm_error i ''Unexpected message type'', d))"

section \<open>Serving one client\<close>

definition send_message ::
    "codecs \<Rightarrow> 'w stream_ops \<Rightarrow> protocol_message \<Rightarrow> 'w \<Rightarrow> io_error option \<times> 'w" where
  "send_message c ops message w = write_framed ops (to_wire (c_message c) message) w"

text \<open>The loop ends when a read, a decoding or a write fails; \<open>None\<close> means that it never does.\<close>

partial_function (option) handle_client ::
    "codecs \<Rightarrow> 'w stream_ops \<Rightarrow> 'w \<Rightarrow> daemon \<Rightarrow> ('w \<times> daemon) option"
where
  "handle_client c ops w d =
     (case read_framed ops w of
        (Inl e, w) \<Rightarrow> Some (w, d)
      | (Inr buf, w) \<Rightarrow>
          (case from_wire (c_message c) buf of
             None \<Rightarrow> Some (w, d)
           | Some message \<Rightarrow>
               (case dispatch_message c message d of
                  (response, d) \<Rightarrow>
                    (case send_message c ops response w of
                       (Some e, w) \<Rightarrow> Some (w, d)
                     | (None, w) \<Rightarrow> handle_client c ops w d))))"

section \<open>Accepting clients\<close>

text \<open>
  What one iteration of \<open>accept_loop\<close> sees: the shutdown flag it loads and the outcome of
  \<open>accept\<close>, with whether \<open>set_nonblocking(false)\<close> succeeded on the new stream.
\<close>

datatype 's accepted = Accepted 's bool | WouldBlock | AcceptFailed io_error

partial_function (option) accept_loop ::
    "(nat \<Rightarrow> bool) \<Rightarrow> (nat \<Rightarrow> 's accepted) \<Rightarrow> nat \<Rightarrow> 's list \<Rightarrow> (io_error option \<times> 's list) option"
where
  "accept_loop shutdown accept n spawned =
     (if shutdown n then Some (None, spawned)
      else
        (case accept n of
           Accepted stream ok \<Rightarrow>
             if \<not> ok then accept_loop shutdown accept (Suc n) spawned
             else accept_loop shutdown accept (Suc n) (spawned @ [stream])
         | WouldBlock \<Rightarrow> accept_loop shutdown accept (Suc n) spawned
         | AcceptFailed e \<Rightarrow> Some (Some e, spawned)))"

section \<open>The socket file\<close>

record 'f server_os =
  so_remove_file :: "bytes \<Rightarrow> 'f \<Rightarrow> io_error option \<times> 'f"
  so_bind :: "bytes \<Rightarrow> 'f \<Rightarrow> io_error option \<times> 'f"
  so_listener_nonblocking :: "'f \<Rightarrow> io_error option \<times> 'f"
  so_set_permissions :: "bytes \<Rightarrow> u32 \<Rightarrow> 'f \<Rightarrow> io_error option \<times> 'f"

definition remove_socket :: "'f server_os \<Rightarrow> bytes \<Rightarrow> 'f \<Rightarrow> 'f" where
  "remove_socket os path f = snd (so_remove_file os path f)"

text \<open>The permissions are \<open>0o666\<close>, the number \<open>0x1B6\<close>.\<close>

definition bind_listener :: "'f server_os \<Rightarrow> bytes \<Rightarrow> 'f \<Rightarrow> io_error option \<times> 'f" where
  "bind_listener os path f =
     (case so_bind os path (remove_socket os path f) of
        (Some e, f) \<Rightarrow> (Some e, f)
      | (None, f) \<Rightarrow>
          (case so_listener_nonblocking os f of
             (Some e, f) \<Rightarrow> (Some e, f)
           | (None, f) \<Rightarrow> (None, snd (so_set_permissions os path 0x1B6 f))))"

text \<open>
  \<open>run_blocking\<close>; \<open>loop\<close> is the accept loop on the fresh state (with everything its handler
  threads do meanwhile), \<open>None\<close> when it never returns.
\<close>

definition run_blocking ::
    "'f server_os \<Rightarrow> (fake_root_state \<Rightarrow> 'f \<Rightarrow> (io_error option \<times> 'f) option) \<Rightarrow>
     bytes \<Rightarrow> u32 \<Rightarrow> u32 \<Rightarrow> bool \<Rightarrow> 'f \<Rightarrow> (io_error option \<times> 'f) option" where
  "run_blocking os loop path uid gid cleanup f =
     (case bind_listener os path f of
        (Some e, f) \<Rightarrow> Some (Some e, f)
      | (None, f) \<Rightarrow>
          (case loop (new_shared_state uid gid) f of
             None \<Rightarrow> None
           | Some (result, f) \<Rightarrow>
               Some (result,
                 if cleanup \<or> result = None then remove_socket os path f else f)))"

record session_daemon =
  sd_socket_path :: bytes
  sd_daemon :: daemon

definition session_daemon_start ::
    "'f server_os \<Rightarrow> bytes \<Rightarrow> u32 \<Rightarrow> u32 \<Rightarrow> 'f \<Rightarrow> (io_error + session_daemon) \<times> 'f" where
  "session_daemon_start os path uid gid f =
     (case bind_listener os path f of
        (Some e, f) \<Rightarrow> (Inl e, f)
      | (None, f) \<Rightarrow>
          (Inr \<lparr>sd_socket_path = path,
                sd_daemon = \<lparr>d_state = new_shared_state uid gid, d_shutdown = False\<rparr>\<rparr>, f))"

text \<open>
  Dropping the session: raise the flag, join the accept thread, remove the socket; \<open>join\<close>
  stands for what the accept thread still does once the flag is up.
\<close>

definition session_daemon_drop ::
    "'f server_os \<Rightarrow> (daemon \<Rightarrow> 'f \<Rightarrow> 'f option) \<Rightarrow> session_daemon \<Rightarrow> 'f \<Rightarrow> 'f option" where
  "session_daemon_drop os join sd f =
     map_option (remove_socket os (sd_socket_path sd))
       (join ((sd_daemon sd)\<lparr>d_shutdown := True\<rparr>) f)"

end
