(* ===== verification/Daemon_Laws.thy ===== *)
theory Daemon_Laws
  imports Daemon_Server
begin

text \<open>
  Facts about the daemon: what a dispatch changes and answers, that its table keeps the
  contract of \<open>inode_store\<close> when it is used through messages, and what the loop that serves
  one client does with the bytes it is sent.
\<close>

section \<open>Dispatch\<close>

text \<open>The table operation a message asks for, if its payload decodes.\<close>

definition op_of_message :: "codecs \<Rightarrow> protocol_message \<Rightarrow> store_op option" where
  "op_of_message c m =
     (case message_type m of
        RegisterOwnership \<Rightarrow>
          map_option (\<lambda>p. Upsert (is_dev p, is_ino p) (inode_of_state p))
            (from_wire (c_state c) (payload m))
      | UpsertChown \<Rightarrow>
          map_option (\<lambda>p. Chown (cp_dev p, cp_ino p) (cp_uid p) (cp_gid p)
              (cp_default_uid p) (cp_default_gid p)) (from_wire (c_chown c) (payload m))
      | RemoveOwnership \<Rightarrow>
          map_option (\<lambda>p. Remove (ik_dev p, ik_ino p)) (from_wire (c_key c) (payload m))
      | _ \<Rightarrow> None)"

definition ids_of_message :: "codecs \<Rightarrow> protocol_message \<Rightarrow> (u32 \<times> u32) option" where
  "ids_of_message c m =
     (if message_type m = SetCurrentUidGid \<or> message_type m = Init then
        map_option (\<lambda>p. (ug_uid p, ug_gid p)) (from_wire (c_uid_gid c) (payload m))
      else None)"

abbreviation dispatch_state :: "codecs \<Rightarrow> protocol_message \<Rightarrow> daemon \<Rightarrow> daemon" where
  "dispatch_state c m d \<equiv> snd (dispatch_message c m d)"

abbreviation dispatch_reply :: "codecs \<Rightarrow> protocol_message \<Rightarrow> daemon \<Rightarrow> protocol_message" where
  "dispatch_reply c m d \<equiv> fst (dispatch_message c m d)"

lemma frs_lookup_ext:
  "frs_get_inode (frs_set_inode k i s) = (frs_get_inode s)(k \<mapsto> i)"
  "frs_get_inode (snd (frs_remove_inode k s)) = (frs_get_inode s)(k := None)"
  "frs_get_inode (frs_set_current u g s) = frs_get_inode s"
  "frs_get_inode (frs_upsert_chown k u g du dg s) = (frs_get_inode s)(k \<mapsto> merge_ids u g
        (case frs_get_inode s k of Some i \<Rightarrow> i | None \<Rightarrow> fake_inode_new du dg))"
  by (auto simp: fun_eq_iff store_simps)

lemma dispatch_table:
  "frs_get_inode (d_state (dispatch_state c m d)) =
     (case op_of_message c m of
        Some x \<Rightarrow> spec_op id x (frs_get_inode (d_state d))
      | None \<Rightarrow> frs_get_inode (d_state d))"
  by (cases "message_type m")
     (auto simp: dispatch_message_def op_of_message_def Let_def frs_lookup_ext split: option.splits)

lemma dispatch_ids:
  "(frs_current_uid (d_state (dispatch_state c m d)), frs_current_gid (d_state (dispatch_state c m d))) =
     (case ids_of_message c m of
        Some i \<Rightarrow> i
      | None \<Rightarrow> (frs_current_uid (d_state d), frs_current_gid (d_state d)))"
  by (cases "message_type m")
     (auto simp: dispatch_message_def ids_of_message_def Let_def frame_simps split: option.splits)

lemma dispatch_shutdown:
  "d_shutdown (dispatch_state c m d) \<longleftrightarrow> d_shutdown d \<or> message_type m = Shutdown"
  by (cases "message_type m")
     (auto simp: dispatch_message_def Let_def split: option.splits)

lemma dispatch_reply_id: "request_id (dispatch_reply c m d) = request_id m"
  by (cases "message_type m") (auto simp: dispatch_message_def Let_def split: option.splits)

lemma dispatch_reply_type: "message_type (dispatch_reply c m d) \<in> {Response, Error}"
  by (cases "message_type m") (auto simp: dispatch_message_def Let_def split: option.splits)

lemma dispatch_error: "message_type (dispatch_reply c m d) = Error \<Longrightarrow> dispatch_state c m d = d"
  by (cases "message_type m") (auto simp: dispatch_message_def Let_def split: option.splits)

section \<open>The messages a client builds\<close>

definition key_message :: "codecs \<Rightarrow> message_type \<Rightarrow> inode_key \<Rightarrow> u64 \<Rightarrow> protocol_message" where
  "key_message c t k i = pm_new t (to_wire (c_key c) \<lparr>ik_dev = fst k, ik_ino = snd k\<rparr>) i"

definition chown_message ::
    "codecs \<Rightarrow> inode_key \<Rightarrow> u32 \<Rightarrow> u32 \<Rightarrow> u32 \<Rightarrow> u32 \<Rightarrow> u64 \<Rightarrow> protocol_message" where
  "chown_message c k u g du dg i =
     pm_new UpsertChown (to_wire (c_chown c)
       \<lparr>cp_dev = fst k, cp_ino = snd k, cp_uid = u, cp_gid = g, cp_default_uid = du,
        cp_default_gid = dg\<rparr>) i"

definition state_message :: "codecs \<Rightarrow> inode_key \<Rightarrow> fake_inode \<Rightarrow> u64 \<Rightarrow> protocol_message" where
  "state_message c k n i =
     pm_new RegisterOwnership (to_wire (c_state c)
       \<lparr>is_dev = fst k, is_ino = snd k, is_uid = i_uid n, is_gid = i_gid n, is_mode = i_mode n,
        is_rdev = i_rdev n, is_xattrs = i_xattrs n\<rparr>) i"

definition ids_message :: "codecs \<Rightarrow> message_type \<Rightarrow> u32 \<Rightarrow> u32 \<Rightarrow> u64 \<Rightarrow> protocol_message" where
  "ids_message c t u g i = pm_new t (to_wire (c_uid_gid c) \<lparr>ug_uid = u, ug_gid = g\<rparr>) i"

text \<open>What a client makes of the answer to a lookup.\<close>

definition inode_of_result :: "inode_state_result \<Rightarrow> fake_inode option" where
  "inode_of_result r =
     (if ir_found r
      then Some \<lparr>i_uid = ir_uid r, i_gid = ir_gid r, i_mode = ir_mode r, i_rdev = ir_rdev r,
                 i_xattrs = ir_xattrs r\<rparr>
      else None)"

lemma inode_of_result_of_inode [simp]: "inode_of_result (result_of_inode r) = r"
  by (cases r) (simp_all add: inode_of_result_def result_of_inode_def)

lemma inode_of_state_payload [simp]:
  "inode_of_state \<lparr>is_dev = a, is_ino = b, is_uid = i_uid n, is_gid = i_gid n, is_mode = i_mode n,
     is_rdev = i_rdev n, is_xattrs = i_xattrs n\<rparr> = n"
  by (simp add: inode_of_state_def)

lemma op_of_messages:
  assumes "codecs_ok c"
  shows "op_of_message c (state_message c k n i) = Some (Upsert k n)"
    "op_of_message c (chown_message c k u g du dg i) = Some (Chown k u g du dg)"
    "op_of_message c (key_message c RemoveOwnership k i) = Some (Remove k)"
    "op_of_message c (key_message c GetOwnership k i) = None"
  by (auto simp: op_of_message_def state_message_def chown_message_def key_message_def
      codecs_okD [OF assms])

lemma ids_of_messages:
  assumes "codecs_ok c"
  shows "ids_of_message c (ids_message c SetCurrentUidGid u g i) = Some (u, g)"
    "ids_of_message c (ids_message c Init u g i) = Some (u, g)"
  by (simp_all add: ids_of_message_def ids_message_def codecs_okD [OF assms])

lemma dispatch_get:
  "codecs_ok c \<Longrightarrow> dispatch_message c (key_message c GetOwnership k i) d =
     (pm_response i (to_wire (c_result c) (result_of_inode (frs_get_inode (d_state d) k))), d)"
  by (simp add: dispatch_message_def key_message_def codecs_okD)

lemma dispatch_current:
  "dispatch_message c (pm_new GetCurrentUidGid p i) d =
     (pm_response i (to_wire (c_uid_gid c)
        \<lparr>ug_uid = frs_current_uid (d_state d), ug_gid = frs_current_gid (d_state d)\<rparr>), d)"
  by (simp add: dispatch_message_def Let_def)

lemma dispatch_replies:
  assumes "codecs_ok c"
  shows "dispatch_reply c (state_message c k n i) d = pm_response i []"
    "dispatch_reply c (chown_message c k u g du dg i) d = pm_response i []"
    "dispatch_reply c (key_message c RemoveOwnership k i) d = pm_response i []"
    "dispatch_reply c (ids_message c SetCurrentUidGid u g i) d = pm_response i []"
    "dispatch_reply c (ids_message c Init u g i) d = pm_response i []"
  by (simp_all add: dispatch_message_def state_message_def chown_message_def key_message_def
      ids_message_def codecs_okD [OF assms])

section \<open>The daemon's table keeps the contract\<close>

definition daemon_lookup :: "codecs \<Rightarrow> daemon \<Rightarrow> inode_key \<Rightarrow> fake_inode option" where
  "daemon_lookup c d k =
     Option.bind (from_wire (c_result c) (payload (dispatch_reply c (key_message c GetOwnership k 0) d)))
       inode_of_result"

lemma daemon_lookup_eq: "codecs_ok c \<Longrightarrow> daemon_lookup c d = frs_get_inode (d_state d)"
  by (rule ext) (simp add: daemon_lookup_def dispatch_get codecs_okD)

interpretation daemon: inode_store "\<lambda>_. codecs_ok c" "daemon_lookup c"
    "\<lambda>k i. dispatch_state c (state_message c k i 0)"
    "\<lambda>k. dispatch_state c (key_message c RemoveOwnership k 0)"
    "\<lambda>k u g du dg. dispatch_state c (chown_message c k u g du dg 0)" "\<lambda>_ _. True" id for c
  by unfold_locales (auto simp: daemon_lookup_eq dispatch_table op_of_messages)

section \<open>Serving one client\<close>

lemma handle_client_mem_total: "\<exists>r. handle_client c mem_ops s d = Some r"
proof (induction "length (ms_in s)" arbitrary: s d rule: less_induct)
  case less
  obtain r s1 where read: "read_framed mem_ops s = (r, s1)" by force
  show ?case
  proof (cases r)
    case (Inl e)
    with read show ?thesis by (subst handle_client.simps) simp
  next
    case (Inr buf)
    show ?thesis
    proof (cases "from_wire (c_message c) buf")
      case None
      with read Inr show ?thesis by (subst handle_client.simps) simp
    next
      case (Some m)
      obtain rep d1 where disp: "dispatch_message c m d = (rep, d1)" by force
      obtain e s2 where send: "send_message c mem_ops rep s1 = (e, s2)" by force
      have "length (ms_in s2) < length (ms_in s)"
        using send mem_read_progress [OF read [unfolded Inr]]
        by (cases "ms_peer_open s1")
           (auto simp: send_message_def mem_write_framed mem_write_framed_closed)
      then have "\<exists>r. handle_client c mem_ops s2 d1 = Some r" by (rule less)
      then show ?thesis
        using read Inr Some disp send by (subst handle_client.simps) (cases e; simp)
    qed
  qed
qed

text \<open>A list of requests on the wire, the daemon after them, and its answers.\<close>

definition wire_message :: "codecs \<Rightarrow> protocol_message \<Rightarrow> bytes" where
  "wire_message c m = frame (to_wire (c_message c) m)"

definition fits_frame :: "codecs \<Rightarrow> protocol_message \<Rightarrow> bool" where
  "fits_frame c m \<longleftrightarrow> length (to_wire (c_message c) m) < 2 ^ 32"

definition dispatch_all :: "codecs \<Rightarrow> protocol_message list \<Rightarrow> daemon \<Rightarrow> daemon" where
  "dispatch_all c ms d = fold (dispatch_state c) ms d"

fun replies :: "codecs \<Rightarrow> protocol_message list \<Rightarrow> daemon \<Rightarrow> protocol_message list" where
  "replies c [] d = []"
| "replies c (m # ms) d = dispatch_reply c m d # replies c ms (dispatch_state c m d)"

lemma replies_ids: "map request_id (replies c ms d) = map request_id ms"
  by (induction ms arbitrary: d) (simp_all add: dispatch_reply_id)

lemma mem_read_message:
  "fits_frame c m \<Longrightarrow> ms_in s = wire_message c m @ rest \<Longrightarrow>
     read_framed mem_ops s = (Inr (to_wire (c_message c) m), s\<lparr>ms_in := rest\<rparr>)"
  by (simp add: mem_read_frame fits_frame_def wire_message_def)

lemma handle_client_prefix:
  assumes "codecs_ok c"
  shows "ms_peer_open s \<Longrightarrow> \<forall>m\<in>set ms. fits_frame c m \<Longrightarrow>
    ms_in s = concat (map (wire_message c) ms) @ rest \<Longrightarrow>
    handle_client c mem_ops s d =
      handle_client c mem_ops
        (s\<lparr>ms_in := rest, ms_out := ms_out s @ concat (map (wire_message c) (replies c ms d))\<rparr>)
        (dispatch_all c ms d)"
proof (induction ms arbitrary: s d)
  case Nil
  then show ?case by (cases s) (simp add: dispatch_all_def)
next
  case (Cons m ms)
  let ?s1 = "s\<lparr>ms_in := concat (map (wire_message c) ms) @ rest\<rparr>"
  let ?s2 = "?s1\<lparr>ms_out := ms_out s @ wire_message c (dispatch_reply c m d)\<rparr>"
  have "read_framed mem_ops s = (Inr (to_wire (c_message c) m), ?s1)"
    using Cons.prems by (intro mem_read_message) simp_all
  moreover have "send_message c mem_ops (dispatch_reply c m d) ?s1 = (None, ?s2)"
    using Cons.prems by (simp add: send_message_def mem_write_framed wire_message_def)
  ultimately have "handle_client c mem_ops s d = handle_client c mem_ops ?s2 (dispatch_state c m d)"
    by (subst handle_client.simps) (simp add: codecs_okD [OF assms] case_prod_beta)
  also have "\<dots> = handle_client c mem_ops
      (?s2\<lparr>ms_in := rest,
        ms_out := ms_out ?s2 @ concat (map (wire_message c) (replies c ms (dispatch_state c m d)))\<rparr>)
      (dispatch_all c ms (dispatch_state c m d))"
    using Cons.prems by (intro Cons.IH) simp_all
  finally show ?case by (simp add: dispatch_all_def)
qed

lemma handle_client_short:
  "length (ms_in s) < 4 \<Longrightarrow> handle_client c mem_ops s d = Some (s\<lparr>ms_in := []\<rparr>, d)"
  by (subst handle_client.simps) (simp add: mem_read_short)

text \<open>Whatever the bytes, the daemon only ever goes through dispatches, and answers each.\<close>

lemma handle_client_dispatches:
  "handle_client c mem_ops s d = Some (s', d') \<Longrightarrow>
     \<exists>ms. d' = dispatch_all c ms d \<and>
       (ms_peer_open s \<longrightarrow> ms_out s' = ms_out s @ concat (map (wire_message c) (replies c ms d)))"
proof (induction "length (ms_in s)" arbitrary: s d rule: less_induct)
  case less
  obtain r s1 where read: "read_framed mem_ops s = (r, s1)" by force
  have out: "ms_out s1 = ms_out s \<and> ms_peer_open s1 = ms_peer_open s"
    using read by (auto simp: read_framed_def mem_ops_def mem_read_def split: if_splits)
  have stop: "?case" if "(s', d') = (s1, d)"
    using that out by (intro exI [of _ "[]"]) (simp add: dispatch_all_def)
  show ?case
  proof (cases r)
    case (Inl e)
    with read less.prems stop show ?thesis by (subst (asm) handle_client.simps) simp
  next
    case (Inr buf)
    show ?thesis
    proof (cases "from_wire (c_message c) buf")
      case None
      with read Inr less.prems stop show ?thesis by (subst (asm) handle_client.simps) simp
    next
      case (Some m)
      let ?s2 = "s1\<lparr>ms_out := ms_out s1 @ wire_message c (dispatch_reply c m d)\<rparr>"
      have run: "Some (s', d') = (case send_message c mem_ops (dispatch_reply c m d) s1 of
          (Some e, s) \<Rightarrow> Some (s, dispatch_state c m d)
        | (None, s) \<Rightarrow> handle_client c mem_ops s (dispatch_state c m d))"
        using read Inr Some less.prems by (subst (asm) handle_client.simps) (simp add: case_prod_beta)
      show ?thesis
      proof (cases "ms_peer_open s")
        case False
        with run out have "d' = dispatch_state c m d"
          by (simp add: send_message_def mem_write_framed_closed)
        with False show ?thesis by (intro exI [of _ "[m]"]) (simp add: dispatch_all_def)
      next
        case True
        with run out have rec: "handle_client c mem_ops ?s2 (dispatch_state c m d) = Some (s', d')"
          by (simp add: send_message_def mem_write_framed wire_message_def)
        have "length (ms_in ?s2) < length (ms_in s)" using mem_read_progress [OF read [unfolded Inr]] by simp
        from less.hyps [OF this rec] obtain ms where
          "d' = dispatch_all c ms (dispatch_state c m d)"
          "ms_out s' = ms_out ?s2 @ concat (map (wire_message c) (replies c ms (dispatch_state c m d)))"
          using True out by auto
        then show ?thesis using out by (intro exI [of _ "m # ms"]) (simp add: dispatch_all_def)
      qed
    qed
  qed
qed

lemma dispatch_all_table:
  "frs_get_inode (d_state (dispatch_all c ms d)) =
     fold (spec_op id) (List.map_filter (op_of_message c) ms) (frs_get_inode (d_state d))"
  unfolding dispatch_all_def
  by (induction ms arbitrary: d) (simp_all add: dispatch_table List.map_filter_simps split: option.split)

section \<open>The accept loop\<close>

definition accept_stops :: "(nat \<Rightarrow> bool) \<Rightarrow> (nat \<Rightarrow> 's accepted) \<Rightarrow> nat \<Rightarrow> bool" where
  "accept_stops shutdown accept n \<longleftrightarrow> shutdown n \<or> (\<exists>e. accept n = AcceptFailed e)"

definition accepted_before :: "(nat \<Rightarrow> 's accepted) \<Rightarrow> nat \<Rightarrow> nat \<Rightarrow> 's list" where
  "accepted_before accept m n =
     concat (map (\<lambda>i. case accept i of Accepted s ok \<Rightarrow> if ok then [s] else [] | _ \<Rightarrow> []) [m..<n])"

lemma accept_loop_stop:
  "accept_stops shutdown accept n \<Longrightarrow> accept_loop shutdown accept n spawned =
     Some (if shutdown n then None else (case accept n of AcceptFailed e \<Rightarrow> Some e | _ \<Rightarrow> None), spawned)"
  by (subst accept_loop.simps) (auto simp: accept_stops_def)

lemma accept_loop_next:
  "\<not> accept_stops shutdown accept n \<Longrightarrow> accept_loop shutdown accept n spawned =
     accept_loop shutdown accept (Suc n)
       (spawned @ (case accept n of Accepted s ok \<Rightarrow> if ok then [s] else [] | _ \<Rightarrow> []))"
  by (subst accept_loop.simps) (auto simp: accept_stops_def split: accepted.split)

lemma accept_loop_until:
  "\<forall>i<k. \<not> accept_stops shutdown accept (n + i) \<Longrightarrow> accept_loop shutdown accept n spawned =
     accept_loop shutdown accept (n + k) (spawned @ accepted_before accept n (n + k))"
proof (induction k)
  case (Suc k)
  then have "accept_loop shutdown accept n spawned =
      accept_loop shutdown accept (n + k) (spawned @ accepted_before accept n (n + k))" by simp
  also have "\<dots> = accept_loop shutdown accept (Suc (n + k))
      ((spawned @ accepted_before accept n (n + k)) @
       (case accept (n + k) of Accepted s ok \<Rightarrow> if ok then [s] else [] | _ \<Rightarrow> []))"
    using Suc.prems by (intro accept_loop_next) simp
  finally show ?case by (simp add: accepted_before_def)
qed (simp add: accepted_before_def)

lemma accept_loop_returned:
  "accept_loop shutdown accept n spawned = Some r \<Longrightarrow> \<exists>n. accept_stops shutdown accept n"
  by (erule accept_loop.raw_induct [where P = "\<lambda>sh ac n sp r. \<exists>n. accept_stops sh ac n", rotated])
     (auto simp: accept_stops_def split: accepted.splits if_splits)

lemma accept_loop_closed_form:
  "accept_loop shutdown accept 0 [] =
     (if \<exists>n. accept_stops shutdown accept n then
        (let n = LEAST n. accept_stops shutdown accept n in
         Some (if shutdown n then None else (case accept n of AcceptFailed e \<Rightarrow> Some e | _ \<Rightarrow> None),
           accepted_before accept 0 n))
      else None)"
proof (cases "\<exists>n. accept_stops shutdown accept n")
  case True
  let ?n = "LEAST n. accept_stops shutdown accept n"
  have "accept_stops shutdown accept ?n" using True by (rule LeastI_ex)
  moreover have "accept_loop shutdown accept 0 [] =
      accept_loop shutdown accept (0 + ?n) ([] @ accepted_before accept 0 (0 + ?n))"
    by (rule accept_loop_until) (auto dest: not_less_Least)
  ultimately show ?thesis using True by (simp add: accept_loop_stop Let_def)
next
  case False
  then have "accept_loop shutdown accept 0 [] = None"
    using accept_loop_returned by (cases "accept_loop shutdown accept 0 []") blast+
  with False show ?thesis by simp
qed

end
