(* ===== verification/Daemon_Client.thy ===== *)
theory Daemon_Client
  imports Daemon_Laws
begin

text \<open>
  The client side of the daemon (\<open>pseudoroot-core/src/daemon_client.rs\<close>): the statics of one
  process and the calls the interposed library makes.  \<open>dl_net\<close> is the world behind the
  socket.  A poisoned mutex needs a panic under its guard and is not modelled.
\<close>

record 'w daemon_link =
  dl_env :: "bytes option"
  dl_channel :: "ipc_channel option"
  dl_connected :: bool
  dl_next_id :: u64
  dl_net :: 'w

text \<open>\<open>env::var\<close> fails on a value that is not UTF-8.\<close>

definition get_daemon_socket_path :: "'w daemon_link \<Rightarrow> bytes option" where
  "get_daemon_socket_path l =
     (case dl_env l of Some v \<Rightarrow> if utf8_valid v then Some v else None | None \<Rightarrow> None)"

definition daemon_mode_enabled :: "'w daemon_link \<Rightarrow> bool" where
  "daemon_mode_enabled l \<longleftrightarrow> get_daemon_socket_path l \<noteq> None"

definition daemon_mode_active :: "'w daemon_link \<Rightarrow> bool" where
  "daemon_mode_active l \<longleftrightarrow> daemon_mode_enabled l \<and> dl_connected l"

definition init_daemon_connection :: "'w stream_ops \<Rightarrow> 'w daemon_link \<Rightarrow> bool \<times> 'w daemon_link" where
  "init_daemon_connection ops l =
     (if \<not> daemon_mode_enabled l then (False, l)
      else
        case get_daemon_socket_path l of
          None \<Rightarrow> (False, l)
        | Some socket_path \<Rightarrow>
            (let (channel, l) =
               (case dl_channel l of
                  Some ch \<Rightarrow> (ch, l)
                | None \<Rightarrow>
                    (case ipc_connect ops (ipc_new socket_path, dl_net l) of
                       (r, ch, net) \<Rightarrow>
                         (ch, l\<lparr>dl_channel := Some ch, dl_connected := (r = None),
                                dl_net := net\<rparr>)))
             in if dl_connected l then (True, l)
                else
                  (case ipc_connect ops (channel, dl_net l) of
                     (r, ch, net) \<Rightarrow>
                       (r = None,
                        l\<lparr>dl_channel := Some ch, dl_connected := (r = None), dl_net := net\<rparr>))))"

definition get_daemon_channel :: "'w daemon_link \<Rightarrow> ipc_channel option" where
  "get_daemon_channel l = (if \<not> daemon_mode_active l then None else dl_channel l)"

definition daemon_request ::
    "codecs \<Rightarrow> 'w stream_ops \<Rightarrow> message_type \<Rightarrow> bytes \<Rightarrow> 'w daemon_link \<Rightarrow>
       protocol_message option \<times> 'w daemon_link" where
  "daemon_request c ops t p l =
     (case get_daemon_channel l of
        None \<Rightarrow> (None, l)
      | Some channel \<Rightarrow>
          (case next_request_id (dl_next_id l) of
             (i, next_id) \<Rightarrow>
               (case ipc_request c ops channel (pm_new t p i) (dl_net l) of
                  (r, net) \<Rightarrow>
                    (case r of Inr m \<Rightarrow> Some m | Inl e \<Rightarrow> None,
                     l\<lparr>dl_next_id := next_id, dl_net := net\<rparr>))))"

definition daemon_request_ok ::
    "codecs \<Rightarrow> 'w stream_ops \<Rightarrow> message_type \<Rightarrow> bytes \<Rightarrow> 'w daemon_link \<Rightarrow> bool \<times> 'w daemon_link" where
  "daemon_request_ok c ops t p l =
     (case daemon_request c ops t p l of
        (None, l) \<Rightarrow> (False, l)
      | (Some r, l) \<Rightarrow> (message_type r \<noteq> Error, l))"

definition daemon_get_current_uid_gid ::
    "codecs \<Rightarrow> 'w stream_ops \<Rightarrow> 'w daemon_link \<Rightarrow> (u32 \<times> u32) option \<times> 'w daemon_link" where
  "daemon_get_current_uid_gid c ops l =
     (case daemon_request c ops GetCurrentUidGid [] l of
        (None, l) \<Rightarrow> (None, l)
      | (Some response, l) \<Rightarrow>
          if message_type response \<noteq> Response then (None, l)
          else (map_option (\<lambda>p. (ug_uid p, ug_gid p)) (from_wire (c_uid_gid c) (payload response)), l))"

definition daemon_set_current_uid_gid ::
    "codecs \<Rightarrow> 'w stream_ops \<Rightarrow> u32 \<Rightarrow> u32 \<Rightarrow> 'w daemon_link \<Rightarrow> bool \<times> 'w daemon_link" where
  "daemon_set_current_uid_gid c ops uid gid l =
     daemon_request_ok c ops SetCurrentUidGid (to_wire (c_uid_gid c) \<lparr>ug_uid = uid, ug_gid = gid\<rparr>) l"

definition daemon_get_inode ::
    "codecs \<Rightarrow> 'w stream_ops \<Rightarrow> inode_key \<Rightarrow> 'w daemon_link \<Rightarrow> fake_inode option \<times> 'w daemon_link" where
  "daemon_get_inode c ops key l =
     (case daemon_request c ops GetOwnership
             (to_wire (c_key c) \<lparr>ik_dev = fst key, ik_ino = snd key\<rparr>) l of
        (None, l) \<Rightarrow> (None, l)
      | (Some response, l) \<Rightarrow>
          if message_type response \<noteq> Response then (None, l)
          else
            (case from_wire (c_result c) (payload response) of
               None \<Rightarrow> (None, l)
             | Some r \<Rightarrow> (inode_of_result r, l)))"

definition daemon_upsert_chown ::
    "codecs \<Rightarrow> 'w stream_ops \<Rightarrow> inode_key \<Rightarrow> u32 \<Rightarrow> u32 \<Rightarrow> u32 \<Rightarrow> u32 \<Rightarrow> 'w daemon_link \<Rightarrow>
       bool \<times> 'w daemon_link" where
  "daemon_upsert_chown c ops key uid gid default_uid default_gid l =
     daemon_request_ok c ops UpsertChown (to_wire (c_chown c)
       \<lparr>cp_dev = fst key, cp_ino = snd key, cp_uid = uid, cp_gid = gid,
        cp_default_uid = default_uid, cp_default_gid = default_gid\<rparr>) l"

definition daemon_set_inode ::
    "codecs \<Rightarrow> 'w stream_ops \<Rightarrow> inode_key \<Rightarrow> fake_inode \<Rightarrow> 'w daemon_link \<Rightarrow> bool \<times> 'w daemon_link" where
  "daemon_set_inode c ops key inode l =
     daemon_request_ok c ops RegisterOwnership (to_wire (c_state c)
       \<lparr>is_dev = fst key, is_ino = snd key, is_uid = i_uid inode, is_gid = i_gid inode,
        is_mode = i_mode inode, is_rdev = i_rdev inode, is_xattrs = i_xattrs inode\<rparr>) l"

definition daemon_remove_inode ::
    "codecs \<Rightarrow> 'w stream_ops \<Rightarrow> inode_key \<Rightarrow> 'w daemon_link \<Rightarrow> bool \<times> 'w daemon_link" where
  "daemon_remove_inode c ops key l =
     daemon_request_ok c ops RemoveOwnership
       (to_wire (c_key c) \<lparr>ik_dev = fst key, ik_ino = snd key\<rparr>) l"

definition daemon_init ::
    "codecs \<Rightarrow> 'w stream_ops \<Rightarrow> u32 \<Rightarrow> u32 \<Rightarrow> 'w daemon_link \<Rightarrow> bool \<times> 'w daemon_link" where
  "daemon_init c ops uid gid l =
     daemon_request_ok c ops Init (to_wire (c_uid_gid c) \<lparr>ug_uid = uid, ug_gid = gid\<rparr>) l"

section \<open>A daemon behind the socket\<close>

text \<open>
  A world in which the socket leads to a daemon: \<open>rp_tx\<close> are the request bytes the daemon has
  not read, \<open>rp_rx\<close> the answer bytes the client has not read.  A read that finds too few
  bytes lets the daemon serve what was sent.
\<close>

record rpc_world =
  rp_daemon :: daemon
  rp_tx :: bytes
  rp_rx :: bytes
  rp_up :: bool

definition rpc_serve :: "codecs \<Rightarrow> rpc_world \<Rightarrow> rpc_world" where
  "rpc_serve c w =
     (case handle_client c mem_ops \<lparr>ms_in = rp_tx w, ms_out = [], ms_peer_open = True\<rparr> (rp_daemon w) of
        Some (s, d) \<Rightarrow> w\<lparr>rp_daemon := d, rp_tx := [], rp_rx := rp_rx w @ ms_out s\<rparr>
      | None \<Rightarrow> w)"

definition rpc_take :: "nat \<Rightarrow> rpc_world \<Rightarrow> (io_error + bytes) \<times> rpc_world" where
  "rpc_take n w =
     (if n \<le> length (rp_rx w) then (Inr (take n (rp_rx w)), w\<lparr>rp_rx := drop n (rp_rx w)\<rparr>)
      else (Inl UnexpectedEof, w\<lparr>rp_rx := []\<rparr>))"

definition rpc_ops :: "codecs \<Rightarrow> rpc_world stream_ops" where
  "rpc_ops c =
     \<lparr>st_connect = (\<lambda>_ w. (if rp_up w then None else Some OtherIo, w)),
      st_set_nonblocking = (\<lambda>_ w. (None, w)),
      st_write_all = (\<lambda>bs w. if rp_up w then (None, w\<lparr>rp_tx := rp_tx w @ bs\<rparr>) else (Some BrokenPipe, w)),
      st_flush = (\<lambda>w. (None, w)),
      st_read_exact = (\<lambda>n w. if n \<le> length (rp_rx w) then rpc_take n w else rpc_take n (rpc_serve c w))\<rparr>"

text \<open>No request is under way and the daemon is there.\<close>

definition rpc_idle :: "rpc_world \<Rightarrow> bool" where
  "rpc_idle w \<longleftrightarrow> rp_up w \<and> rp_tx w = [] \<and> rp_rx w = []"

definition linked :: "rpc_world daemon_link \<Rightarrow> bool" where
  "linked l \<longleftrightarrow> daemon_mode_active l \<and> rpc_idle (dl_net l) \<and>
     (\<exists>ch. dl_channel l = Some ch \<and> ch_stream ch)"

section \<open>One request, one answer\<close>

lemma rpc_serve_one:
  assumes "codecs_ok c" and "fits_frame c m" and "rp_tx w = wire_message c m"
  shows "rpc_serve c w =
    w\<lparr>rp_daemon := dispatch_state c m (rp_daemon w), rp_tx := [],
      rp_rx := rp_rx w @ wire_message c (dispatch_reply c m (rp_daemon w))\<rparr>"
  using handle_client_prefix [OF assms(1), of "\<lparr>ms_in = rp_tx w, ms_out = [], ms_peer_open = True\<rparr>"
      "[m]" "[]" "rp_daemon w"] assms(2,3)
  by (simp add: rpc_serve_def handle_client_short dispatch_all_def)

lemma rpc_read_frame:
  "rp_rx w = frame bs \<Longrightarrow> length bs < 2 ^ 32 \<Longrightarrow>
     read_framed (rpc_ops c) w = (Inr bs, w\<lparr>rp_rx := []\<rparr>)"
  by (simp add: read_framed_def rpc_ops_def rpc_take_def frame_def)

lemma rpc_read_served:
  "rp_rx w = [] \<Longrightarrow> 4 \<le> length (rp_rx (rpc_serve c w)) \<Longrightarrow>
     read_framed (rpc_ops c) w = read_framed (rpc_ops c) (rpc_serve c w)"
  by (simp add: read_framed_def rpc_ops_def)

lemma rpc_request:
  assumes "codecs_ok c" and "rpc_idle w" and "ch_stream ch"
    and "fits_frame c m" and "fits_frame c (dispatch_reply c m (rp_daemon w))"
  shows "ipc_request c (rpc_ops c) ch m w =
    (Inr (dispatch_reply c m (rp_daemon w)), w\<lparr>rp_daemon := dispatch_state c m (rp_daemon w)\<rparr>)"
proof -
  let ?r = "dispatch_reply c m (rp_daemon w)"
  let ?w1 = "w\<lparr>rp_tx := wire_message c m\<rparr>"
  let ?w2 = "w\<lparr>rp_daemon := dispatch_state c m (rp_daemon w), rp_rx := wire_message c ?r\<rparr>"
  have idle: "rp_up w" "rp_tx w = []" "rp_rx w = []" using assms(2) by (simp_all add: rpc_idle_def)
  have send: "ipc_send c (rpc_ops c) ch m w = (None, ?w1)"
    using assms(3) idle
    by (simp add: ipc_send_def write_framed_def rpc_ops_def wire_message_def frame_def)
  have serve: "rpc_serve c ?w1 = ?w2"
    using rpc_serve_one [OF assms(1,4), of ?w1] idle by (cases w) simp
  have "length (wire_message c ?r) \<ge> 4" by (simp add: wire_message_def)
  then have "read_framed (rpc_ops c) ?w1 = read_framed (rpc_ops c) ?w2"
    using idle rpc_read_served [of ?w1 c] by (simp add: serve)
  also have "\<dots> = (Inr (to_wire (c_message c) ?r), ?w2\<lparr>rp_rx := []\<rparr>)"
    using assms(5) by (intro rpc_read_frame) (simp_all add: wire_message_def fits_frame_def)
  finally have "read_framed (rpc_ops c) ?w1 =
      (Inr (to_wire (c_message c) ?r), ?w2\<lparr>rp_rx := []\<rparr>)" .
  then show ?thesis
    using assms(3) idle send
    by (cases w) (simp add: ipc_request_def ipc_recv_def codecs_okD [OF assms(1)])
qed

text \<open>The same for the process-wide link: its answer and its effect on the daemon.\<close>

definition link_dispatch :: "codecs \<Rightarrow> protocol_message \<Rightarrow> rpc_world daemon_link \<Rightarrow> rpc_world daemon_link"
where
  "link_dispatch c m l = l\<lparr>dl_next_id := dl_next_id l + 1,
     dl_net := (dl_net l)\<lparr>rp_daemon := dispatch_state c m (rp_daemon (dl_net l))\<rparr>\<rparr>"

definition rpc_fits :: "codecs \<Rightarrow> protocol_message \<Rightarrow> rpc_world daemon_link \<Rightarrow> bool" where
  "rpc_fits c m l \<longleftrightarrow> fits_frame c m \<and> fits_frame c (dispatch_reply c m (rp_daemon (dl_net l)))"

lemma link_request:
  assumes "codecs_ok c" and "linked l" and "rpc_fits c (pm_new t p (dl_next_id l)) l"
  shows "daemon_request c (rpc_ops c) t p l =
    (Some (dispatch_reply c (pm_new t p (dl_next_id l)) (rp_daemon (dl_net l))),
     link_dispatch c (pm_new t p (dl_next_id l)) l)"
proof -
  obtain ch where ch: "get_daemon_channel l = Some ch" "ch_stream ch"
    using assms(2) by (auto simp: linked_def get_daemon_channel_def)
  have "rpc_idle (dl_net l)" using assms(2) by (simp add: linked_def)
  from rpc_request [OF assms(1) this ch(2)] assms(3) ch(1) show ?thesis
    by (simp add: daemon_request_def next_request_id_def link_dispatch_def rpc_fits_def)
qed

lemma linked_dispatch: "linked l \<Longrightarrow> linked (link_dispatch c m l)"
  by (simp add: linked_def link_dispatch_def rpc_idle_def daemon_mode_active_def
      daemon_mode_enabled_def get_daemon_socket_path_def)

lemma link_dispatch_daemon [simp]:
  "rp_daemon (dl_net (link_dispatch c m l)) = dispatch_state c m (rp_daemon (dl_net l))"
  by (simp add: link_dispatch_def)

text \<open>The table behind a link.\<close>

definition link_table :: "rpc_world daemon_link \<Rightarrow> inode_key \<Rightarrow> fake_inode option" where
  "link_table l = frs_get_inode (d_state (rp_daemon (dl_net l)))"

lemma link_get_inode:
  assumes "codecs_ok c" and "linked l" and "rpc_fits c (key_message c GetOwnership k (dl_next_id l)) l"
  shows "daemon_get_inode c (rpc_ops c) k l =
    (link_table l k, link_dispatch c (key_message c GetOwnership k (dl_next_id l)) l)"
  using link_request [OF assms(1,2) assms(3) [unfolded key_message_def]]
    dispatch_get [OF assms(1), unfolded key_message_def, of k]
  by (simp add: daemon_get_inode_def link_table_def key_message_def codecs_okD [OF assms(1)])

lemma link_request_ok:
  assumes "codecs_ok c" and "linked l" and "rpc_fits c (pm_new t p (dl_next_id l)) l"
  shows "daemon_request_ok c (rpc_ops c) t p l =
    (message_type (dispatch_reply c (pm_new t p (dl_next_id l)) (rp_daemon (dl_net l))) \<noteq> Error,
     link_dispatch c (pm_new t p (dl_next_id l)) l)"
  by (simp add: daemon_request_ok_def link_request [OF assms])

lemma link_updates:
  assumes "codecs_ok c" and "linked l"
  shows "rpc_fits c (state_message c k n (dl_next_id l)) l \<Longrightarrow>
      daemon_set_inode c (rpc_ops c) k n l =
        (True, link_dispatch c (state_message c k n (dl_next_id l)) l)"
    "rpc_fits c (chown_message c k u g du dg (dl_next_id l)) l \<Longrightarrow>
      daemon_upsert_chown c (rpc_ops c) k u g du dg l =
        (True, link_dispatch c (chown_message c k u g du dg (dl_next_id l)) l)"
    "rpc_fits c (key_message c RemoveOwnership k (dl_next_id l)) l \<Longrightarrow>
      daemon_remove_inode c (rpc_ops c) k l =
        (True, link_dispatch c (key_message c RemoveOwnership k (dl_next_id l)) l)"
  using link_request_ok [OF assms] dispatch_replies [OF assms(1)]
  by (simp_all add: daemon_set_inode_def daemon_upsert_chown_def daemon_remove_inode_def
      state_message_def chown_message_def key_message_def)

lemma link_table_dispatch:
  "link_table (link_dispatch c m l) =
     (case op_of_message c m of Some x \<Rightarrow> spec_op id x (link_table l) | None \<Rightarrow> link_table l)"
  by (simp add: link_table_def dispatch_table split: option.split)

end
