(* ===== verification/Daemon_Threads.thy ===== *)
theory Daemon_Threads
  imports Daemon_Laws
begin

text \<open>
  Several clients at once (\<open>accept_loop\<close> spawns one \<open>handle_client\<close> thread per connection in
  \<open>pseudoroot-core/src/daemon_server.rs\<close>).  The steps are the atomic accesses of the threads to
  the shared state: a \<open>DashMap\<close> operation is one step, while the current uid and gid are two
  atomics of their own, so reading or setting the pair takes two steps between which other
  threads may run.  Sending the answer is a step of its own.  Beside the steps of a thread that
  is served there are those by which it ends early: \<open>read_framed\<close> or \<open>send_message\<close> fails, or
  the process exits after a shutdown request.
\<close>

text \<open>
  \<open>Ended ids\<close> is a thread that has left its loop; \<open>ids\<close> is the id of the request it had taken
  and did not answer, if there was one.
\<close>

datatype thread_state =
    Idle
  | LoadedUid u64 u32
  | StoredUid u64 u32
  | Answering protocol_message
  | Ended "u64 list"

fun thread_ended :: "thread_state \<Rightarrow> bool" where
  "thread_ended (Ended ids) = True"
| "thread_ended _ = False"

text \<open>The ids of the requests a thread has taken and not answered.\<close>

fun pending_ids :: "thread_state \<Rightarrow> u64 list" where
  "pending_ids Idle = []"
| "pending_ids (LoadedUid i u) = [i]"
| "pending_ids (StoredUid i g) = [i]"
| "pending_ids (Answering r) = [request_id r]"
| "pending_ids (Ended ids) = ids"

text \<open>
  \<open>sv_inbox t\<close> are the frames client \<open>t\<close> sent and its thread has not read yet, \<open>sv_outbox t\<close>
  the answers sent to it.  \<open>sv_log\<close> records the order in which requests were taken.
\<close>

record server =
  sv_daemon :: daemon
  sv_thread :: "nat \<Rightarrow> thread_state"
  sv_inbox :: "nat \<Rightarrow> bytes list"
  sv_outbox :: "nat \<Rightarrow> protocol_message list"
  sv_log :: "(nat \<times> protocol_message) list"

definition set_thread :: "nat \<Rightarrow> thread_state \<Rightarrow> server \<Rightarrow> server" where
  "set_thread t x s = s\<lparr>sv_thread := (sv_thread s)(t := x)\<rparr>"

definition read_frame :: "nat \<Rightarrow> server \<Rightarrow> server" where
  "read_frame t s = s\<lparr>sv_inbox := (sv_inbox s)(t := tl (sv_inbox s t))\<rparr>"

definition take_request :: "nat \<Rightarrow> protocol_message \<Rightarrow> server \<Rightarrow> server" where
  "take_request t m s = (read_frame t s)\<lparr>sv_log := sv_log s @ [(t, m)]\<rparr>"

definition answer :: "nat \<Rightarrow> protocol_message \<Rightarrow> server \<Rightarrow> server" where
  "answer t r s = s\<lparr>sv_outbox := (sv_outbox s)(t := sv_outbox s t @ [r])\<rparr>"

definition sv_state_update :: "(fake_root_state \<Rightarrow> fake_root_state) \<Rightarrow> server \<Rightarrow> server" where
  "sv_state_update f s = s\<lparr>sv_daemon := (sv_daemon s)\<lparr>d_state := f (d_state (sv_daemon s))\<rparr>\<rparr>"

inductive server_step :: "codecs \<Rightarrow> nat \<Rightarrow> server \<Rightarrow> server \<Rightarrow> bool" for c t where
  undecodable: "sv_thread s t = Idle \<Longrightarrow> sv_inbox s t = f # fs \<Longrightarrow> from_wire (c_message c) f = None \<Longrightarrow>
    server_step c t s (set_thread t (Ended []) (read_frame t s))"
| whole: "sv_thread s t = Idle \<Longrightarrow> sv_inbox s t = f # fs \<Longrightarrow> from_wire (c_message c) f = Some m \<Longrightarrow>
    message_type m \<noteq> GetCurrentUidGid \<Longrightarrow> ids_of_message c m = None \<Longrightarrow>
    dispatch_message c m (sv_daemon s) = (r, d) \<Longrightarrow>
    server_step c t s (set_thread t (Answering r) ((take_request t m s)\<lparr>sv_daemon := d\<rparr>))"
| load_uid: "sv_thread s t = Idle \<Longrightarrow> sv_inbox s t = f # fs \<Longrightarrow> from_wire (c_message c) f = Some m \<Longrightarrow>
    message_type m = GetCurrentUidGid \<Longrightarrow>
    server_step c t s (set_thread t (LoadedUid (request_id m) (frs_current_uid (d_state (sv_daemon s))))
      (take_request t m s))"
| load_gid: "sv_thread s t = LoadedUid i uid \<Longrightarrow>
    server_step c t s (set_thread t (Answering (pm_response i (to_wire (c_uid_gid c)
        \<lparr>ug_uid = uid, ug_gid = frs_current_gid (d_state (sv_daemon s))\<rparr>))) s)"
| store_uid: "sv_thread s t = Idle \<Longrightarrow> sv_inbox s t = f # fs \<Longrightarrow> from_wire (c_message c) f = Some m \<Longrightarrow>
    ids_of_message c m = Some (uid, gid) \<Longrightarrow>
    server_step c t s (set_thread t (StoredUid (request_id m) gid)
      (sv_state_update (\<lambda>f. f\<lparr>frs_current_uid := uid\<rparr>) (take_request t m s)))"
| store_gid: "sv_thread s t = StoredUid i gid \<Longrightarrow>
    server_step c t s (set_thread t (Answering (pm_response i []))
      (sv_state_update (\<lambda>f. f\<lparr>frs_current_gid := gid\<rparr>) s))"
| send_answer: "sv_thread s t = Answering r \<Longrightarrow> server_step c t s (answer t r (set_thread t Idle s))"

inductive server_failure :: "nat \<Rightarrow> server \<Rightarrow> server \<Rightarrow> bool" for t where
  read_fails: "sv_thread s t = Idle \<Longrightarrow> server_failure t s (set_thread t (Ended []) s)"
| send_fails: "sv_thread s t = Answering r \<Longrightarrow>
    server_failure t s (set_thread t (Ended [request_id r]) s)"
| process_exit: "sv_thread s t = x \<Longrightarrow> \<not> thread_ended x \<Longrightarrow> d_shutdown (sv_daemon s) \<Longrightarrow>
    server_failure t s (set_thread t (Ended (pending_ids x)) s)"

inductive_cases server_stepE: "server_step c t s s'"
inductive_cases server_failureE: "server_failure t s s'"

definition server_start :: "daemon \<Rightarrow> (nat \<Rightarrow> bytes list) \<Rightarrow> server" where
  "server_start d inbox =
     \<lparr>sv_daemon = d, sv_thread = (\<lambda>_. Idle), sv_inbox = inbox, sv_outbox = (\<lambda>_. []), sv_log = []\<rparr>"

definition server_move :: "codecs \<Rightarrow> server \<Rightarrow> server \<Rightarrow> bool" where
  "server_move c s s' \<longleftrightarrow> (\<exists>t. server_step c t s s' \<or> server_failure t s s')"

lemma server_moveI:
  "server_step c t s s' \<Longrightarrow> server_move c s s'"
  "server_failure t s s' \<Longrightarrow> server_move c s s'"
  by (auto simp: server_move_def)

abbreviation server_run :: "codecs \<Rightarrow> server \<Rightarrow> server \<Rightarrow> bool" where
  "server_run c \<equiv> (server_move c)\<^sup>*\<^sup>*"

section \<open>Invariants\<close>

text \<open>The requests in a list of frames.\<close>

definition requests_in :: "codecs \<Rightarrow> bytes list \<Rightarrow> protocol_message list" where
  "requests_in c fs = List.map_filter (from_wire (c_message c)) fs"

lemma requests_in_simps [simp]:
  "requests_in c [] = []"
  "from_wire (c_message c) f = None \<Longrightarrow> requests_in c (f # fs) = requests_in c fs"
  "from_wire (c_message c) f = Some m \<Longrightarrow> requests_in c (f # fs) = m # requests_in c fs"
  by (simp_all add: requests_in_def List.map_filter_simps)

lemma requests_in_sent: "codecs_ok c \<Longrightarrow> requests_in c (map (to_wire (c_message c)) ms) = ms"
  by (induction ms) (simp_all add: codecs_okD)

definition conversation :: "codecs \<Rightarrow> server \<Rightarrow> nat \<Rightarrow> u64 list" where
  "conversation c s t =
     map request_id (sv_outbox s t) @ pending_ids (sv_thread s t) @ map request_id (requests_in c (sv_inbox s t))"

definition taken_by :: "nat \<Rightarrow> server \<Rightarrow> protocol_message list" where
  "taken_by t s = map snd (filter (\<lambda>x. fst x = t) (sv_log s))"

definition sv_table :: "server \<Rightarrow> inode_key \<Rightarrow> fake_inode option" where
  "sv_table s = frs_get_inode (d_state (sv_daemon s))"

lemmas step_defs = take_request_def read_frame_def answer_def set_thread_def sv_state_update_def

lemma dispatch_reply_idD: "dispatch_message c m d = (r, d') \<Longrightarrow> request_id r = request_id m"
  using dispatch_reply_id [of c m d] by simp

lemma move_conversation: "server_move c s s' \<Longrightarrow> conversation c s' t = conversation c s t"
  unfolding server_move_def
  by (elim exE disjE server_stepE server_failureE)
     (auto simp: conversation_def step_defs dispatch_reply_idD)

lemma move_taken:
  "server_move c s s' \<Longrightarrow>
     taken_by t s' @ requests_in c (sv_inbox s' t) = taken_by t s @ requests_in c (sv_inbox s t)"
  unfolding server_move_def
  by (elim exE disjE server_stepE server_failureE) (auto simp: taken_by_def step_defs)

lemma op_of_ids: "ids_of_message c m = Some i \<Longrightarrow> op_of_message c m = None"
  by (auto simp: ids_of_message_def op_of_message_def split: if_splits)

lemma op_of_get: "message_type m = GetCurrentUidGid \<Longrightarrow> op_of_message c m = None"
  by (simp add: op_of_message_def)

lemma table_ids [simp]:
  "frs_get_inode (f\<lparr>frs_current_uid := u\<rparr>) = frs_get_inode f"
  "frs_get_inode (f\<lparr>frs_current_gid := u\<rparr>) = frs_get_inode f"
  by (simp_all add: fun_eq_iff frs_get_inode_def)

lemma dispatch_tableD:
  "dispatch_message c m d = (r, d') \<Longrightarrow> frs_get_inode (d_state d') =
     fold (spec_op id) (List.map_filter (op_of_message c) [m]) (frs_get_inode (d_state d))"
  using dispatch_table [of c m d] by (simp add: List.map_filter_simps split: option.split)

lemma map_filter_append:
  "List.map_filter f (xs @ ys) = List.map_filter f xs @ List.map_filter f ys"
  by (simp add: List.map_filter_def)

definition log_ops :: "codecs \<Rightarrow> server \<Rightarrow> store_op list" where
  "log_ops c s = List.map_filter (op_of_message c) (map snd (sv_log s))"

lemma step_table:
  assumes "server_step c t s s'"
  shows "\<exists>xs. log_ops c s' = log_ops c s @ xs \<and> sv_table s' = fold (spec_op id) xs (sv_table s)"
  using assms
proof cases
  case (whole f fs m r d)
  then show ?thesis
    using dispatch_tableD [OF whole(7)]
    by (simp add: log_ops_def sv_table_def step_defs map_filter_append)
qed (simp_all add: log_ops_def sv_table_def step_defs map_filter_append op_of_get op_of_ids
    List.map_filter_simps)

lemma move_table:
  assumes "server_move c s s'"
  shows "\<exists>xs. log_ops c s' = log_ops c s @ xs \<and> sv_table s' = fold (spec_op id) xs (sv_table s)"
proof -
  have "log_ops c s' = log_ops c s \<and> sv_table s' = sv_table s" if "server_failure t s s'" for t
    using that by cases (simp_all add: log_ops_def sv_table_def step_defs)
  with assms step_table show ?thesis unfolding server_move_def by fastforce
qed

lemma run_conversation: "server_run c s s' \<Longrightarrow> conversation c s' t = conversation c s t"
  by (induction rule: rtranclp_induct) (simp_all add: move_conversation)

lemma run_taken:
  "server_run c s s' \<Longrightarrow>
     taken_by t s' @ requests_in c (sv_inbox s' t) = taken_by t s @ requests_in c (sv_inbox s t)"
  by (induction rule: rtranclp_induct) (simp_all add: move_taken)

lemma run_table:
  "server_run c s s' \<Longrightarrow>
     \<exists>xs. log_ops c s' = log_ops c s @ xs \<and> sv_table s' = fold (spec_op id) xs (sv_table s)"
proof (induction rule: rtranclp_induct)
  case (step s1 s2)
  obtain xs ys where "log_ops c s1 = log_ops c s @ xs" "sv_table s1 = fold (spec_op id) xs (sv_table s)"
    "log_ops c s2 = log_ops c s1 @ ys" "sv_table s2 = fold (spec_op id) ys (sv_table s1)"
    using step.IH move_table [OF step.hyps(2)] by blast
  then show ?case
    by (intro exI [of _ "xs @ ys"]) (simp only: fold_append comp_apply append_assoc simp_thms)
qed simp

section \<open>Progress\<close>

text \<open>A thread that has something to do and has not ended can do it, whatever the others do.\<close>

lemma step_possible:
  assumes "\<not> thread_ended (sv_thread s t)" and "sv_thread s t \<noteq> Idle \<or> sv_inbox s t \<noteq> []"
  shows "\<exists>s'. server_step c t s s'"
proof (cases "sv_thread s t")
  case Idle
  with assms(2) obtain f fs where in': "sv_inbox s t = f # fs" by (cases "sv_inbox s t") auto
  show ?thesis
  proof (cases "from_wire (c_message c) f")
    case None
    then show ?thesis using server_step.undecodable [OF Idle in'] by blast
  next
    case (Some m)
    obtain r d where disp: "dispatch_message c m (sv_daemon s) = (r, d)" by force
    show ?thesis
      using server_step.whole [OF Idle in' Some _ _ disp] server_step.load_uid [OF Idle in' Some]
        server_step.store_uid [OF Idle in' Some]
      by (cases "message_type m = GetCurrentUidGid"; cases "ids_of_message c m") auto
  qed
next
  case (LoadedUid i u)
  then show ?thesis using server_step.load_gid by blast
next
  case (StoredUid i g)
  then show ?thesis using server_step.store_gid by blast
next
  case (Answering r)
  then show ?thesis using server_step.send_answer by blast
qed (use assms(1) in simp)

text \<open>
  The steps a thread has left: at most three for a request.  Only its own steps change them, and
  each of those takes one away.
\<close>

definition steps_left :: "server \<Rightarrow> nat \<Rightarrow> nat" where
  "steps_left s t = (case sv_thread s t of
     Ended ids \<Rightarrow> 0
   | Idle \<Rightarrow> 3 * length (sv_inbox s t)
   | Answering r \<Rightarrow> 3 * length (sv_inbox s t) + 1
   | _ \<Rightarrow> 3 * length (sv_inbox s t) + 2)"

lemma own_step_left: "server_step c t s s' \<Longrightarrow> steps_left s' t < steps_left s t"
  by (erule server_stepE) (simp_all add: steps_left_def step_defs)

lemma failure_left: "server_failure t s s' \<Longrightarrow> steps_left s' t \<le> steps_left s t"
  by (erule server_failureE) (simp_all add: steps_left_def step_defs)

lemma other_step_left: "server_step c u s s' \<Longrightarrow> u \<noteq> t \<Longrightarrow> steps_left s' t = steps_left s t"
  by (erule server_stepE) (simp_all add: steps_left_def step_defs split: thread_state.split)

lemma other_failure_left: "server_failure u s s' \<Longrightarrow> u \<noteq> t \<Longrightarrow> steps_left s' t = steps_left s t"
  by (erule server_failureE) (simp_all add: steps_left_def step_defs split: thread_state.split)

lemma move_left:
  assumes "server_move c s s'"
  shows "steps_left s' t \<le> steps_left s t"
proof -
  from assms obtain u where "server_step c u s s' \<or> server_failure u s s'"
    by (auto simp: server_move_def)
  then show ?thesis
    using own_step_left [of c t s s'] failure_left [of t s s'] other_step_left [of c u s s' t]
      other_failure_left [of u s s' t] by (cases "u = t") auto
qed

text \<open>
  A run of which \<open>n\<close> moves are steps of \<open>t\<close>: it cannot have more of them than \<open>t\<close> had
  left.
\<close>

inductive run_with :: "codecs \<Rightarrow> nat \<Rightarrow> nat \<Rightarrow> server \<Rightarrow> server \<Rightarrow> bool" for c t where
  start: "run_with c t 0 s s"
| own: "run_with c t n s s' \<Longrightarrow> server_step c t s' s'' \<Longrightarrow> run_with c t (Suc n) s s''"
| other: "run_with c t n s s' \<Longrightarrow> server_move c s' s'' \<Longrightarrow> run_with c t n s s''"

lemma run_with_run: "run_with c t n s s' \<Longrightarrow> server_run c s s'"
proof (induction rule: run_with.induct)
  case (own n s s' s'')
  then have "server_move c s' s''" by (auto simp: server_move_def)
  with own.IH show ?case by (rule rtranclp.rtrancl_into_rtrancl)
qed auto

lemma run_with_left: "run_with c t n s s' \<Longrightarrow> n + steps_left s' t \<le> steps_left s t"
proof (induction rule: run_with.induct)
  case (own n s s' s'')
  then show ?case using own_step_left [of c t s' s''] by simp
next
  case (other n s s' s'')
  then show ?case using move_left [of c s' s'' t] by simp
qed simp

lemma nothing_left:
  assumes "steps_left s t = 0"
  shows "thread_ended (sv_thread s t) \<or> sv_thread s t = Idle \<and> sv_inbox s t = []"
  using assms by (simp add: steps_left_def split: thread_state.splits)

end
