(* ===== verification/Codec_Example.thy ===== *)
theory Codec_Example
  imports Protocol Wincode_Example
begin

text \<open>
  Concrete encodings of the messages and payloads, an instance of the hypothesis
  \<open>codecs_ok\<close>: records are encoded as the tuples of their fields.
\<close>

definition wire_of :: "('a \<Rightarrow> bytes) \<Rightarrow> 'a decoder \<Rightarrow> 'a wire" where
  "wire_of e d =
     \<lparr>to_wire = e, from_wire = (\<lambda>b. case d b of Some (x, []) \<Rightarrow> Some x | _ \<Rightarrow> None)\<rparr>"

lemma wire_of_ok: "codec_pair e d \<Longrightarrow> wire_ok (wire_of e d)"
  using codec_pairD(1) [of e d _ "[]"] by (auto simp: wire_ok_def wire_of_def)

fun type_index :: "message_type \<Rightarrow> nat" where
  "type_index RegisterOwnership = 0"
| "type_index SetCurrentUidGid = 1"
| "type_index GetCurrentUidGid = 2"
| "type_index Ping = 3"
| "type_index Response = 4"
| "type_index Error = 5"
| "type_index GetOwnership = 6"
| "type_index RemoveOwnership = 7"
| "type_index Init = 8"
| "type_index UpsertChown = 9"
| "type_index Shutdown = 10"

definition type_of_index :: "nat \<Rightarrow> message_type" where
  "type_of_index n =
     ([RegisterOwnership, SetCurrentUidGid, GetCurrentUidGid, Ping, Response, Error, GetOwnership,
       RemoveOwnership, Init, UpsertChown, Shutdown] ! n)"

lemma type_of_type_index: "type_of_index (type_index t) = t"
  by (cases t) (simp_all add: type_of_index_def)

definition message_wire :: "protocol_message wire" where
  "message_wire =
     wire_of (\<lambda>m. enc_pair enc_nat (enc_pair enc_blob enc_bits)
                (type_index (message_type m), payload m, request_id m))
       (dec_map (\<lambda>(t, p, i). pm_new (type_of_index t) p i)
          (dec_pair dec_nat (dec_pair dec_blob dec_bits)))"

definition key_wire :: "inode_key_payload wire" where
  "key_wire =
     wire_of (\<lambda>k. enc_pair enc_bits enc_bits (ik_dev k, ik_ino k))
       (dec_map (\<lambda>(d, i). \<lparr>ik_dev = d, ik_ino = i\<rparr>) (dec_pair dec_bits dec_bits))"

definition uid_gid_wire :: "uid_gid_payload wire" where
  "uid_gid_wire =
     wire_of (\<lambda>k. enc_pair enc_bits enc_bits (ug_uid k, ug_gid k))
       (dec_map (\<lambda>(u, g). \<lparr>ug_uid = u, ug_gid = g\<rparr>) (dec_pair dec_bits dec_bits))"

definition chown_wire :: "chown_payload wire" where
  "chown_wire =
     wire_of (\<lambda>p. enc_pair (enc_pair enc_bits enc_bits)
                (enc_pair (enc_pair enc_bits enc_bits) (enc_pair enc_bits enc_bits))
                ((cp_dev p, cp_ino p), (cp_uid p, cp_gid p), (cp_default_uid p, cp_default_gid p)))
       (dec_map (\<lambda>((d, i), (u, g), (du, dg)). \<lparr>cp_dev = d, cp_ino = i, cp_uid = u, cp_gid = g,
            cp_default_uid = du, cp_default_gid = dg\<rparr>)
          (dec_pair (dec_pair dec_bits dec_bits)
             (dec_pair (dec_pair dec_bits dec_bits) (dec_pair dec_bits dec_bits))))"

text \<open>Ids, mode, device number and attributes, which two payloads share.\<close>

definition enc_meta :: "(u32 \<times> u32) \<times> (u32 option \<times> u64 option) \<times> xattrs \<Rightarrow> bytes" where
  "enc_meta = enc_pair (enc_pair enc_bits enc_bits)
     (enc_pair (enc_pair (enc_opt enc_bits) (enc_opt enc_bits)) enc_xattrs)"

definition dec_meta :: "((u32 \<times> u32) \<times> (u32 option \<times> u64 option) \<times> xattrs) decoder" where
  "dec_meta = dec_pair (dec_pair dec_bits dec_bits)
     (dec_pair (dec_pair (dec_opt dec_bits) (dec_opt dec_bits)) dec_xattrs)"

definition state_wire :: "inode_state_payload wire" where
  "state_wire =
     wire_of (\<lambda>p. enc_pair (enc_pair enc_bits enc_bits) enc_meta
                ((is_dev p, is_ino p), (is_uid p, is_gid p), (is_mode p, is_rdev p), is_xattrs p))
       (dec_map (\<lambda>((d, i), (u, g), (m, r), x). \<lparr>is_dev = d, is_ino = i, is_uid = u, is_gid = g,
            is_mode = m, is_rdev = r, is_xattrs = x\<rparr>)
          (dec_pair (dec_pair dec_bits dec_bits) dec_meta))"

definition result_wire :: "inode_state_result wire" where
  "result_wire =
     wire_of (\<lambda>p. enc_pair enc_bool enc_meta
                (ir_found p, (ir_uid p, ir_gid p), (ir_mode p, ir_rdev p), ir_xattrs p))
       (dec_map (\<lambda>(f, (u, g), (m, r), x). \<lparr>ir_found = f, ir_uid = u, ir_gid = g, ir_mode = m,
            ir_rdev = r, ir_xattrs = x\<rparr>)
          (dec_pair dec_bool dec_meta))"

definition example_codecs :: codecs where
  "example_codecs =
     \<lparr>c_message = message_wire, c_key = key_wire, c_state = state_wire, c_result = result_wire,
      c_uid_gid = uid_gid_wire, c_chown = chown_wire\<rparr>"

lemmas codec_pairs =
  pair_nat pair_bits pair_blob pair_pair pair_opt pair_bool pair_xattrs

lemma pair_meta: "codec_pair enc_meta dec_meta"
  unfolding enc_meta_def dec_meta_def by (intro codec_pairs)

lemma example_codecs_ok: "codecs_ok example_codecs"
  unfolding codecs_ok_def example_codecs_def codecs.simps message_wire_def key_wire_def
    uid_gid_wire_def chown_wire_def state_wire_def result_wire_def
  by (intro conjI wire_of_ok pair_map codec_pairs pair_meta)
     (simp_all add: type_of_type_index pm_new_def)

section \<open>Sizes of encoded messages\<close>

lemma length_enc [simp]:
  "length (enc_bits (w :: 'a::len word)) = LENGTH('a)"
  "length (enc_blob bs) = Suc (2 * length bs)"
  "length (enc_pair e f p) = length (e (fst p)) + length (f (snd p))"
  by (simp_all add: enc_bits_def enc_blob_def enc_pair_def)

lemma length_message_wire:
  "length (to_wire (c_message example_codecs) m) =
     Suc (type_index (message_type m)) + Suc (2 * length (payload m)) + 64"
  by (simp add: example_codecs_def message_wire_def wire_of_def)

lemma type_index_le: "type_index t \<le> 10"
  by (cases t) simp_all

lemma message_wire_fits:
  "length (payload m) < 2 ^ 16 \<Longrightarrow> length (to_wire (c_message example_codecs) m) < 2 ^ 32"
  using type_index_le [of "message_type m"] by (simp add: length_message_wire)

lemma length_small_payloads [simp]:
  "length (to_wire (c_key example_codecs) k) = 128"
  "length (to_wire (c_uid_gid example_codecs) u) = 64"
  "length (to_wire (c_chown example_codecs) p) = 256"
  by (simp_all add: example_codecs_def key_wire_def uid_gid_wire_def chown_wire_def wire_of_def)

lemma length_enc_opt [simp]:
  "length (enc_opt e x) = (case x of None \<Rightarrow> 1 | Some v \<Rightarrow> 2 + length (e v))"
  by (simp add: enc_opt_def enc_list_def split: option.split)

lemma enc_xattrs_fmempty [simp]: "enc_xattrs fmempty = enc_nat 0"
  by (simp add: enc_xattrs_def enc_list_def sorted_list_of_fmap_def sorted_list_of_fset.rep_eq)

end
