(* ===== verification/Daemon_Properties.thy ===== *)
theory Daemon_Properties
  imports Daemon_Client Daemon_Threads Codec_Example
begin

text \<open>
  The properties of the protocol, the daemon and its client (\<open>protocol.rs\<close>, \<open>daemon_server.rs\<close>
  and \<open>daemon_client.rs\<close> of \<open>pseudoroot-core\<close>).
\<close>

section \<open>Concrete instances for the witnesses\<close>

definition fresh_daemon :: daemon where
  "fresh_daemon = \<lparr>d_state = new_shared_state 0 0, d_shutdown = False\<rparr>"

definition example_link :: "rpc_world daemon_link" where
  "example_link =
     \<lparr>dl_env = Some (bytes_of ''/s''), dl_channel = Some \<lparr>ch_stream = True, ch_socket_path = bytes_of ''/s''\<rparr>,
      dl_connected = True, dl_next_id = REQUEST_ID_init,
      dl_net = \<lparr>rp_daemon = fresh_daemon, rp_tx = [], rp_rx = [], rp_up = True\<rparr>\<rparr>"

lemma example_linked: "linked example_link"
  by (simp add: linked_def example_link_def rpc_idle_def daemon_mode_active_def
      daemon_mode_enabled_def get_daemon_socket_path_def bytes_of_def)

lemma fits_small: "length (payload m) < 2 ^ 16 \<Longrightarrow> fits_frame example_codecs m"
  unfolding fits_frame_def by (rule message_wire_fits)

lemma small_messages_fit:
  "fits_frame example_codecs (key_message example_codecs t k i)"
  "fits_frame example_codecs (chown_message example_codecs k u g du dg i)"
  "fits_frame example_codecs (ids_message example_codecs t u g i)"
  "fits_frame example_codecs (pm_response i [])"
  by (simp_all add: fits_small key_message_def chown_message_def ids_message_def)

section \<open>Properties\<close>

text \<open>
  C14: What one side writes as a frame the other side reads back, and the stream is left at
  the next frame; of a message of \<open>2 ^ 32\<close> bytes or more only the length modulo \<open>2 ^ 32\<close> is
  read, and the rest is taken for the next frame.
\<close>

theorem framed_bytes_roundtrip:
  assumes "ms_peer_open s" and "write_framed mem_ops bs s = (e, s')"
    and "ms_out s' = ms_out s @ sent" and "ms_in p = sent @ rest"
  shows "e = None \<and> read_framed mem_ops p =
    (Inr (take (length bs mod 2 ^ 32) bs), p\<lparr>ms_in := drop (length bs mod 2 ^ 32) bs @ rest\<rparr>)"
proof -
  have "e = None" and sent: "sent = frame bs"
    using assms(2,3) mem_write_framed [OF assms(1), of bs] by auto
  let ?n = "length bs mod 2 ^ 32"
  have n: "unat (word_of_nat (length bs) :: u32) = ?n" by (simp add: unat_of_nat)
  have le: "?n \<le> length bs" by (rule mod_less_eq_dividend)
  have "read_framed mem_ops p = mem_read ?n (p\<lparr>ms_in := bs @ rest\<rparr>)"
    using assms(4) n by (simp add: read_framed_def mem_ops_def mem_read_def sent frame_def)
  also have "\<dots> = (Inr (take ?n bs), p\<lparr>ms_in := drop ?n bs @ rest\<rparr>)"
    using le by (simp add: mem_read_def)
  finally show ?thesis using \<open>e = None\<close> by blast
qed

theorem framed_bytes_roundtrip_witness:
  "read_framed mem_ops \<lparr>ms_in = be32 3 @ [7, 8, 9] @ [1], ms_out = [], ms_peer_open = True\<rparr> =
     (Inr [7, 8, 9], \<lparr>ms_in = [1], ms_out = [], ms_peer_open = True\<rparr>)"
  using framed_bytes_roundtrip [of "\<lparr>ms_in = [], ms_out = [], ms_peer_open = True\<rparr>" "[7, 8, 9]" None
      "\<lparr>ms_in = [], ms_out = be32 3 @ [7, 8, 9], ms_peer_open = True\<rparr>" "be32 3 @ [7, 8, 9]"
      "\<lparr>ms_in = be32 3 @ [7, 8, 9] @ [1], ms_out = [], ms_peer_open = True\<rparr>" "[1]"]
  by (simp add: mem_write_framed frame_def)

text \<open>
  C15: Dispatching a message changes the inode table exactly as the operation it encodes, sets
  the current ids exactly when it is a well-formed request to do so, raises the shutdown flag
  exactly on a shutdown request, changes nothing when it answers with an error, and answers
  under the id of the request.
\<close>

theorem dispatch_refines:
  "(case dispatch_message c m d of (r, d') \<Rightarrow>
     frs_get_inode (d_state d') =
       (case op_of_message c m of
          Some x \<Rightarrow> spec_op id x (frs_get_inode (d_state d)) | None \<Rightarrow> frs_get_inode (d_state d)) \<and>
     (frs_current_uid (d_state d'), frs_current_gid (d_state d')) =
       (case ids_of_message c m of
          Some i \<Rightarrow> i | None \<Rightarrow> (frs_current_uid (d_state d), frs_current_gid (d_state d))) \<and>
     d_shutdown d' = (d_shutdown d \<or> message_type m = Shutdown) \<and>
     request_id r = request_id m \<and> message_type r \<in> {Response, Error} \<and>
     (message_type r = Error \<longrightarrow> d' = d))"
  using dispatch_table [of c m d] dispatch_ids [of c m d] dispatch_shutdown [of c m d]
    dispatch_reply_id [of c m d] dispatch_reply_type [of c m d] dispatch_error [of c m d]
  by (simp only: case_prod_beta simp_thms split: if_splits) blast

theorem dispatch_refines_witness:
  "message_type (fst (dispatch_message example_codecs (pm_new Response [] 5) fresh_daemon)) = Error \<and>
   snd (dispatch_message example_codecs (pm_new Response [] 5) fresh_daemon) = fresh_daemon"
proof -
  have "message_type (fst (dispatch_message example_codecs (pm_new Response [] 5) fresh_daemon)) = Error"
    by (simp add: dispatch_message_def)
  then show ?thesis
    using dispatch_refines [where c = example_codecs and m = "pm_new Response [] 5" and d = fresh_daemon]
    by (simp add: case_prod_beta)
qed

text \<open>
  C16: A client that sends any list of requests and then closes is served completely: each
  request is dispatched in order and answered in order, and the loop returns.
\<close>

theorem serve_client_in_order:
  assumes "codecs_ok c" and "ms_peer_open s" and "\<forall>m\<in>set ms. fits_frame c m"
    and "ms_in s = concat (map (wire_message c) ms)"
  shows "\<exists>s'. handle_client c mem_ops s d = Some (s', fold (\<lambda>m d. snd (dispatch_message c m d)) ms d) \<and>
    ms_out s' = ms_out s @ concat (map (wire_message c) (replies c ms d)) \<and>
    map request_id (replies c ms d) = map request_id ms"
  using handle_client_prefix [OF assms(1-3), of "[]" d] assms(4)
  by (simp add: handle_client_short dispatch_all_def replies_ids)

theorem serve_client_in_order_witness:
  "\<exists>s'. handle_client example_codecs mem_ops
     \<lparr>ms_in = wire_message example_codecs (chown_message example_codecs (9, 42) 7 8 0 0 1) @
        wire_message example_codecs (key_message example_codecs GetOwnership (9, 42) 2),
      ms_out = [], ms_peer_open = True\<rparr> fresh_daemon
     = Some (s', dispatch_state example_codecs (chown_message example_codecs (9, 42) 7 8 0 0 1) fresh_daemon)"
  using serve_client_in_order [OF example_codecs_ok,
      of "\<lparr>ms_in = wire_message example_codecs (chown_message example_codecs (9, 42) 7 8 0 0 1) @
        wire_message example_codecs (key_message example_codecs GetOwnership (9, 42) 2),
        ms_out = [], ms_peer_open = True\<rparr>"
      "[chown_message example_codecs (9, 42) 7 8 0 0 1, key_message example_codecs GetOwnership (9, 42) 2]"
      fresh_daemon]
  by (simp add: small_messages_fit dispatch_get example_codecs_ok) blast

text \<open>
  C17: Whatever bytes a client sends, serving it ends, and all it did to the daemon is a
  sequence of dispatches, each answered with one frame; nothing else is ever written.
\<close>

theorem serve_client_any_bytes:
  "\<exists>s' ms. handle_client c mem_ops s d = Some (s', fold (\<lambda>m d. snd (dispatch_message c m d)) ms d) \<and>
     (ms_peer_open s \<longrightarrow> ms_out s' = ms_out s @ concat (map (wire_message c) (replies c ms d)))"
proof -
  obtain s' d' where run: "handle_client c mem_ops s d = Some (s', d')"
    using handle_client_mem_total [of c s d] by auto
  from handle_client_dispatches [OF run] show ?thesis
    unfolding run by (auto simp: dispatch_all_def)
qed

theorem serve_client_any_bytes_witness:
  "\<exists>s' ms. handle_client example_codecs mem_ops \<lparr>ms_in = [0, 0, 0, 1, 255], ms_out = [], ms_peer_open = True\<rparr>
       fresh_daemon = Some (s', fold (\<lambda>m d. snd (dispatch_message example_codecs m d)) ms fresh_daemon) \<and>
     ms_out s' = concat (map (wire_message example_codecs) (replies example_codecs ms fresh_daemon))"
  using serve_client_any_bytes [of example_codecs
      "\<lparr>ms_in = [0, 0, 0, 1, 255], ms_out = [], ms_peer_open = True\<rparr>" fresh_daemon]
  by simp

text \<open>
  C18: Over a connection to a daemon, each call of the client whose messages fit a frame has
  the effect of its operation on the daemon's table, a lookup returns the table's entry and
  changes nothing, and the connection stays in step for the next call.
\<close>

theorem daemon_calls_refine_table:
  assumes "codecs_ok c" and "linked l"
  shows "(rpc_fits c (state_message c k n (dl_next_id l)) l \<longrightarrow>
      (\<exists>l'. daemon_set_inode c (rpc_ops c) k n l = (True, l') \<and> linked l' \<and>
        link_table l' = (link_table l)(k \<mapsto> n))) \<and>
    (rpc_fits c (chown_message c k u g du dg (dl_next_id l)) l \<longrightarrow>
      (\<exists>l'. daemon_upsert_chown c (rpc_ops c) k u g du dg l = (True, l') \<and> linked l' \<and>
        link_table l' = (link_table l)(k \<mapsto> merge_ids u g
          (case link_table l k of Some i \<Rightarrow> i | None \<Rightarrow> fake_inode_new du dg)))) \<and>
    (rpc_fits c (key_message c RemoveOwnership k (dl_next_id l)) l \<longrightarrow>
      (\<exists>l'. daemon_remove_inode c (rpc_ops c) k l = (True, l') \<and> linked l' \<and>
        link_table l' = (link_table l)(k := None))) \<and>
    (rpc_fits c (key_message c GetOwnership k (dl_next_id l)) l \<longrightarrow>
      (\<exists>l'. daemon_get_inode c (rpc_ops c) k l = (link_table l k, l') \<and> linked l' \<and>
        link_table l' = link_table l))"
  using link_updates [OF assms] link_get_inode [OF assms] linked_dispatch [OF assms(2)]
  by (simp add: link_table_dispatch op_of_messages [OF assms(1)])

theorem daemon_calls_refine_table_witness:
  "\<exists>l'. daemon_upsert_chown example_codecs (rpc_ops example_codecs) (9, 42) 99999 88888 0 0 example_link
      = (True, l') \<and> link_table l' = [(9, 42) \<mapsto> merge_ids 99999 88888 (fake_inode_new 0 0)]"
proof -
  have "link_table example_link = Map.empty"
    by (simp add: fun_eq_iff link_table_def example_link_def fresh_daemon_def new_shared_state_def store_simps)
  moreover have "rpc_fits example_codecs
      (chown_message example_codecs (9, 42) 99999 88888 0 0 (dl_next_id example_link)) example_link"
    by (simp add: rpc_fits_def small_messages_fit dispatch_replies [OF example_codecs_ok])
  ultimately show ?thesis
    using daemon_calls_refine_table [OF example_codecs_ok example_linked, of "(9, 42)" undefined 99999 88888 0 0]
    by auto
qed

text \<open>
  Two clients at once, for the properties below: the thread of client 2 is between loading the uid
  and the gid when that of client 1 records an owner, then records another for the same file,
  and cannot send the second answer.
\<close>

definition crossed_inbox :: "codecs \<Rightarrow> inode_key \<Rightarrow> nat \<Rightarrow> bytes list" where
  "crossed_inbox c k t = map (to_wire (c_message c))
     (if t = 1 then [chown_message c k 7 8 0 0 11]
      else if t = 2 then [pm_new GetCurrentUidGid [] 21, chown_message c k 5 6 0 0 22] else [])"

lemma crossed_run:
  assumes "codecs_ok c"
  shows "\<exists>s. run_with c 1 2 (server_start d (crossed_inbox c k)) s \<and>
    sv_log s = [(2, pm_new GetCurrentUidGid [] 21), (1, chown_message c k 7 8 0 0 11),
      (2, chown_message c k 5 6 0 0 22)] \<and>
    sv_outbox s 1 = [pm_response 11 []] \<and> map request_id (sv_outbox s 2) = [21] \<and>
    sv_thread s 1 = Idle \<and> sv_inbox s 1 = [] \<and> sv_thread s 2 = Ended [22] \<and> sv_inbox s 2 = []"
proof -
  let ?get = "pm_new GetCurrentUidGid [] 21"
  let ?m1 = "chown_message c k 7 8 0 0 11" and ?m2 = "chown_message c k 5 6 0 0 22"
  let ?whole = "\<lambda>t m x s. set_thread t (Answering x)
      ((take_request t m s)\<lparr>sv_daemon := dispatch_state c m (sv_daemon s)\<rparr>)"
  define s0 where "s0 = server_start d (crossed_inbox c k)"
  define s1 where "s1 = set_thread 2 (LoadedUid (request_id ?get) (frs_current_uid (d_state (sv_daemon s0))))
      (take_request 2 ?get s0)"
  define s2 where "s2 = ?whole 1 ?m1 (pm_response 11 []) s1"
  define r where "r = pm_response (request_id ?get) (to_wire (c_uid_gid c)
      \<lparr>ug_uid = frs_current_uid (d_state (sv_daemon s0)), ug_gid = frs_current_gid (d_state (sv_daemon s2))\<rparr>)"
  define s3 where "s3 = set_thread 2 (Answering r) s2"
  define s4 where "s4 = answer 2 r (set_thread 2 Idle s3)"
  define s5 where "s5 = ?whole 2 ?m2 (pm_response 22 []) s4"
  define s6 where "s6 = answer 1 (pm_response 11 []) (set_thread 1 Idle s5)"
  define s7 where "s7 = set_thread 2 (Ended [request_id (pm_response 22 [])]) s6"
  note defs = s0_def s1_def s2_def s3_def s4_def s5_def s6_def s7_def server_start_def crossed_inbox_def step_defs
  have t: "message_type (chown_message c k u g a b i) = UpsertChown"
    "ids_of_message c (chown_message c k u g a b i) = None" for u g a b i
    by (simp_all add: chown_message_def ids_of_message_def)
  note wire = codecs_okD(1) [OF assms]
  have 1: "server_step c 2 s0 s1"
    unfolding s1_def by (rule server_step.load_uid, simp add: defs, simp add: defs) (simp_all add: defs wire)
  have 2: "server_step c 1 s1 s2"
    unfolding s2_def by (rule server_step.whole, simp add: defs, simp add: defs)
      (simp_all add: defs wire t prod_eq_iff dispatch_replies [OF assms])
  have 3: "server_step c 2 s2 s3" unfolding s3_def r_def by (rule server_step.load_gid) (simp add: defs)
  have 4: "server_step c 2 s3 s4" unfolding s4_def by (rule server_step.send_answer) (simp add: defs)
  have 5: "server_step c 2 s4 s5"
    unfolding s5_def by (rule server_step.whole, simp add: defs, simp add: defs)
      (simp_all add: defs wire t prod_eq_iff dispatch_replies [OF assms])
  have 6: "server_step c 1 s5 s6" unfolding s6_def by (rule server_step.send_answer) (simp add: defs)
  have 7: "server_failure 2 s6 s7" unfolding s7_def by (rule server_failure.send_fails) (simp add: defs)
  have two: "Suc (Suc 0) = 2" by simp
  note run = run_with.start [of c 1 s0]
  note run = run_with.other [OF run server_moveI(1) [OF 1]]
  note run = run_with.own [OF run 2]
  note run = run_with.other [OF run server_moveI(1) [OF 3]]
  note run = run_with.other [OF run server_moveI(1) [OF 4]]
  note run = run_with.other [OF run server_moveI(1) [OF 5]]
  note run = run_with.own [OF run 6]
  note run = run_with.other [OF run server_moveI(2) [OF 7]]
  have "run_with c 1 2 s0 s7" by (rule run [unfolded two])
  moreover have "sv_log s7 = [(2, ?get), (1, ?m1), (2, ?m2)]" by (simp add: defs)
  moreover have "sv_outbox s7 1 = [pm_response 11 []]" "map request_id (sv_outbox s7 2) = [21]"
    by (simp_all add: defs r_def)
  moreover have "sv_thread s7 1 = Idle" "sv_inbox s7 1 = []" "sv_thread s7 2 = Ended [22]" "sv_inbox s7 2 = []"
    by (simp_all add: defs)
  ultimately show ?thesis unfolding s0_def [symmetric] by (intro exI [of _ s7] conjI)
qed

text \<open>
  C19: However the client threads interleave, and whichever of them end early, the inode table at
  any moment is the result of the operations of the requests taken so far, one after the other
  in the order in which they were taken, and each client's requests are taken in the order it
  sent them.
\<close>

theorem concurrent_table_linearizes:
  assumes "server_run c (server_start d inbox) s"
  shows "frs_get_inode (d_state (sv_daemon s)) =
      fold (spec_op id) (List.map_filter (op_of_message c) (map snd (sv_log s))) (frs_get_inode (d_state d)) \<and>
    (\<forall>t. requests_in c (inbox t) =
       map snd (filter (\<lambda>x. fst x = t) (sv_log s)) @ requests_in c (sv_inbox s t))"
proof -
  have "\<forall>t. taken_by t s @ requests_in c (sv_inbox s t) = requests_in c (inbox t)"
    using run_taken [OF assms] by (simp add: server_start_def taken_by_def)
  moreover have "sv_table s = fold (spec_op id) (log_ops c s) (frs_get_inode (d_state d))"
    using run_table [OF assms]
    by (auto simp: server_start_def log_ops_def sv_table_def List.map_filter_simps)
  ultimately show ?thesis by (simp add: sv_table_def log_ops_def taken_by_def)
qed

text \<open>
  Two clients of which one is between its two loads when the other writes: both owners they
  recorded are in the table, the second over the first, though the second was never told so.
\<close>

theorem concurrent_table_linearizes_witness:
  "\<exists>s. server_run example_codecs (server_start fresh_daemon (crossed_inbox example_codecs (9, 42))) s \<and>
     map fst (sv_log s) = [2, 1, 2] \<and> sv_thread s 2 = Ended [22] \<and>
     frs_get_inode (d_state (sv_daemon s)) (9, 42) = Some (fake_inode_new 5 6) \<and>
     frs_get_inode (d_state fresh_daemon) (9, 42) = None"
proof -
  obtain s where s: "run_with example_codecs 1 2
        (server_start fresh_daemon (crossed_inbox example_codecs (9, 42))) s"
      "sv_log s = [(2, pm_new GetCurrentUidGid [] 21), (1, chown_message example_codecs (9, 42) 7 8 0 0 11),
        (2, chown_message example_codecs (9, 42) 5 6 0 0 22)]" "sv_thread s 2 = Ended [22]"
    using crossed_run [OF example_codecs_ok] by blast
  note run = run_with_run [OF s(1)]
  have none: "frs_get_inode (d_state fresh_daemon) (9, 42) = None"
    by (simp add: fresh_daemon_def new_shared_state_def store_simps)
  have "frs_get_inode (d_state (sv_daemon s)) (9, 42) = Some (fake_inode_new 5 6)"
    using concurrent_table_linearizes [OF run] none
    by (simp add: s(2) List.map_filter_simps op_of_get op_of_messages [OF example_codecs_ok]
        merge_ids_def fake_inode_new_def ID_UNCHANGED_def)
  then show ?thesis using run none s(2,3) by (intro exI [of _ s]) simp
qed

text \<open>
  C20: Every request is answered at most once, in order and under its own id: at any moment the
  ids of the answers sent to a client, of the request its thread has taken but not answered and
  of those still to read are those of the requests it sent.  A thread that has not ended and
  has something to read, to compute or to send can take its next step whatever the others
  do, and with at most three steps of its own for each frame it has answered everything that
  was sent to it, unless it ended before: it ends when a read or a write fails, when a frame
  does not decode, or with the process after a shutdown request, and what it had not yet
  answered then stays so.
\<close>

theorem concurrent_answers_in_order:
  assumes "run_with c t n (server_start d inbox) s"
  shows "map request_id (sv_outbox s t) @ pending_ids (sv_thread s t) @
        map request_id (requests_in c (sv_inbox s t)) = map request_id (requests_in c (inbox t)) \<and>
    (\<not> thread_ended (sv_thread s t) \<and> (sv_thread s t \<noteq> Idle \<or> sv_inbox s t \<noteq> []) \<longrightarrow>
       (\<exists>s'. server_step c t s s')) \<and>
    n \<le> 3 * length (inbox t) \<and>
    (n = 3 * length (inbox t) \<or> (\<nexists>s'. server_step c t s s') \<longrightarrow>
       thread_ended (sv_thread s t) \<or>
       map request_id (sv_outbox s t) = map request_id (requests_in c (inbox t)))"
proof -
  have conv: "conversation c s t = map request_id (requests_in c (inbox t))"
    using run_conversation [OF run_with_run [OF assms], of t]
    by (simp add: server_start_def conversation_def)
  have n: "n + steps_left s t \<le> 3 * length (inbox t)"
    using run_with_left [OF assms] by (simp add: server_start_def steps_left_def)
  have "thread_ended (sv_thread s t) \<or> sv_thread s t = Idle \<and> sv_inbox s t = []"
    if "n = 3 * length (inbox t) \<or> (\<nexists>s'. server_step c t s s')"
    using that nothing_left [of s t] n step_possible [of s t c] by auto
  then show ?thesis using conv n step_possible [of s t c] by (auto simp: conversation_def)
qed

theorem concurrent_answers_in_order_witness:
  "\<exists>s. run_with example_codecs 1 2 (server_start fresh_daemon (crossed_inbox example_codecs (9, 42))) s \<and>
     map fst (sv_log s) = [2, 1, 2] \<and> (\<nexists>s'. server_step example_codecs 1 s s') \<and>
     map request_id (sv_outbox s 1) = [11]"
proof -
  obtain s where s: "run_with example_codecs 1 2
        (server_start fresh_daemon (crossed_inbox example_codecs (9, 42))) s"
      "map fst (sv_log s) = [2, 1, 2]" "sv_thread s 1 = Idle" "sv_inbox s 1 = []"
    using crossed_run [OF example_codecs_ok] by fastforce
  have stuck: "\<nexists>s'. server_step example_codecs 1 s s'" using s(3,4) by (auto elim: server_stepE)
  have "requests_in example_codecs (crossed_inbox example_codecs (9, 42) 1) =
      [chown_message example_codecs (9, 42) 7 8 0 0 11]"
    by (simp only: crossed_inbox_def requests_in_sent [OF example_codecs_ok]) simp
  then have "map request_id (sv_outbox s 1) = [11]"
    using concurrent_answers_in_order [OF s(1)] stuck s(3) by (simp add: chown_message_def)
  then show ?thesis using s(1,2) stuck by (intro exI [of _ s] conjI)
qed

text \<open>
  The current uid and gid are not one unit: two clients that set them at the same time can
  leave the uid of the one with the gid of the other, after both were answered.
\<close>

lemma concurrent_ids_can_tear:
  assumes "codecs_ok c"
  shows "\<exists>s. server_run c (server_start d (\<lambda>t. map (to_wire (c_message c))
        (if t = 1 then [ids_message c SetCurrentUidGid u1 g1 1]
         else if t = 2 then [ids_message c SetCurrentUidGid u2 g2 1] else []))) s \<and>
      (\<forall>t. sv_thread s t = Idle \<and> sv_inbox s t = []) \<and>
      frs_current_uid (d_state (sv_daemon s)) = u2 \<and> frs_current_gid (d_state (sv_daemon s)) = g1"
proof -
  let ?m = "\<lambda>u g. ids_message c SetCurrentUidGid u g 1"
  let ?s0 = "server_start d (\<lambda>t. map (to_wire (c_message c))
      (if t = 1 then [?m u1 g1] else if t = 2 then [?m u2 g2] else []))"
  let ?take = "\<lambda>t u g s. set_thread t (StoredUid (request_id (?m u g)) g)
      (sv_state_update (\<lambda>f. f\<lparr>frs_current_uid := u\<rparr>) (take_request t (?m u g) s))"
  let ?store = "\<lambda>t u g s. set_thread t (Answering (pm_response (request_id (?m u g)) []))
      (sv_state_update (\<lambda>f. f\<lparr>frs_current_gid := g\<rparr>) s)"
  let ?send = "\<lambda>t u g s. answer t (pm_response (request_id (?m u g)) []) (set_thread t Idle s)"
  let ?s1 = "?take 1 u1 g1 ?s0" and ?s2 = "?take 2 u2 g2 (?take 1 u1 g1 ?s0)"
  let ?s3 = "?store 2 u2 g2 ?s2"
  let ?s4 = "?store 1 u1 g1 ?s3"
  let ?s5 = "?send 1 u1 g1 ?s4"
  let ?s6 = "?send 2 u2 g2 ?s5"
  note defs = server_start_def step_defs
  note wire = codecs_okD(1) [OF assms] ids_of_messages(1) [OF assms]
  have "server_step c 1 ?s0 ?s1" by (rule server_step.store_uid, simp add: defs, simp add: defs) (simp_all add: defs wire)
  moreover have "server_step c 2 ?s1 ?s2" by (rule server_step.store_uid, simp add: defs, simp add: defs) (simp_all add: defs wire)
  moreover have "server_step c 2 ?s2 ?s3" by (rule server_step.store_gid) (simp add: defs)
  moreover have "server_step c 1 ?s3 ?s4" by (rule server_step.store_gid) (simp add: defs)
  moreover have "server_step c 1 ?s4 ?s5" by (rule server_step.send_answer) (simp add: defs)
  moreover have "server_step c 2 ?s5 ?s6" by (rule server_step.send_answer) (simp add: defs)
  ultimately have "server_run c ?s0 ?s6"
    by (meson server_moveI rtranclp.rtrancl_refl rtranclp.rtrancl_into_rtrancl)
  moreover have "\<forall>t. sv_thread ?s6 t = Idle \<and> sv_inbox ?s6 t = []" by (simp add: defs)
  moreover have "frs_current_uid (d_state (sv_daemon ?s6)) = u2" by (simp add: defs)
  moreover have "frs_current_gid (d_state (sv_daemon ?s6)) = g1" by (simp add: defs)
  ultimately show ?thesis by blast
qed

end
