(* ===== verification/Channel_Fork.thy ===== *)
theory Channel_Fork
  imports Daemon_Properties
begin

text \<open>
  Several processes on one connection (\<open>IpcChannel::request\<close> in
  \<open>pseudoroot-core/src/protocol.rs\<close>): a process that forks leaves its child the connected
  stream and a copy of the mutex around it, so the two are no longer kept from each other.
  A step is one call on the stream: \<open>write_framed\<close> writes the length, writes the bytes and
  flushes, \<open>read_framed\<close> reads the length and reads the bytes, and steps of other processes
  can come between any two of them.  A turn is the steps of one frame without an interruption;
  the property below is about processes that take turns, and the last section has what
  happens to frames that are interrupted.
\<close>

section \<open>Requests in steps\<close>

datatype caller =
    Asking protocol_message
  | WritingBody protocol_message
  | Flushing protocol_message
  | Waiting
  | ReadingBody nat
  | Returned "io_error + protocol_message"

text \<open>
  \<open>cc_sent\<close> and \<open>cc_read\<close> record who sent what and who read what, in the order in which they did.
\<close>

record 'w shared_channel =
  cc_net :: 'w
  cc_caller :: "nat \<Rightarrow> caller"
  cc_sent :: "(nat \<times> protocol_message) list"
  cc_read :: "(nat \<times> protocol_message) list"

definition caller_goto :: "nat \<Rightarrow> caller \<Rightarrow> 'w \<Rightarrow> 'w shared_channel \<Rightarrow> 'w shared_channel" where
  "caller_goto p x w s = s\<lparr>cc_net := w, cc_caller := (cc_caller s)(p := x)\<rparr>"

definition caller_step ::
    "codecs \<Rightarrow> 'w stream_ops \<Rightarrow> ipc_channel \<Rightarrow> nat \<Rightarrow> 'w shared_channel \<Rightarrow> 'w shared_channel" where
  "caller_step c ops ch p s =
     (case cc_caller s p of
        Asking m \<Rightarrow>
          if ch_stream ch then
            (case st_write_all ops (be32 (word_of_nat (length (to_wire (c_message c) m)))) (cc_net s) of
               (Some e, w) \<Rightarrow> caller_goto p (Returned (Inl e)) w s
             | (None, w) \<Rightarrow> caller_goto p (WritingBody m) w s)
          else caller_goto p (Returned (Inl NotConnected)) (cc_net s) s
      | WritingBody m \<Rightarrow>
          (case st_write_all ops (to_wire (c_message c) m) (cc_net s) of
             (Some e, w) \<Rightarrow> caller_goto p (Returned (Inl e)) w s
           | (None, w) \<Rightarrow> caller_goto p (Flushing m) w s)
      | Flushing m \<Rightarrow>
          (case st_flush ops (cc_net s) of
             (Some e, w) \<Rightarrow> caller_goto p (Returned (Inl e)) w s
           | (None, w) \<Rightarrow> (caller_goto p Waiting w s)\<lparr>cc_sent := cc_sent s @ [(p, m)]\<rparr>)
      | Waiting \<Rightarrow>
          if ch_stream ch then
            (case st_read_exact ops 4 (cc_net s) of
               (Inl e, w) \<Rightarrow> caller_goto p (Returned (Inl e)) w s
             | (Inr len_buf, w) \<Rightarrow> caller_goto p (ReadingBody (unat (of_be32 len_buf))) w s)
          else caller_goto p (Returned (Inl NotConnected)) (cc_net s) s
      | ReadingBody n \<Rightarrow>
          (case st_read_exact ops n (cc_net s) of
             (Inl e, w) \<Rightarrow> caller_goto p (Returned (Inl e)) w s
           | (Inr buf, w) \<Rightarrow>
               (case from_wire (c_message c) buf of
                  Some r \<Rightarrow>
                    (caller_goto p (Returned (Inr r)) w s)\<lparr>cc_read := cc_read s @ [(p, r)]\<rparr>
                | None \<Rightarrow> caller_goto p (Returned (Inl InvalidData)) w s))
      | Returned r \<Rightarrow> s)"

definition run_callers ::
    "codecs \<Rightarrow> 'w stream_ops \<Rightarrow> ipc_channel \<Rightarrow> nat list \<Rightarrow> 'w shared_channel \<Rightarrow> 'w shared_channel" where
  "run_callers c ops ch schedule s = fold (caller_step c ops ch) schedule s"

definition callers_start :: "(nat \<Rightarrow> protocol_message) \<Rightarrow> 'w \<Rightarrow> 'w shared_channel" where
  "callers_start request w =
     \<lparr>cc_net = w, cc_caller = (\<lambda>p. Asking (request p)), cc_sent = [], cc_read = []\<rparr>"

text \<open>A turn is a whole frame: the three calls that write one or the two that read one.\<close>

fun frame_steps :: "caller \<Rightarrow> nat" where
  "frame_steps (Asking m) = 3"
| "frame_steps (WritingBody m) = 2"
| "frame_steps (Flushing m) = 1"
| "frame_steps Waiting = 2"
| "frame_steps (ReadingBody n) = 1"
| "frame_steps (Returned r) = 0"

definition caller_turn ::
    "codecs \<Rightarrow> 'w stream_ops \<Rightarrow> ipc_channel \<Rightarrow> nat \<Rightarrow> 'w shared_channel \<Rightarrow> 'w shared_channel" where
  "caller_turn c ops ch p s = run_callers c ops ch (replicate (frame_steps (cc_caller s p)) p) s"

definition run_turns ::
    "codecs \<Rightarrow> 'w stream_ops \<Rightarrow> ipc_channel \<Rightarrow> nat list \<Rightarrow> 'w shared_channel \<Rightarrow> 'w shared_channel" where
  "run_turns c ops ch turns s = fold (caller_turn c ops ch) turns s"

text \<open>A run in turns is a run of the steps.\<close>

lemma turns_are_steps: "\<exists>schedule. run_turns c ops ch turns s = run_callers c ops ch schedule s"
proof (induction turns arbitrary: s)
  case Nil
  show ?case by (rule exI [of _ "[]"]) (simp add: run_turns_def run_callers_def)
next
  case (Cons p turns)
  obtain schedule where "run_turns c ops ch turns (caller_turn c ops ch p s) =
      run_callers c ops ch schedule (caller_turn c ops ch p s)" using Cons.IH by blast
  then have "run_turns c ops ch (p # turns) s =
      run_callers c ops ch (replicate (frame_steps (cc_caller s p)) p @ schedule) s"
    by (simp add: run_turns_def run_callers_def caller_turn_def)
  then show ?case by blast
qed

text \<open>A turn is the call of the code, and two are the request.\<close>

lemma run_callers_simps [simp]:
  "run_callers c ops ch [] s = s"
  "run_callers c ops ch (p # ps) s = run_callers c ops ch ps (caller_step c ops ch p s)"
  by (simp_all add: run_callers_def)

lemma returned_stays [simp]:
  "cc_caller s p = Returned r \<Longrightarrow> run_callers c ops ch (replicate n p) s = s"
  by (induction n) (simp_all add: caller_step_def)

lemma goto_sel [simp]:
  "cc_net (caller_goto p x w s) = w" "cc_caller (caller_goto p x w s) = (cc_caller s)(p := x)"
  "cc_sent (caller_goto p x w s) = cc_sent s" "cc_read (caller_goto p x w s) = cc_read s"
  "caller_goto p x w (caller_goto p y v s) = caller_goto p x w s"
  by (simp_all add: caller_goto_def)

lemma send_turn:
  assumes "cc_caller s p = Asking m"
  shows "caller_turn c ops ch p s =
    (case ipc_send c ops ch m (cc_net s) of
       (Some e, w) \<Rightarrow> caller_goto p (Returned (Inl e)) w s
     | (None, w) \<Rightarrow> (caller_goto p Waiting w s)\<lparr>cc_sent := cc_sent s @ [(p, m)]\<rparr>)"
  using assms
  by (auto simp: caller_turn_def numeral_3_eq_3 caller_step_def ipc_send_def write_framed_def
      split: prod.split option.split)

lemma recv_turn:
  assumes "cc_caller s p = Waiting"
  shows "caller_turn c ops ch p s =
    (case ipc_recv c ops ch (cc_net s) of
       (Inl e, w) \<Rightarrow> caller_goto p (Returned (Inl e)) w s
     | (Inr r, w) \<Rightarrow> (caller_goto p (Returned (Inr r)) w s)\<lparr>cc_read := cc_read s @ [(p, r)]\<rparr>)"
  using assms
  by (auto simp: caller_turn_def numeral_2_eq_2 caller_step_def ipc_recv_def read_framed_def
      split: prod.split option.split sum.split)

lemma returned_turn: "cc_caller s p = Returned r \<Longrightarrow> caller_turn c ops ch p s = s"
  by (simp add: caller_turn_def)

lemma caller_alone:
  assumes "cc_caller s p = Asking m"
  shows "cc_caller (run_turns c ops ch [p, p] s) p = Returned (fst (ipc_request c ops ch m (cc_net s)))"
    and "cc_net (run_turns c ops ch [p, p] s) = snd (ipc_request c ops ch m (cc_net s))"
  using assms
  by (auto simp: run_turns_def send_turn recv_turn returned_turn ipc_request_def
      split: prod.split option.split sum.split)

section \<open>What is under way on the stream\<close>

lemma replies_append: "replies c (xs @ ys) d = replies c xs d @ replies c ys (dispatch_all c xs d)"
  by (induction xs arbitrary: d) (simp_all add: dispatch_all_def)

lemma length_replies [simp]: "length (replies c ms d) = length ms"
  by (induction ms arbitrary: d) simp_all

lemma rpc_read_next:
  "rp_rx w = frame bs @ rest \<Longrightarrow> length bs < 2 ^ 32 \<Longrightarrow>
     read_framed (rpc_ops c) w = (Inr bs, w\<lparr>rp_rx := rest\<rparr>)"
  by (simp add: read_framed_def rpc_ops_def rpc_take_def frame_def)

lemma rpc_serve_all:
  assumes "codecs_ok c" and "\<forall>m\<in>set ms. fits_frame c m" and "rp_tx w = concat (map (wire_message c) ms)"
  shows "rpc_serve c w = w\<lparr>rp_daemon := dispatch_all c ms (rp_daemon w), rp_tx := [],
    rp_rx := rp_rx w @ concat (map (wire_message c) (replies c ms (rp_daemon w)))\<rparr>"
  using handle_client_prefix [OF assms(1), of "\<lparr>ms_in = rp_tx w, ms_out = [], ms_peer_open = True\<rparr>"
      ms "[]" "rp_daemon w"] assms(2,3)
  by (simp add: rpc_serve_def handle_client_short)

text \<open>
  The stream after requests \<open>ms\<close> were sent and \<open>j\<close> answers were read: the daemon has served the
  first \<open>k\<close> of them.
\<close>

definition under_way :: "codecs \<Rightarrow> daemon \<Rightarrow> protocol_message list \<Rightarrow> nat \<Rightarrow> nat \<Rightarrow> rpc_world \<Rightarrow> bool" where
  "under_way c d ms j k w \<longleftrightarrow> j \<le> k \<and> k \<le> length ms \<and> rp_up w \<and>
     rp_daemon w = dispatch_all c (take k ms) d \<and>
     rp_tx w = concat (map (wire_message c) (drop k ms)) \<and>
     rp_rx w = concat (map (wire_message c) (drop j (replies c (take k ms) d)))"

lemma under_way_send:
  assumes "under_way c d ms j k w" and "ch_stream ch"
  shows "\<exists>w'. ipc_send c (rpc_ops c) ch m w = (None, w') \<and> under_way c d (ms @ [m]) j k w'"
  using assms
  by (simp add: under_way_def ipc_send_def write_framed_def rpc_ops_def wire_message_def frame_def)

lemma read_served:
  assumes "codecs_ok c" and "under_way c d ms j k w" and "j < k" and "ch_stream ch"
    and "fits_frame c (replies c ms d ! j)"
  shows "\<exists>w'. ipc_recv c (rpc_ops c) ch w = (Inr (replies c ms d ! j), w') \<and> under_way c d ms (Suc j) k w'"
proof -
  let ?rs = "replies c (take k ms) d"
  have "ms = take k ms @ drop k ms" by simp
  then have "replies c ms d = ?rs @ replies c (drop k ms) (dispatch_all c (take k ms) d)"
    by (metis replies_append)
  then have r: "?rs ! j = replies c ms d ! j" "j < length ?rs"
    using assms(2,3) by (simp_all add: under_way_def nth_append)
  then have rx: "rp_rx w = frame (to_wire (c_message c) (replies c ms d ! j)) @
      concat (map (wire_message c) (drop (Suc j) ?rs))"
    using assms(2) by (simp add: under_way_def Cons_nth_drop_Suc [symmetric] wire_message_def)
  have "read_framed (rpc_ops c) w = (Inr (to_wire (c_message c) (replies c ms d ! j)),
      w\<lparr>rp_rx := concat (map (wire_message c) (drop (Suc j) ?rs))\<rparr>)"
    using assms(5) by (intro rpc_read_next [OF rx]) (simp add: fits_frame_def)
  then show ?thesis
    using assms(2-4) by (simp add: ipc_recv_def codecs_okD [OF assms(1)] under_way_def)
qed

lemma under_way_recv:
  assumes "codecs_ok c" and "under_way c d ms j k w" and "j < length ms" and "ch_stream ch"
    and "\<forall>m\<in>set ms. fits_frame c m" and "fits_frame c (replies c ms d ! j)"
  shows "\<exists>w' k'. ipc_recv c (rpc_ops c) ch w = (Inr (replies c ms d ! j), w') \<and>
    under_way c d ms (Suc j) k' w'"
proof (cases "j < k")
  case True
  then show ?thesis using read_served [OF assms(1,2) True assms(4,6)] by blast
next
  case False
  then have k: "k = j" and rx: "rp_rx w = []" using assms(2) by (simp_all add: under_way_def)
  let ?w = "rpc_serve c w"
  have "\<forall>m\<in>set (drop k ms). fits_frame c m" using assms(5) by (meson in_set_dropD)
  note serve = rpc_serve_all [OF assms(1) this, of w]
  have all: "dispatch_all c (drop k ms) (dispatch_all c (take k ms) d) = dispatch_all c ms d"
    unfolding dispatch_all_def by (metis append_take_drop_id fold_append o_apply)
  have "replies c ms d = replies c (take k ms) d @ replies c (drop k ms) (dispatch_all c (take k ms) d)"
    by (metis append_take_drop_id replies_append)
  then have drop: "replies c (drop k ms) (dispatch_all c (take k ms) d) = drop j (replies c ms d)"
    using k assms(3) by simp
  have served: "under_way c d ms j (length ms) ?w"
    using assms(2,3) serve all drop rx by (simp add: under_way_def)
  have "drop j (replies c ms d) \<noteq> []" using assms(3) by simp
  then have "4 \<le> length (rp_rx ?w)"
    using served by (cases "drop j (replies c ms d)") (simp_all add: under_way_def wire_message_def)
  then have "ipc_recv c (rpc_ops c) ch w = ipc_recv c (rpc_ops c) ch ?w"
    using rpc_read_served [OF rx] assms(4) by (simp add: ipc_recv_def)
  with read_served [OF assms(1) served assms(3,4,6)] show ?thesis by auto
qed

section \<open>What holds while the processes take turns\<close>

definition caller_ok :: "codecs \<Rightarrow> 'w shared_channel \<Rightarrow> nat \<Rightarrow> bool" where
  "caller_ok c s p = (case cc_caller s p of
     Asking m \<Rightarrow> p \<notin> fst ` set (cc_sent s) \<and> p \<notin> fst ` set (cc_read s) \<and> fits_frame c m
   | Waiting \<Rightarrow> p \<in> fst ` set (cc_sent s) \<and> p \<notin> fst ` set (cc_read s)
   | Returned x \<Rightarrow> \<exists>r. x = Inr r \<and> (p, r) \<in> set (cc_read s)
   | _ \<Rightarrow> False)"

definition channel_inv :: "codecs \<Rightarrow> daemon \<Rightarrow> rpc_world shared_channel \<Rightarrow> bool" where
  "channel_inv c d s \<longleftrightarrow> (let ms = map snd (cc_sent s); j = length (cc_read s) in
     (\<exists>k. under_way c d ms j k (cc_net s)) \<and> map snd (cc_read s) = take j (replies c ms d) \<and>
     (\<forall>m\<in>set ms. fits_frame c m) \<and>
     distinct (map fst (cc_sent s)) \<and> distinct (map fst (cc_read s)) \<and>
     fst ` set (cc_read s) \<subseteq> fst ` set (cc_sent s) \<and> (\<forall>p. caller_ok c s p))"

lemma channel_start:
  assumes "rpc_idle w" and "\<And>p. fits_frame c (request p)"
  shows "channel_inv c (rp_daemon w) (callers_start request w)"
  using assms
  by (auto simp: channel_inv_def callers_start_def under_way_def rpc_idle_def dispatch_all_def caller_ok_def)

lemma read_behind:
  assumes "channel_inv c d s" and "cc_caller s p = Waiting"
  shows "length (cc_read s) < length (cc_sent s)"
proof -
  have d: "distinct (map fst (cc_sent s))" "distinct (map fst (cc_read s))"
    "fst ` set (cc_read s) \<subseteq> fst ` set (cc_sent s)" and p: "caller_ok c s p"
    using assms(1) by (simp_all add: channel_inv_def Let_def)
  have "fst ` set (cc_read s) \<subset> fst ` set (cc_sent s)"
    using d(3) p assms(2) by (auto simp: caller_ok_def)
  then have "card (set (map fst (cc_read s))) < card (set (map fst (cc_sent s)))"
    by (intro psubset_card_mono) simp_all
  then show ?thesis using d(1,2) by (simp only: distinct_card length_map)
qed

lemma take_replies_append:
  "j \<le> length ms \<Longrightarrow> take j (replies c (ms @ ms') d) = take j (replies c ms d)"
  by (simp add: replies_append)

lemma turn_inv:
  assumes "codecs_ok c" and "ch_stream ch" and "channel_inv c d s"
    and "\<forall>r\<in>set (replies c (map snd (cc_sent s)) d). fits_frame c r"
  shows "channel_inv c d (caller_turn c (rpc_ops c) ch p s)"
proof -
  let ?ms = "map snd (cc_sent s)" and ?j = "length (cc_read s)"
  obtain k where way: "under_way c d ?ms ?j k (cc_net s)"
    and read: "map snd (cc_read s) = take ?j (replies c ?ms d)"
    and rest: "\<forall>m\<in>set ?ms. fits_frame c m" "distinct (map fst (cc_sent s))" "distinct (map fst (cc_read s))"
      "fst ` set (cc_read s) \<subseteq> fst ` set (cc_sent s)" "\<And>q. caller_ok c s q"
    using assms(3) by (auto simp: channel_inv_def Let_def)
  have len: "?j \<le> length ?ms" using way by (simp add: under_way_def)
  show ?thesis
  proof (cases "cc_caller s p")
    case (Asking m)
    obtain w' where w': "ipc_send c (rpc_ops c) ch m (cc_net s) = (None, w')" "under_way c d (?ms @ [m]) ?j k w'"
      using under_way_send [OF way assms(2)] by blast
    let ?s = "(caller_goto p Waiting w' s)\<lparr>cc_sent := cc_sent s @ [(p, m)]\<rparr>"
    have p: "p \<notin> fst ` set (cc_sent s)" "p \<notin> fst ` set (cc_read s)" "fits_frame c m"
      using rest(5) [of p] Asking by (simp_all add: caller_ok_def)
    have "caller_ok c ?s q" for q
      using rest(5) [of q] p by (cases "q = p") (simp_all add: caller_ok_def split: caller.splits)
    moreover have "map snd (cc_read s) = take ?j (replies c (?ms @ [m]) d)"
      using read take_replies_append [OF len] by simp
    ultimately have "channel_inv c d ?s"
      using w'(2) rest p by (auto simp: channel_inv_def Let_def)
    then show ?thesis by (simp add: send_turn [OF Asking] w'(1))
  next
    case Waiting
    have j: "?j < length ?ms" using read_behind [OF assms(3) Waiting] by simp
    let ?r = "replies c ?ms d ! ?j"
    have "fits_frame c ?r" using assms(4) j by simp
    then obtain w' k' where w': "ipc_recv c (rpc_ops c) ch (cc_net s) = (Inr ?r, w')"
        "under_way c d ?ms (Suc ?j) k' w'"
      using under_way_recv [OF assms(1) way j assms(2) rest(1)] by blast
    let ?s = "(caller_goto p (Returned (Inr ?r)) w' s)\<lparr>cc_read := cc_read s @ [(p, ?r)]\<rparr>"
    have p: "p \<in> fst ` set (cc_sent s)" "p \<notin> fst ` set (cc_read s)"
      using rest(5) [of p] Waiting by (simp_all add: caller_ok_def)
    have "caller_ok c ?s q" for q
      using rest(5) [of q] p by (cases "q = p") (auto simp: caller_ok_def image_iff Bex_def split: caller.splits)
    moreover have "map snd (cc_read s @ [(p, ?r)]) = take (Suc ?j) (replies c ?ms d)"
      using read j by (simp add: take_Suc_conv_app_nth)
    ultimately have "channel_inv c d ?s"
      using w'(2) rest p by (auto simp: channel_inv_def Let_def)
    then show ?thesis by (simp add: recv_turn [OF Waiting] w'(1))
  next
    case (Returned x)
    then show ?thesis using assms(3) by (simp add: returned_turn)
  qed (use rest(5) [of p] in \<open>simp_all add: caller_ok_def\<close>)
qed

lemma step_sent: "\<exists>xs. cc_sent (caller_step c ops ch p s) = cc_sent s @ xs"
  by (auto simp: caller_step_def split: prod.split caller.split option.split sum.split)

lemma callers_sent: "\<exists>xs. cc_sent (run_callers c ops ch ps s) = cc_sent s @ xs"
proof (induction ps arbitrary: s)
  case (Cons p ps)
  then show ?case using step_sent [of c ops ch p s] by (metis run_callers_simps(2) append_assoc)
qed simp

lemma turns_sent: "\<exists>xs. cc_sent (run_turns c ops ch ps s) = cc_sent s @ xs"
  using turns_are_steps callers_sent by metis

lemma run_inv:
  assumes "codecs_ok c" and "ch_stream ch"
  shows "channel_inv c d s \<Longrightarrow>
    \<forall>r\<in>set (replies c (map snd (cc_sent (run_turns c (rpc_ops c) ch ps s))) d). fits_frame c r \<Longrightarrow>
    channel_inv c d (run_turns c (rpc_ops c) ch ps s)"
proof (induction ps arbitrary: s)
  case (Cons p ps)
  obtain xs where "cc_sent (run_turns c (rpc_ops c) ch (p # ps) s) = cc_sent s @ xs"
    using turns_sent by blast
  then have "\<forall>r\<in>set (replies c (map snd (cc_sent s)) d). fits_frame c r"
    using Cons.prems(2) by (simp add: replies_append)
  from turn_inv [OF assms Cons.prems(1) this] Cons.IH Cons.prems(2) show ?case
    by (simp add: run_turns_def)
qed (simp add: run_turns_def)

lemma read_returned:
  assumes "channel_inv c d s" and "(p, r) \<in> set (cc_read s)"
  shows "cc_caller s p = Returned (Inr r)"
proof -
  have dist: "distinct (map fst (cc_read s))" and p: "caller_ok c s p"
    using assms(1) by (simp_all add: channel_inv_def Let_def)
  have "p \<in> fst ` set (cc_read s)" using assms(2) by force
  with p obtain r' where "cc_caller s p = Returned (Inr r')" "(p, r') \<in> set (cc_read s)"
    by (auto simp: caller_ok_def split: caller.splits)
  then show ?thesis using eq_key_imp_eq_value [OF dist assms(2)] by blast
qed

text \<open>The second to send reads first.\<close>

lemma crossed_schedule:
  assumes "codecs_ok c" and "ch_stream ch" and "rpc_idle w" and "\<And>p. fits_frame c (request p)" and "a \<noteq> b"
    and "\<forall>r\<in>set (replies c [request a, request b] (rp_daemon w)). fits_frame c r"
  defines "s \<equiv> run_turns c (rpc_ops c) ch [a, b, b, a] (callers_start request w)"
  shows "cc_sent s = [(a, request a), (b, request b)]" and "map fst (cc_read s) = [b, a]"
proof -
  let ?d = "rp_daemon w" and ?ms = "[request a, request b]"
  have "under_way c ?d [] 0 0 w"
    using assms(3) by (simp add: under_way_def rpc_idle_def dispatch_all_def)
  then obtain w1 where w1: "ipc_send c (rpc_ops c) ch (request a) w = (None, w1)"
      "under_way c ?d [request a] 0 0 w1"
    using under_way_send [OF _ assms(2)] by fastforce
  then obtain w2 where w2: "ipc_send c (rpc_ops c) ch (request b) w1 = (None, w2)" "under_way c ?d ?ms 0 0 w2"
    using under_way_send [OF _ assms(2)] by fastforce
  have fits: "\<forall>m\<in>set ?ms. fits_frame c m" using assms(4) by simp
  obtain w3 k where w3: "ipc_recv c (rpc_ops c) ch w2 = (Inr (replies c ?ms ?d ! 0), w3)"
      "under_way c ?d ?ms 1 k w3"
    using under_way_recv [OF assms(1) w2(2) _ assms(2) fits] assms(6) by auto
  obtain w4 where w4: "ipc_recv c (rpc_ops c) ch w3 = (Inr (replies c ?ms ?d ! 1), w4)"
    using under_way_recv [OF assms(1) w3(2) _ assms(2) fits] assms(6) by auto
  show "cc_sent s = [(a, request a), (b, request b)]" "map fst (cc_read s) = [b, a]"
    using assms(5) w1(1) w2(1) w3(1) w4
    by (simp_all add: s_def run_turns_def callers_start_def send_turn recv_turn)
qed

section \<open>Property\<close>

text \<open>
  C21: Processes that share a connection, as parent and child do after a fork, and whose accesses
  to it for one frame are not interrupted by those of another, are answered in the order in
  which they come to read and not each its own request: whatever order they take their
  turns in, no request fails, and the process that reads as the i-th returns the answer to the
  request that was sent as the i-th, whoever sent that.  (What interrupted frames do is below.)
\<close>

theorem forked_processes_take_each_others_answers:
  assumes "codecs_ok c" and "ch_stream ch" and "rpc_idle w" and "\<And>p. fits_frame c (request p)"
    and "s = run_turns c (rpc_ops c) ch schedule (callers_start request w)"
    and "\<forall>r\<in>set (replies c (map snd (cc_sent s)) (rp_daemon w)). fits_frame c r"
  shows "length (cc_read s) \<le> length (cc_sent s) \<and>
    (\<forall>i<length (cc_read s). cc_caller s (fst (cc_read s ! i)) =
       Returned (Inr (replies c (map snd (cc_sent s)) (rp_daemon w) ! i))) \<and>
    (\<forall>p x. cc_caller s p = Returned x \<longrightarrow> p \<in> fst ` set (cc_read s))"
proof -
  let ?d = "rp_daemon w" and ?ms = "map snd (cc_sent s)"
  have inv: "channel_inv c ?d s"
    using run_inv [OF assms(1,2) channel_start [OF assms(3,4)], of schedule] assms(6) by (simp add: assms(5))
  then have read: "map snd (cc_read s) = take (length (cc_read s)) (replies c ?ms ?d)"
    and len: "length (cc_read s) \<le> length (cc_sent s)" and ok: "\<And>p. caller_ok c s p"
    by (auto simp: channel_inv_def under_way_def Let_def)
  have "cc_caller s (fst (cc_read s ! i)) = Returned (Inr (replies c ?ms ?d ! i))" if i: "i < length (cc_read s)" for i
  proof -
    have "snd (cc_read s ! i) = replies c ?ms ?d ! i"
      using arg_cong [OF read, of "\<lambda>xs. xs ! i"] i by simp
    then show ?thesis
      using read_returned [OF inv, of "fst (cc_read s ! i)" "snd (cc_read s ! i)", unfolded prod.collapse,
          OF nth_mem [OF i]] by simp
  qed
  moreover have "p \<in> fst ` set (cc_read s)" if "cc_caller s p = Returned x" for p x
    using ok [of p] that by (force simp: caller_ok_def)
  ultimately show ?thesis using len by blast
qed

text \<open>The child asks for a file without an entry and is told the one of the parent's file.\<close>

definition example_requests :: "nat \<Rightarrow> protocol_message" where
  "example_requests p = key_message example_codecs GetOwnership (if p = 0 then (9, 42) else (9, 43)) 7"

definition one_entry :: daemon where
  "one_entry = fresh_daemon\<lparr>d_state := frs_set_inode (9, 42) (fake_inode_new 5 6) (d_state fresh_daemon)\<rparr>"

lemma one_entry_replies:
  "replies example_codecs [example_requests 0, example_requests 1] one_entry =
     [pm_response 7 (to_wire (c_result example_codecs) (result_of_inode (Some (fake_inode_new 5 6)))),
      pm_response 7 (to_wire (c_result example_codecs) (result_of_inode None))]"
  by (simp add: example_requests_def dispatch_get [OF example_codecs_ok] one_entry_def store_simps
      fresh_daemon_def new_shared_state_def)

theorem forked_processes_take_each_others_answers_witness:
  "\<exists>schedule s r. s = run_turns example_codecs (rpc_ops example_codecs) \<lparr>ch_stream = True, ch_socket_path = []\<rparr>
       schedule (callers_start example_requests \<lparr>rp_daemon = one_entry, rp_tx = [], rp_rx = [], rp_up = True\<rparr>) \<and>
     cc_caller s 1 = Returned (Inr r) \<and> request_id r = 7 \<and>
     map_option inode_of_result (from_wire (c_result example_codecs) (payload r)) = Some (Some (fake_inode_new 5 6))"
proof -
  let ?ch = "\<lparr>ch_stream = True, ch_socket_path = []\<rparr>"
  let ?w = "\<lparr>rp_daemon = one_entry, rp_tx = [], rp_rx = [], rp_up = True\<rparr>"
  define s where "s = run_turns example_codecs (rpc_ops example_codecs) ?ch [0, 1, 1, 0]
      (callers_start example_requests ?w)"
  let ?rs = "replies example_codecs [example_requests 0, example_requests 1] one_entry"
  have w: "?rs = replies example_codecs [example_requests 0, example_requests 1] (rp_daemon ?w)"
    "ch_stream ?ch" "rpc_idle ?w" "(0 :: nat) \<noteq> 1" by (simp_all add: rpc_idle_def)
  have fits: "fits_frame example_codecs (example_requests p)" for p
    unfolding example_requests_def by (rule small_messages_fit)
  have small: "length (to_wire (c_result example_codecs) (result_of_inode n)) < 2 ^ 16"
    if "n = None \<or> n = Some (fake_inode_new 5 6)" for n
    using that by (auto simp: example_codecs_def result_wire_def wire_of_def enc_meta_def result_of_inode_def enc_bool_def)
  have "fits_frame example_codecs (?rs ! 0)" "fits_frame example_codecs (?rs ! 1)"
    unfolding one_entry_replies using small by (auto intro!: fits_small)
  then have replies: "\<forall>r\<in>set ?rs. fits_frame example_codecs r" unfolding one_entry_replies by simp
  note X = crossed_schedule [OF example_codecs_ok w(2,3) fits w(4) replies [unfolded w(1)], folded s_def]
  have read: "0 < length (cc_read s)" "fst (cc_read s ! 0) = 1"
    using X(2) by (auto simp: map_eq_Cons_conv)
  have sent: "map snd (cc_sent s) = [example_requests 0, example_requests 1]" by (simp only: X(1)) simp
  have all: "\<forall>r\<in>set (replies example_codecs (map snd (cc_sent s)) (rp_daemon ?w)). fits_frame example_codecs r"
    unfolding sent using replies by (simp only: w(1))
  note F = forked_processes_take_each_others_answers
    [where request = example_requests, OF example_codecs_ok w(2,3) fits s_def all]
  have "cc_caller s (fst (cc_read s ! 0)) = Returned (Inr (replies example_codecs (map snd (cc_sent s)) (rp_daemon ?w) ! 0))"
    using F read(1) by blast
  then have "cc_caller s 1 = Returned (Inr (?rs ! 0))" unfolding sent read(2) by (simp only: w(1))
  then have "cc_caller s 1 = Returned (Inr
      (pm_response 7 (to_wire (c_result example_codecs) (result_of_inode (Some (fake_inode_new 5 6))))))"
    unfolding one_entry_replies by simp
  then show ?thesis
    unfolding s_def by (intro exI conjI) (rule refl, assumption, simp_all add: codecs_okD [OF example_codecs_ok])
qed

section \<open>Interrupted frames\<close>

text \<open>
  Nothing makes the processes take turns.  When one writes its length between the length and
  the bytes of another, the daemon takes the second length for the first bytes of the first
  message; and when one reads between the length and the bytes of an answer, it takes the
  first four bytes of that answer for a length.
\<close>

lemma mem_read_prefix:
  assumes "ms_in s = be32 (word_of_nat n) @ rest" and "n \<le> length rest" and "n < 2 ^ 32"
  shows "read_framed mem_ops s = (Inr (take n rest), s\<lparr>ms_in := drop n rest\<rparr>)"
  using assms by (simp add: read_framed_def mem_ops_def mem_read_def unat_of_nat)

lemma interrupted_write_tears_frames:
  assumes "ch_stream ch" and "rpc_idle w" and "p \<noteq> q"
    and "frame_bytes = to_wire (c_message c)" and "length (frame_bytes (request p)) < 2 ^ 32"
  shows "rp_tx (cc_net (run_callers c (rpc_ops c) ch [p, q, p, q] (callers_start request w))) =
      be32 (word_of_nat (length (frame_bytes (request p)))) @
      be32 (word_of_nat (length (frame_bytes (request q)))) @
      frame_bytes (request p) @ frame_bytes (request q)"
    and "ms_in s = rp_tx (cc_net (run_callers c (rpc_ops c) ch [p, q, p, q] (callers_start request w))) \<Longrightarrow>
      fst (read_framed mem_ops s) =
        Inr (take (length (frame_bytes (request p)))
          (be32 (word_of_nat (length (frame_bytes (request q)))) @
           frame_bytes (request p) @ frame_bytes (request q)))"
proof -
  show tx: "rp_tx (cc_net (run_callers c (rpc_ops c) ch [p, q, p, q] (callers_start request w))) =
      be32 (word_of_nat (length (frame_bytes (request p)))) @
      be32 (word_of_nat (length (frame_bytes (request q)))) @
      frame_bytes (request p) @ frame_bytes (request q)"
    using assms by (simp add: callers_start_def caller_step_def rpc_ops_def rpc_idle_def)
  show "fst (read_framed mem_ops s) =
        Inr (take (length (frame_bytes (request p)))
          (be32 (word_of_nat (length (frame_bytes (request q)))) @
           frame_bytes (request p) @ frame_bytes (request q)))"
    if "ms_in s = rp_tx (cc_net (run_callers c (rpc_ops c) ch [p, q, p, q] (callers_start request w)))"
    using mem_read_prefix [OF that [unfolded tx] _ assms(5)] by simp
qed

lemma interrupted_read_tears_frames:
  assumes "ch_stream ch" and "cc_caller s p = Waiting" and "cc_caller s q = Waiting" and "p \<noteq> q"
    and "rp_rx (cc_net s) = frame bs @ rest" and "4 \<le> length bs"
  shows "cc_caller (run_callers c (rpc_ops c) ch [p, q] s) q = ReadingBody (unat (of_be32 (take 4 bs)))"
  using assms by (simp add: caller_step_def rpc_ops_def rpc_take_def frame_def)

end
