(* ===== verification/Shm_Client.thy ===== *)
theory Shm_Client
  imports Shm_Layout
begin

text \<open>
  The client side of the shared-memory table (\<open>pseudoroot-core/src/shm_client.rs\<close>): the statics
  of one process, the two environment variables it reads, and the memory behind the inherited
  descriptor, \<open>sc_mem\<close>, which other processes share.  \<open>os\<close> gives the operating system's
  answers for a descriptor.
\<close>

record shm_client =
  sc_env_fd :: "bytes option"
  sc_env_len :: "bytes option"
  sc_map :: "shm_map option"
  sc_active :: bool
  sc_mem :: shm_mem

definition env_string :: "bytes option \<Rightarrow> string option" where
  "env_string v =
     (case v of Some b \<Rightarrow> if utf8_valid b then Some (map (\<lambda>x. char_of (unat x)) b) else None | None \<Rightarrow> None)"

definition shm_mode_active :: "shm_client \<Rightarrow> bool" where
  "shm_mode_active s \<longleftrightarrow> sc_active s"

definition init_shm_from_env :: "(i32 \<Rightarrow> shm_os) \<Rightarrow> shm_client \<Rightarrow> bool \<times> shm_client" where
  "init_shm_from_env os s =
     (if sc_active s then (True, s)
      else
        (case env_string (sc_env_fd s) of
           None \<Rightarrow> (False, s)
         | Some fd_var \<Rightarrow>
             (case parse_i32 fd_var of
                None \<Rightarrow> (False, s)
              | Some fd \<Rightarrow>
                  (case shm_from_fd (os fd) (env_string (sc_env_len s)) (sc_mem s) of
                     Inr mp \<Rightarrow>
                       (True, s\<lparr>sc_map := (case sc_map s of None \<Rightarrow> Some mp | Some m \<Rightarrow> Some m),
                                sc_active := True\<rparr>)
                   | Inl err \<Rightarrow> (False, s)))))"

text \<open>Whether that reaches the \<open>fstat\<close> of \<open>from_fd\<close>, and the system answers it.\<close>

definition init_shm_stats :: "(i32 \<Rightarrow> shm_os) \<Rightarrow> shm_client \<Rightarrow> bool" where
  "init_shm_stats os s \<longleftrightarrow> \<not> sc_active s \<and>
     (case Option.bind (env_string (sc_env_fd s)) parse_i32 of
        None \<Rightarrow> False
      | Some fd \<Rightarrow>
          from_fd_stats (os fd) (env_string (sc_env_len s)) \<and> os_fstat_size (os fd) \<noteq> None)"

definition sc_the_map :: "shm_client \<Rightarrow> shm_map option" where
  "sc_the_map s = (if shm_mode_active s then sc_map s else None)"

definition shm_get_current_uid_gid :: "shm_client \<Rightarrow> (u32 \<times> u32) option" where
  "shm_get_current_uid_gid s =
     (case sc_the_map s of
        None \<Rightarrow> None
      | Some mp \<Rightarrow> Some (shm_current_uid (sc_mem s), shm_current_gid (sc_mem s)))"

definition shm_set_current_uid_gid :: "u32 \<Rightarrow> u32 \<Rightarrow> shm_client \<Rightarrow> shm_client" where
  "shm_set_current_uid_gid uid gid s =
     (case sc_the_map s of
        Some mp \<Rightarrow> s\<lparr>sc_mem := shm_set_current uid gid (sc_mem s)\<rparr>
      | None \<Rightarrow> s)"

definition sc_get_inode :: "xattrs serde \<Rightarrow> inode_key \<Rightarrow> shm_client \<Rightarrow> fake_inode option" where
  "sc_get_inode c key s =
     (case sc_the_map s of None \<Rightarrow> None | Some mp \<Rightarrow> shm_get_inode c mp (sc_mem s) key)"

definition sc_upsert_chown ::
    "xattrs serde \<Rightarrow> inode_key \<Rightarrow> u32 \<Rightarrow> u32 \<Rightarrow> u32 \<Rightarrow> u32 \<Rightarrow> shm_client \<Rightarrow> shm_client" where
  "sc_upsert_chown c key uid gid default_uid default_gid s =
     (case sc_the_map s of
        Some mp \<Rightarrow>
          s\<lparr>sc_mem := shm_upsert_chown c mp key uid gid default_uid default_gid (sc_mem s)\<rparr>
      | None \<Rightarrow> s)"

definition sc_upsert_inode :: "xattrs serde \<Rightarrow> inode_key \<Rightarrow> fake_inode \<Rightarrow> shm_client \<Rightarrow> shm_client" where
  "sc_upsert_inode c key inode s =
     (case sc_the_map s of
        Some mp \<Rightarrow> s\<lparr>sc_mem := shm_upsert_inode c mp key inode (sc_mem s)\<rparr>
      | None \<Rightarrow> s)"

definition sc_remove_inode :: "xattrs serde \<Rightarrow> inode_key \<Rightarrow> shm_client \<Rightarrow> bool \<times> shm_client" where
  "sc_remove_inode c key s =
     (case sc_the_map s of
        None \<Rightarrow> (False, s)
      | Some mp \<Rightarrow>
          (case shm_remove_inode c mp key (sc_mem s) of (found, mem) \<Rightarrow> (found, s\<lparr>sc_mem := mem\<rparr>)))"

section \<open>An attached client\<close>

definition shm_attached :: "xattrs serde \<Rightarrow> shm_client \<Rightarrow> bool" where
  "shm_attached c s \<longleftrightarrow> sc_active s \<and> (\<exists>h. sc_map s = Some h \<and> shm_inv c h (sc_mem s))"

definition sc_room :: "shm_client \<Rightarrow> inode_key \<Rightarrow> bool" where
  "sc_room s k \<longleftrightarrow> (\<exists>h. sc_map s = Some h \<and> shm_room h (sc_mem s) k)"

interpretation shmc: inode_store "shm_attached c" "\<lambda>s k. sc_get_inode c k s" "sc_upsert_inode c"
    "\<lambda>k s. snd (sc_remove_inode c k s)" "sc_upsert_chown c" sc_room "shm_canon c" for c
proof unfold_locales
  fix s k i u g du dg
  assume att: "shm_attached c s"
  then obtain h where h: "sc_active s" "sc_map s = Some h" and inv: "shm_inv c h (sc_mem s)"
    by (auto simp: shm_attached_def)
  note defs = sc_get_inode_def sc_upsert_inode_def sc_remove_inode_def sc_upsert_chown_def
    sc_the_map_def shm_mode_active_def sc_room_def shm_attached_def case_prod_beta h inv
  show "shm_attached c (sc_upsert_inode c k i s)" using shm.invar_upsert [OF inv] by (simp add: defs)
  show "shm_attached c (snd (sc_remove_inode c k s))"
    using shm.invar_remove [OF inv] by (simp add: defs)
  show "shm_attached c (sc_upsert_chown c k u g du dg s)"
    using shm.invar_chown [OF inv] by (simp add: defs)
  show "sc_room s k \<Longrightarrow> (\<lambda>k'. sc_get_inode c k' (sc_upsert_inode c k i s)) =
      (\<lambda>k'. sc_get_inode c k' s)(k \<mapsto> shm_canon c i)"
    using shm.lookup_upsert [OF inv, of k i] by (simp add: defs fun_eq_iff)
  show "\<not> sc_room s k \<Longrightarrow> (\<lambda>k'. sc_get_inode c k' (sc_upsert_inode c k i s)) = (\<lambda>k'. sc_get_inode c k' s)"
    using shm.lookup_upsert_full [OF inv, of k i] by (simp add: defs)
  show "(\<lambda>k'. sc_get_inode c k' (snd (sc_remove_inode c k s))) = (\<lambda>k'. sc_get_inode c k' s)(k := None)"
    using shm.lookup_remove [OF inv, of k] by (simp add: defs fun_eq_iff)
  show "sc_room s k \<Longrightarrow> (\<lambda>k'. sc_get_inode c k' (sc_upsert_chown c k u g du dg s)) =
      (\<lambda>k'. sc_get_inode c k' s)(k \<mapsto> merge_ids u g
        (case sc_get_inode c k s of Some i \<Rightarrow> i | None \<Rightarrow> fake_inode_new du dg))"
    using shm.lookup_chown [OF inv, of k u g du dg] by (simp add: defs fun_eq_iff)
  show "\<not> sc_room s k \<Longrightarrow> (\<lambda>k'. sc_get_inode c k' (sc_upsert_chown c k u g du dg s)) =
      (\<lambda>k'. sc_get_inode c k' s)"
    using shm.lookup_chown_full [OF inv, of k u g du dg] by (simp add: defs)
  show "sc_get_inode c k s = Some i \<Longrightarrow> sc_room s k"
    using shm.room_present [OF inv] by (simp add: defs)
  show "sc_get_inode c k s = Some i \<Longrightarrow> shm_canon c i = i"
    using shm.lookup_canon [OF inv] by (simp add: defs)
qed

lemma sc_frame [frame_simps]:
  "sc_active (sc_upsert_inode c k i s) = sc_active s"
  "sc_active (sc_upsert_chown c k u g du dg s) = sc_active s"
  "sc_active (snd (sc_remove_inode c k s)) = sc_active s"
  "sc_active (shm_set_current_uid_gid u g s) = sc_active s"
  by (simp_all add: sc_upsert_inode_def sc_upsert_chown_def sc_remove_inode_def case_prod_beta
      shm_set_current_uid_gid_def split: option.split)

lemma sc_ids_frame [frame_simps]:
  "shm_get_current_uid_gid (sc_upsert_inode c k i s) = shm_get_current_uid_gid s"
  "shm_get_current_uid_gid (sc_upsert_chown c k u g du dg s) = shm_get_current_uid_gid s"
  "shm_get_current_uid_gid (snd (sc_remove_inode c k s)) = shm_get_current_uid_gid s"
  by (simp_all add: shm_get_current_uid_gid_def sc_upsert_inode_def sc_upsert_chown_def
      sc_remove_inode_def sc_the_map_def shm_mode_active_def shm_current_uid_def shm_current_gid_def
      shm_header_frame case_prod_beta split: option.split)

section \<open>Setting the ids\<close>

lemma probe_loop_header: "probe_loop t h (m\<lparr>sh_header := x\<rparr>) dev ino i r = probe_loop t h m dev ino i r"
  by (induction t arbitrary: i r) (simp_all add: probe_loop.simps(2) shm_slot_def Let_def)

lemma set_current_get: "shm_get_inode c h (shm_set_current u g m) k = shm_get_inode c h m k"
  by (simp add: shm_get_inode_def shm_set_current_def shm_probe_def probe_loop_header shm_slot_def
      read_xattrs_def xattr_page_def case_prod_beta Let_def split: probe.split)

lemma set_current_inv: "shm_inv c h (shm_set_current u g m) = shm_inv c h m"
  by (simp add: shm_inv_def shm_set_current_def table_wf_def reachable_at_def slot_state_defs)

lemma set_current_attached:
  assumes "shm_attached c s"
  shows "shm_attached c (shm_set_current_uid_gid u g s)"
    and "sc_get_inode c k (shm_set_current_uid_gid u g s) = sc_get_inode c k s"
    and "shm_get_current_uid_gid (shm_set_current_uid_gid u g s) = Some (u, g)"
  using assms
  by (auto simp: shm_attached_def shm_set_current_uid_gid_def sc_the_map_def shm_mode_active_def
      sc_get_inode_def shm_get_current_uid_gid_def set_current_get set_current_inv)
     (simp_all add: shm_set_current_def shm_current_uid_def shm_current_gid_def)

end
