(* ===== verification/Libc.thy ===== *)
theory Libc
  imports Prelude
begin

text \<open>
  What the interposed library sees of the operating system: the structures and constants of
  the C library on 64-bit Linux, and its calls.  The calls are the fields of a \<open>kernel\<close>
  record over an abstract system state \<open>'k\<close>: they are parameters of the model.  Pointers are
  \<open>None\<close> when null.  Fields of \<open>stat\<close> and \<open>statx\<close> the library never touches are left out.
\<close>

record stat =
  st_dev :: u64
  st_ino :: u64
  st_mode :: u32
  st_nlink :: u64
  st_uid :: u32
  st_gid :: u32
  st_rdev :: u64

record statx =
  stx_mask :: u32
  stx_uid :: u32
  stx_gid :: u32
  stx_mode :: u16
  stx_ino :: u64
  stx_rdev_major :: u32
  stx_rdev_minor :: u32
  stx_dev_major :: u32
  stx_dev_minor :: u32

definition AT_FDCWD :: i32 where "AT_FDCWD = - 100"
definition AT_SYMLINK_NOFOLLOW :: i32 where "AT_SYMLINK_NOFOLLOW = 0x100"
definition AT_REMOVEDIR :: i32 where "AT_REMOVEDIR = 0x200"
definition EINVAL :: i32 where "EINVAL = 22"
definition ERANGE :: i32 where "ERANGE = 34"
definition S_IFMT :: u32 where "S_IFMT = 0xF000"
definition S_IFCHR :: u32 where "S_IFCHR = 0x2000"
definition S_IFBLK :: u32 where "S_IFBLK = 0x6000"
definition S_IFREG :: u32 where "S_IFREG = 0x8000"
definition STATX_TYPE :: u32 where "STATX_TYPE = 1"
definition STATX_MODE :: u32 where "STATX_MODE = 2"
definition STATX_UID :: u32 where "STATX_UID = 8"
definition STATX_GID :: u32 where "STATX_GID = 16"

text \<open>
  A call that fills a buffer takes whether the buffer's pointer is not null and returns the
  result code with the buffer's new contents, which count only when the code is 0.  The fields
  \<open>k_\<dots>\<close> and \<open>sys_\<dots>\<close> are system calls, \<open>c_\<dots>\<close> the C library's functions as the library links them, and
  \<open>next_\<dots>\<close> the functions that \<open>dlsym(RTLD_NEXT)\<close> finds, which are assumed to exist.
\<close>

record 'k kernel =
  k_newfstatat :: "i32 \<Rightarrow> cstr \<Rightarrow> bool \<Rightarrow> i32 \<Rightarrow> 'k \<Rightarrow> i32 \<times> stat"
  k_fstat :: "i32 \<Rightarrow> bool \<Rightarrow> 'k \<Rightarrow> i32 \<times> stat"
  k_statx :: "i32 \<Rightarrow> cstr \<Rightarrow> i32 \<Rightarrow> u32 \<Rightarrow> bool \<Rightarrow> 'k \<Rightarrow> i32 \<times> statx"
  k_fchmodat :: "i32 \<Rightarrow> cstr \<Rightarrow> u32 \<Rightarrow> i32 \<Rightarrow> 'k \<Rightarrow> i32 \<times> 'k"
  k_fchmod :: "i32 \<Rightarrow> u32 \<Rightarrow> 'k \<Rightarrow> i32 \<times> 'k"
  c_unlink :: "cstr \<Rightarrow> 'k \<Rightarrow> i32 \<times> 'k"
  c_unlinkat :: "i32 \<Rightarrow> cstr \<Rightarrow> i32 \<Rightarrow> 'k \<Rightarrow> i32 \<times> 'k"
  c_rmdir :: "cstr \<Rightarrow> 'k \<Rightarrow> i32 \<times> 'k"
  c_rename :: "cstr \<Rightarrow> cstr \<Rightarrow> 'k \<Rightarrow> i32 \<times> 'k"
  c_renameat :: "i32 \<Rightarrow> cstr \<Rightarrow> i32 \<Rightarrow> cstr \<Rightarrow> 'k \<Rightarrow> i32 \<times> 'k"
  c_renameat2 :: "i32 \<Rightarrow> cstr \<Rightarrow> i32 \<Rightarrow> cstr \<Rightarrow> u32 \<Rightarrow> 'k \<Rightarrow> i32 \<times> 'k"
  sys_mknodat :: "i32 \<Rightarrow> cstr \<Rightarrow> u32 \<Rightarrow> u64 \<Rightarrow> 'k \<Rightarrow> i32 \<times> 'k"
  sys_getxattr :: "cstr \<Rightarrow> cstr \<Rightarrow> bytes option \<Rightarrow> nat \<Rightarrow> 'k \<Rightarrow> i32 \<times> bytes option"
  sys_lgetxattr :: "cstr \<Rightarrow> cstr \<Rightarrow> bytes option \<Rightarrow> nat \<Rightarrow> 'k \<Rightarrow> i32 \<times> bytes option"
  sys_fgetxattr :: "i32 \<Rightarrow> cstr \<Rightarrow> bytes option \<Rightarrow> nat \<Rightarrow> 'k \<Rightarrow> i32 \<times> bytes option"
  sys_listxattr :: "cstr \<Rightarrow> bytes option \<Rightarrow> nat \<Rightarrow> 'k \<Rightarrow> i32 \<times> bytes option"
  sys_llistxattr :: "cstr \<Rightarrow> bytes option \<Rightarrow> nat \<Rightarrow> 'k \<Rightarrow> i32 \<times> bytes option"
  sys_flistxattr :: "i32 \<Rightarrow> bytes option \<Rightarrow> nat \<Rightarrow> 'k \<Rightarrow> i32 \<times> bytes option"
  next_unlink :: "cstr \<Rightarrow> 'k \<Rightarrow> i32 \<times> 'k"
  next_unlinkat :: "i32 \<Rightarrow> cstr \<Rightarrow> i32 \<Rightarrow> 'k \<Rightarrow> i32 \<times> 'k"
  next_rmdir :: "cstr \<Rightarrow> 'k \<Rightarrow> i32 \<times> 'k"
  next_rename :: "cstr \<Rightarrow> cstr \<Rightarrow> 'k \<Rightarrow> i32 \<times> 'k"
  next_renameat :: "i32 \<Rightarrow> cstr \<Rightarrow> i32 \<Rightarrow> cstr \<Rightarrow> 'k \<Rightarrow> i32 \<times> 'k"
  next_renameat2 :: "i32 \<Rightarrow> cstr \<Rightarrow> i32 \<Rightarrow> cstr \<Rightarrow> u32 \<Rightarrow> 'k \<Rightarrow> i32 \<times> 'k"
  next_mknod :: "cstr \<Rightarrow> u32 \<Rightarrow> u64 \<Rightarrow> 'k \<Rightarrow> i32 \<times> 'k"
  next_mknodat :: "i32 \<Rightarrow> cstr \<Rightarrow> u32 \<Rightarrow> u64 \<Rightarrow> 'k \<Rightarrow> i32 \<times> 'k"
  next_getxattr :: "cstr \<Rightarrow> cstr \<Rightarrow> bytes option \<Rightarrow> nat \<Rightarrow> 'k \<Rightarrow> i32 \<times> bytes option"
  next_lgetxattr :: "cstr \<Rightarrow> cstr \<Rightarrow> bytes option \<Rightarrow> nat \<Rightarrow> 'k \<Rightarrow> i32 \<times> bytes option"
  next_fgetxattr :: "i32 \<Rightarrow> cstr \<Rightarrow> bytes option \<Rightarrow> nat \<Rightarrow> 'k \<Rightarrow> i32 \<times> bytes option"
  next_listxattr :: "cstr \<Rightarrow> bytes option \<Rightarrow> nat \<Rightarrow> 'k \<Rightarrow> i32 \<times> bytes option"
  next_llistxattr :: "cstr \<Rightarrow> bytes option \<Rightarrow> nat \<Rightarrow> 'k \<Rightarrow> i32 \<times> bytes option"
  next_flistxattr :: "i32 \<Rightarrow> bytes option \<Rightarrow> nat \<Rightarrow> 'k \<Rightarrow> i32 \<times> bytes option"
  k_open_create :: "bytes \<Rightarrow> u32 \<Rightarrow> 'k \<Rightarrow> bool \<times> 'k"
  k_makedev :: "u32 \<Rightarrow> u32 \<Rightarrow> u64"
  k_major :: "u64 \<Rightarrow> u32"
  k_minor :: "u64 \<Rightarrow> u32"

section \<open>The direct system calls of \<open>platform/linux.rs\<close>\<close>

definition real_fstatat ::
    "'k kernel \<Rightarrow> i32 \<Rightarrow> cstr \<Rightarrow> bool \<Rightarrow> i32 \<Rightarrow> 'k \<Rightarrow> i32 \<times> stat" where
  "real_fstatat K dirfd pathname buf flags k = k_newfstatat K dirfd pathname buf flags k"

definition real_stat ::
    "'k kernel \<Rightarrow> cstr \<Rightarrow> bool \<Rightarrow> 'k \<Rightarrow> i32 \<times> stat" where
  "real_stat K path buf k = k_newfstatat K AT_FDCWD path buf 0 k"

definition real_lstat ::
    "'k kernel \<Rightarrow> cstr \<Rightarrow> bool \<Rightarrow> 'k \<Rightarrow> i32 \<times> stat" where
  "real_lstat K path buf k = k_newfstatat K AT_FDCWD path buf AT_SYMLINK_NOFOLLOW k"

definition real_fstat ::
    "'k kernel \<Rightarrow> i32 \<Rightarrow> bool \<Rightarrow> 'k \<Rightarrow> i32 \<times> stat" where
  "real_fstat K fd buf k = k_fstat K fd buf k"

definition real_statx ::
    "'k kernel \<Rightarrow> i32 \<Rightarrow> cstr \<Rightarrow> i32 \<Rightarrow> u32 \<Rightarrow> bool \<Rightarrow> 'k \<Rightarrow> i32 \<times> statx" where
  "real_statx K dirfd pathname flags stx_request buf k = k_statx K dirfd pathname flags stx_request buf k"

definition real_chmod ::
    "'k kernel \<Rightarrow> cstr \<Rightarrow> u32 \<Rightarrow> 'k \<Rightarrow> i32 \<times> 'k" where
  "real_chmod K path mode k = k_fchmodat K AT_FDCWD path mode 0 k"

definition real_fchmod ::
    "'k kernel \<Rightarrow> i32 \<Rightarrow> u32 \<Rightarrow> 'k \<Rightarrow> i32 \<times> 'k" where
  "real_fchmod K fd mode k = k_fchmod K fd mode k"

definition real_fchmodat ::
    "'k kernel \<Rightarrow> i32 \<Rightarrow> cstr \<Rightarrow> u32 \<Rightarrow> i32 \<Rightarrow> 'k \<Rightarrow> i32 \<times> 'k" where
  "real_fchmodat K dirfd path mode flags k = k_fchmodat K dirfd path mode flags k"

section \<open>The wrappers defined with \<open>real_fn!\<close>\<close>

text \<open>
  After the library's initialisation such a wrapper calls the symbol that \<open>dlsym(RTLD_NEXT)\<close>
  found, before that the fallback.  The first argument is \<open>library_init_done()\<close>.
\<close>

definition real_fn :: "bool \<Rightarrow> 'f \<Rightarrow> 'f \<Rightarrow> 'f" where
  "real_fn init_done func fallback = (if init_done then func else fallback)"

definition real_unlink ::
    "'k kernel \<Rightarrow> bool \<Rightarrow> cstr \<Rightarrow> 'k \<Rightarrow> i32 \<times> 'k" where
  "real_unlink K init path k = real_fn init (next_unlink K) (c_unlink K) path k"

definition real_unlinkat ::
    "'k kernel \<Rightarrow> bool \<Rightarrow> i32 \<Rightarrow> cstr \<Rightarrow> i32 \<Rightarrow> 'k \<Rightarrow> i32 \<times> 'k" where
  "real_unlinkat K init dirfd path flags k =
     real_fn init (next_unlinkat K) (c_unlinkat K) dirfd path flags k"

definition real_rmdir ::
    "'k kernel \<Rightarrow> bool \<Rightarrow> cstr \<Rightarrow> 'k \<Rightarrow> i32 \<times> 'k" where
  "real_rmdir K init path k = real_fn init (next_rmdir K) (c_rmdir K) path k"

definition real_rename ::
    "'k kernel \<Rightarrow> bool \<Rightarrow> cstr \<Rightarrow> cstr \<Rightarrow> 'k \<Rightarrow> i32 \<times> 'k" where
  "real_rename K init oldpath newpath k =
     real_fn init (next_rename K) (c_rename K) oldpath newpath k"

definition real_renameat ::
    "'k kernel \<Rightarrow> bool \<Rightarrow> i32 \<Rightarrow> cstr \<Rightarrow> i32 \<Rightarrow> cstr \<Rightarrow> 'k \<Rightarrow> i32 \<times> 'k" where
  "real_renameat K init olddirfd oldpath newdirfd newpath k =
     real_fn init (next_renameat K) (c_renameat K) olddirfd oldpath newdirfd newpath k"

definition real_renameat2 ::
    "'k kernel \<Rightarrow> bool \<Rightarrow> i32 \<Rightarrow> cstr \<Rightarrow> i32 \<Rightarrow> cstr \<Rightarrow> u32 \<Rightarrow> 'k \<Rightarrow> i32 \<times> 'k" where
  "real_renameat2 K init olddirfd oldpath newdirfd newpath flags k =
     real_fn init (next_renameat2 K) (c_renameat2 K) olddirfd oldpath newdirfd newpath flags k"

definition real_mknod ::
    "'k kernel \<Rightarrow> bool \<Rightarrow> cstr \<Rightarrow> u32 \<Rightarrow> u64 \<Rightarrow> 'k \<Rightarrow> i32 \<times> 'k" where
  "real_mknod K init pathname mode dev k =
     real_fn init (next_mknod K) (sys_mknodat K AT_FDCWD) pathname mode dev k"

definition real_mknodat ::
    "'k kernel \<Rightarrow> bool \<Rightarrow> i32 \<Rightarrow> cstr \<Rightarrow> u32 \<Rightarrow> u64 \<Rightarrow> 'k \<Rightarrow> i32 \<times> 'k" where
  "real_mknodat K init dirfd pathname mode dev k =
     real_fn init (next_mknodat K) (sys_mknodat K) dirfd pathname mode dev k"

definition real_getxattr ::
    "'k kernel \<Rightarrow> bool \<Rightarrow> cstr \<Rightarrow> cstr \<Rightarrow> bytes option \<Rightarrow> nat \<Rightarrow> 'k \<Rightarrow> i32 \<times> bytes option" where
  "real_getxattr K init path name v sz k =
     real_fn init (next_getxattr K) (sys_getxattr K) path name v sz k"

definition real_lgetxattr ::
    "'k kernel \<Rightarrow> bool \<Rightarrow> cstr \<Rightarrow> cstr \<Rightarrow> bytes option \<Rightarrow> nat \<Rightarrow> 'k \<Rightarrow> i32 \<times> bytes option" where
  "real_lgetxattr K init path name v sz k =
     real_fn init (next_lgetxattr K) (sys_lgetxattr K) path name v sz k"

definition real_fgetxattr ::
    "'k kernel \<Rightarrow> bool \<Rightarrow> i32 \<Rightarrow> cstr \<Rightarrow> bytes option \<Rightarrow> nat \<Rightarrow> 'k \<Rightarrow> i32 \<times> bytes option" where
  "real_fgetxattr K init fd name v sz k =
     real_fn init (next_fgetxattr K) (sys_fgetxattr K) fd name v sz k"

definition real_listxattr ::
    "'k kernel \<Rightarrow> bool \<Rightarrow> cstr \<Rightarrow> bytes option \<Rightarrow> nat \<Rightarrow> 'k \<Rightarrow> i32 \<times> bytes option" where
  "real_listxattr K init path lst sz k =
     real_fn init (next_listxattr K) (sys_listxattr K) path lst sz k"

definition real_llistxattr ::
    "'k kernel \<Rightarrow> bool \<Rightarrow> cstr \<Rightarrow> bytes option \<Rightarrow> nat \<Rightarrow> 'k \<Rightarrow> i32 \<times> bytes option" where
  "real_llistxattr K init path lst sz k =
     real_fn init (next_llistxattr K) (sys_llistxattr K) path lst sz k"

definition real_flistxattr ::
    "'k kernel \<Rightarrow> bool \<Rightarrow> i32 \<Rightarrow> bytes option \<Rightarrow> nat \<Rightarrow> 'k \<Rightarrow> i32 \<times> bytes option" where
  "real_flistxattr K init fd lst sz k =
     real_fn init (next_flistxattr K) (sys_flistxattr K) fd lst sz k"

end
