(* ===== verification/Inode_Ident.thy ===== *)
theory Inode_Ident
  imports Libc Inode_Store Rust_Text
begin

text \<open>
  Identifying the inode a call is about (\<open>pseudoroot/interpose/src/inode.rs\<close>, Linux branch).
\<close>

definition AT_EMPTY_PATH :: i32 where
  "AT_EMPTY_PATH = 0x1000"

definition key_from_stat :: "stat \<Rightarrow> inode_key" where
  "key_from_stat st = (st_dev st, st_ino st)"

text \<open>A null path is replaced by the empty one; the error value is the result code itself.\<close>

definition stat_at :: "'k kernel \<Rightarrow> i32 \<Rightarrow> cstr \<Rightarrow> i32 \<Rightarrow> 'k \<Rightarrow> i32 + stat" where
  "stat_at K dirfd path flags k =
     (let pathname = (if path = None then Some [] else path) in
      case real_fstatat K dirfd pathname True flags k of
        (rc, st) \<Rightarrow> if rc = 0 then Inr st else Inl rc)"

definition stat_path :: "'k kernel \<Rightarrow> cstr \<Rightarrow> 'k \<Rightarrow> i32 + stat" where
  "stat_path K path k = stat_at K AT_FDCWD path 0 k"

definition lstat_path :: "'k kernel \<Rightarrow> cstr \<Rightarrow> 'k \<Rightarrow> i32 + stat" where
  "lstat_path K path k = stat_at K AT_FDCWD path AT_SYMLINK_NOFOLLOW k"

definition fstat_fd :: "'k kernel \<Rightarrow> i32 \<Rightarrow> 'k \<Rightarrow> i32 + stat" where
  "fstat_fd K fd k = (case real_fstat K fd True k of (rc, st) \<Rightarrow> if rc = 0 then Inr st else Inl rc)"

definition chown_stat_flags :: "i32 \<Rightarrow> i32" where
  "chown_stat_flags at_flags =
     (if at_flags AND AT_SYMLINK_NOFOLLOW \<noteq> 0 then AT_SYMLINK_NOFOLLOW else 0)"

definition at_empty_path :: "i32 \<Rightarrow> bool" where
  "at_empty_path at_flags \<longleftrightarrow> at_flags AND AT_EMPTY_PATH \<noteq> 0"

text \<open>\<open>i32\<close>'s \<open>Display\<close>, which the path below \<open>/proc/self/fd\<close> is formatted with.\<close>

definition show_i32 :: "i32 \<Rightarrow> string" where
  "show_i32 i = (if sint i < 0 then ''-'' @ show_nat (nat (- sint i)) else show_nat (nat (sint i)))"

definition resolve_path_at :: "i32 \<Rightarrow> cstr \<Rightarrow> bytes option" where
  "resolve_path_at dirfd path =
     (case path of
        None \<Rightarrow> None
      | Some c_path \<Rightarrow>
          if c_path = [] then None
          else if \<not> utf8_valid c_path then None
          else if dirfd = AT_FDCWD \<or> hd c_path = of_char CHR ''/'' then Some c_path
          else Some (bytes_of (''/proc/self/fd/'' @ show_i32 dirfd @ ''/'') @ c_path))"

text \<open>\<open>CString::new\<close> fails on an interior NUL.\<close>

definition stat_path_buf :: "'k kernel \<Rightarrow> bytes \<Rightarrow> 'k \<Rightarrow> i32 + stat" where
  "stat_path_buf K path k = (if 0 \<in> set path then Inl (- EINVAL) else stat_path K (Some path) k)"

definition resolve_stat_flags :: "i32 \<Rightarrow> cstr \<Rightarrow> i32 \<Rightarrow> i32" where
  "resolve_stat_flags dirfd path at_flags =
     (let flags = chown_stat_flags at_flags in
      if at_empty_path at_flags then flags OR AT_EMPTY_PATH
      else
        (case path of
           None \<Rightarrow> flags
         | Some c_path \<Rightarrow> if c_path = [] \<and> dirfd \<noteq> AT_FDCWD then flags OR AT_EMPTY_PATH else flags))"

end
