(* ===== verification/Interpose.thy ===== *)
theory Interpose
  imports Shm_Client Daemon_Client Inode_Ident
begin

text \<open>
  The state of the interposed library in one process and the routing of the fake state to its
  backend (first part of \<open>pseudoroot/interpose/src/ownership.rs\<close>): library initialisation, the
  current ids, and lookup, update, removal and chown of one inode.

  The record \<open>interpose\<close> holds the statics of the process with everything they reach: the
  global table, the shared-memory client, the daemon link, the system behind the C library.
  The record \<open>params\<close> holds the parameters: the encodings, the stream operations, the calls of
  the operating system, and the order in which a \<open>HashMap\<close> lists its keys.  One thread runs
  at a time here, and what initialisation does is one function; that mapping an inherited table
  without its length comes back into the library through its own \<open>fstat\<close>, and several threads
  that initialise the library at once, are in \<open>Library_Init\<close>, several processes in
  \<open>Session_World\<close>.
\<close>

record ('w, 'k) params =
  se_xattrs :: "xattrs serde"
  se_codecs :: codecs
  se_ops :: "'w stream_ops"
  se_shm_os :: "i32 \<Rightarrow> shm_os"
  se_kernel :: "'k kernel"
  se_keys :: "xattrs \<Rightarrow> bytes list"

record ('w, 'k) interpose =
  ip_init_done :: bool
  ip_initializing :: bool
  ip_ctor_done :: bool
  ip_init_once :: bool
  ip_session_once :: bool
  ip_boot_uid :: u32
  ip_boot_gid :: u32
  ip_fs_uid :: u32
  ip_fs_gid :: u32
  ip_global :: "fake_root_state option"
  ip_shm :: shm_client
  ip_link :: "'w daemon_link"
  ip_kernel :: 'k

section \<open>Initialisation\<close>

text \<open>\<open>global_state_read\<close> and \<open>global_state_write\<close> create the state on first use.\<close>

definition global_state :: "('w, 'k) interpose \<Rightarrow> fake_root_state \<times> ('w, 'k) interpose" where
  "global_state w =
     (let s = global_get_or_init (ip_global w) in (s, w\<lparr>ip_global := Some s\<rparr>))"

definition global_update ::
    "(fake_root_state \<Rightarrow> fake_root_state) \<Rightarrow> ('w, 'k) interpose \<Rightarrow> ('w, 'k) interpose" where
  "global_update f w = w\<lparr>ip_global := Some (f (global_get_or_init (ip_global w)))\<rparr>"

definition store_bootstrap_ids :: "u32 \<Rightarrow> u32 \<Rightarrow> ('w, 'k) interpose \<Rightarrow> ('w, 'k) interpose" where
  "store_bootstrap_ids uid gid w =
     w\<lparr>ip_boot_uid := uid, ip_boot_gid := gid, ip_ctor_done := True\<rparr>"

definition finish_library_init :: "('w, 'k) interpose \<Rightarrow> ('w, 'k) interpose" where
  "finish_library_init w =
     (global_update (frs_set_current (ip_boot_uid w) (ip_boot_gid w)) w)\<lparr>ip_init_done := True\<rparr>"

definition ensure_session_backing_init ::
    "('w, 'k) params \<Rightarrow> ('w, 'k) interpose \<Rightarrow> ('w, 'k) interpose" where
  "ensure_session_backing_init P w =
     (if ip_session_once w then w
      else
        (let w = w\<lparr>ip_session_once := True, ip_shm := snd (init_shm_from_env (se_shm_os P) (ip_shm w))\<rparr>
         in if shm_mode_active (ip_shm w) \<or> \<not> daemon_mode_enabled (ip_link w) then w
            else
              (let uid = ip_boot_uid w; gid = ip_boot_gid w;
                   w = w\<lparr>ip_link := snd (init_daemon_connection (se_ops P) (ip_link w))\<rparr>
               in w\<lparr>ip_link := snd (daemon_init (se_codecs P) (se_ops P) uid gid (ip_link w))\<rparr>)))"

definition ensure_library_init :: "('w, 'k) params \<Rightarrow> ('w, 'k) interpose \<Rightarrow> ('w, 'k) interpose" where
  "ensure_library_init P w =
     (if ip_init_done w then ensure_session_backing_init P w
      else if \<not> ip_ctor_done w then w
      else if ip_initializing w then w
      else
        (let w =
           (if ip_init_once w then w
            else (finish_library_init (w\<lparr>ip_init_once := True, ip_initializing := True\<rparr>))
                   \<lparr>ip_initializing := False\<rparr>)
         in ensure_session_backing_init P w))"

section \<open>The current ids\<close>

text \<open>What the active backend says, if it answers; \<open>None\<close> sends the caller to the local state.\<close>

definition backend_ids ::
    "('w, 'k) params \<Rightarrow> ('w, 'k) interpose \<Rightarrow> (u32 \<times> u32) option \<times> ('w, 'k) interpose" where
  "backend_ids P w =
     (case (if shm_mode_active (ip_shm w) then shm_get_current_uid_gid (ip_shm w) else None) of
        Some ids \<Rightarrow> (Some ids, w)
      | None \<Rightarrow>
          if daemon_mode_active (ip_link w) then
            (case daemon_get_current_uid_gid (se_codecs P) (se_ops P) (ip_link w) of
               (r, l) \<Rightarrow> (r, w\<lparr>ip_link := l\<rparr>))
          else (None, w))"

definition current_fake_uid :: "('w, 'k) params \<Rightarrow> ('w, 'k) interpose \<Rightarrow> u32 \<times> ('w, 'k) interpose" where
  "current_fake_uid P w =
     (if \<not> ip_init_done w then (ip_boot_uid w, w)
      else
        (case backend_ids P (ensure_session_backing_init P w) of
           (Some (uid, _), w) \<Rightarrow> (uid, w)
         | (None, w) \<Rightarrow> (case global_state w of (s, w) \<Rightarrow> (frs_current_uid s, w))))"

definition current_fake_gid :: "('w, 'k) params \<Rightarrow> ('w, 'k) interpose \<Rightarrow> u32 \<times> ('w, 'k) interpose" where
  "current_fake_gid P w =
     (if \<not> ip_init_done w then (ip_boot_gid w, w)
      else
        (case backend_ids P (ensure_session_backing_init P w) of
           (Some (_, gid), w) \<Rightarrow> (gid, w)
         | (None, w) \<Rightarrow> (case global_state w of (s, w) \<Rightarrow> (frs_current_gid s, w))))"

definition set_current_ids ::
    "('w, 'k) params \<Rightarrow> u32 \<Rightarrow> u32 \<Rightarrow> ('w, 'k) interpose \<Rightarrow> i32 \<times> ('w, 'k) interpose" where
  "set_current_ids P uid gid w =
     (let w = ensure_library_init P w;
          w = w\<lparr>ip_boot_uid := uid, ip_boot_gid := gid\<rparr>;
          w = global_update (frs_set_current uid gid) w
      in (0,
          if shm_mode_active (ip_shm w) then w\<lparr>ip_shm := shm_set_current_uid_gid uid gid (ip_shm w)\<rparr>
          else if daemon_mode_enabled (ip_link w) then
            w\<lparr>ip_link := snd (daemon_set_current_uid_gid (se_codecs P) (se_ops P) uid gid (ip_link w))\<rparr>
          else w))"

section \<open>One inode\<close>

definition get_inode ::
    "('w, 'k) params \<Rightarrow> inode_key \<Rightarrow> ('w, 'k) interpose \<Rightarrow> fake_inode option \<times> ('w, 'k) interpose" where
  "get_inode P key w =
     (if shm_mode_active (ip_shm w) then (sc_get_inode (se_xattrs P) key (ip_shm w), w)
      else
        (case (if daemon_mode_active (ip_link w)
               then daemon_get_inode (se_codecs P) (se_ops P) key (ip_link w)
               else (None, ip_link w)) of
           (Some inode, l) \<Rightarrow> (Some inode, w\<lparr>ip_link := l\<rparr>)
         | (None, l) \<Rightarrow>
             (case global_state (w\<lparr>ip_link := l\<rparr>) of (s, w) \<Rightarrow> (frs_get_inode s key, w))))"

definition set_inode ::
    "('w, 'k) params \<Rightarrow> inode_key \<Rightarrow> fake_inode \<Rightarrow> ('w, 'k) interpose \<Rightarrow> ('w, 'k) interpose" where
  "set_inode P key inode w =
     (if shm_mode_active (ip_shm w)
      then w\<lparr>ip_shm := sc_upsert_inode (se_xattrs P) key inode (ip_shm w)\<rparr>
      else
        (let w = global_update (frs_set_inode key inode) w
         in if daemon_mode_enabled (ip_link w)
            then w\<lparr>ip_link := snd (daemon_set_inode (se_codecs P) (se_ops P) key inode (ip_link w))\<rparr>
            else w))"

definition update_inode ::
    "('w, 'k) params \<Rightarrow> inode_key \<Rightarrow> (fake_inode \<Rightarrow> fake_inode) \<Rightarrow> ('w, 'k) interpose \<Rightarrow> ('w, 'k) interpose"
where
  "update_inode P key f w =
     (case get_inode P key w of
        (Some inode, w) \<Rightarrow> set_inode P key (f inode) w
      | (None, w) \<Rightarrow>
          (case current_fake_uid P w of (uid, w) \<Rightarrow>
           case current_fake_gid P w of (gid, w) \<Rightarrow>
             set_inode P key (f (fake_inode_new uid gid)) w))"

definition remove_inode :: "('w, 'k) params \<Rightarrow> inode_key \<Rightarrow> ('w, 'k) interpose \<Rightarrow> ('w, 'k) interpose" where
  "remove_inode P key w =
     (if shm_mode_active (ip_shm w)
      then w\<lparr>ip_shm := snd (sc_remove_inode (se_xattrs P) key (ip_shm w))\<rparr>
      else
        (let w = global_update (\<lambda>s. snd (frs_remove_inode key s)) w
         in if daemon_mode_enabled (ip_link w)
            then w\<lparr>ip_link := snd (daemon_remove_inode (se_codecs P) (se_ops P) key (ip_link w))\<rparr>
            else w))"

definition record_chown_key ::
    "('w, 'k) params \<Rightarrow> inode_key \<Rightarrow> u32 \<Rightarrow> u32 \<Rightarrow> ('w, 'k) interpose \<Rightarrow> ('w, 'k) interpose" where
  "record_chown_key P key uid gid w =
     (case current_fake_uid P w of (fake_uid, w) \<Rightarrow>
      case current_fake_gid P w of (fake_gid, w) \<Rightarrow>
        if shm_mode_active (ip_shm w)
        then w\<lparr>ip_shm := sc_upsert_chown (se_xattrs P) key uid gid fake_uid fake_gid (ip_shm w)\<rparr>
        else if daemon_mode_active (ip_link w)
        then w\<lparr>ip_link := snd (daemon_upsert_chown (se_codecs P) (se_ops P) key uid gid
                 fake_uid fake_gid (ip_link w))\<rparr>
        else
          (let w = global_update (frs_upsert_chown key uid gid fake_uid fake_gid) w;
               inode = the (frs_get_inode (global_get_or_init (ip_global w)) key)
           in if daemon_mode_enabled (ip_link w)
              then w\<lparr>ip_link := snd (daemon_set_inode (se_codecs P) (se_ops P) key inode (ip_link w))\<rparr>
              else w))"

section \<open>The file-system ids\<close>

definition read_fs_uid :: "('w, 'k) params \<Rightarrow> ('w, 'k) interpose \<Rightarrow> u32 \<times> ('w, 'k) interpose" where
  "read_fs_uid P w = (if ip_fs_uid w = 0xFFFFFFFF then current_fake_uid P w else (ip_fs_uid w, w))"

definition read_fs_gid :: "('w, 'k) params \<Rightarrow> ('w, 'k) interpose \<Rightarrow> u32 \<times> ('w, 'k) interpose" where
  "read_fs_gid P w = (if ip_fs_gid w = 0xFFFFFFFF then current_fake_gid P w else (ip_fs_gid w, w))"

definition set_fsuid :: "('w, 'k) params \<Rightarrow> u32 \<Rightarrow> ('w, 'k) interpose \<Rightarrow> u32 \<times> ('w, 'k) interpose" where
  "set_fsuid P uid w = (case read_fs_uid P w of (previous, w) \<Rightarrow> (previous, w\<lparr>ip_fs_uid := uid\<rparr>))"

definition set_fsgid :: "('w, 'k) params \<Rightarrow> u32 \<Rightarrow> ('w, 'k) interpose \<Rightarrow> u32 \<times> ('w, 'k) interpose" where
  "set_fsgid P gid w = (case read_fs_gid P w of (previous, w) \<Rightarrow> (previous, w\<lparr>ip_fs_gid := gid\<rparr>))"

end
