(* ===== verification/Backend.thy ===== *)
theory Backend
  imports Interpose
begin

text \<open>
  What the hooks rely on when they use the fake state: the locale \<open>fake_backend\<close> states the laws
  of the routed operations (\<open>get_inode\<close>, \<open>set_inode\<close>, \<open>remove_inode\<close>, \<open>record_chown_key\<close>,
  \<open>current_fake_uid\<close>, \<open>current_fake_gid\<close>) over an abstract table and a pair of ids.  A session
  is in one of three modes, and the routing keeps the laws in each: attached to a shared-memory
  table, connected to a daemon, or on the process's own table.
\<close>

section \<open>The contract\<close>

locale fake_backend =
  fixes ok :: "'s \<Rightarrow> bool"
    and view :: "'s \<Rightarrow> inode_key \<Rightarrow> fake_inode option"
    and ids :: "'s \<Rightarrow> u32 \<times> u32"
    and rest :: "'s \<Rightarrow> 'r"
    and canon :: "'s \<Rightarrow> fake_inode \<Rightarrow> fake_inode"
    and can_set :: "'s \<Rightarrow> inode_key \<Rightarrow> fake_inode \<Rightarrow> bool"
    and can_chown :: "'s \<Rightarrow> inode_key \<Rightarrow> u32 \<Rightarrow> u32 \<Rightarrow> bool"
    and get :: "inode_key \<Rightarrow> 's \<Rightarrow> fake_inode option \<times> 's"
    and set :: "inode_key \<Rightarrow> fake_inode \<Rightarrow> 's \<Rightarrow> 's"
    and remove :: "inode_key \<Rightarrow> 's \<Rightarrow> 's"
    and chown :: "inode_key \<Rightarrow> u32 \<Rightarrow> u32 \<Rightarrow> 's \<Rightarrow> 's"
    and uid :: "'s \<Rightarrow> u32 \<times> 's"
    and gid :: "'s \<Rightarrow> u32 \<times> 's"
  assumes get_fst: "ok w \<Longrightarrow> fst (get k w) = view w k"
    and get_ok: "ok w \<Longrightarrow> ok (snd (get k w))"
    and get_view: "ok w \<Longrightarrow> view (snd (get k w)) = view w"
    and get_same: "ok w \<Longrightarrow> ids (snd (get k w)) = ids w \<and> rest (snd (get k w)) = rest w \<and>
          canon (snd (get k w)) = canon w \<and> can_set (snd (get k w)) = can_set w"
    and uid_fst: "ok w \<Longrightarrow> fst (uid w) = fst (ids w)"
    and uid_ok: "ok w \<Longrightarrow> ok (snd (uid w))"
    and uid_view: "ok w \<Longrightarrow> view (snd (uid w)) = view w"
    and uid_same: "ok w \<Longrightarrow> ids (snd (uid w)) = ids w \<and> rest (snd (uid w)) = rest w \<and>
          canon (snd (uid w)) = canon w \<and> can_set (snd (uid w)) = can_set w"
    and gid_fst: "ok w \<Longrightarrow> fst (gid w) = snd (ids w)"
    and gid_ok: "ok w \<Longrightarrow> ok (snd (gid w))"
    and gid_view: "ok w \<Longrightarrow> view (snd (gid w)) = view w"
    and gid_same: "ok w \<Longrightarrow> ids (snd (gid w)) = ids w \<and> rest (snd (gid w)) = rest w \<and>
          canon (snd (gid w)) = canon w \<and> can_set (snd (gid w)) = can_set w"
    and set_ok: "ok w \<Longrightarrow> can_set w k i \<Longrightarrow> ok (set k i w)"
    and set_view: "ok w \<Longrightarrow> can_set w k i \<Longrightarrow> view (set k i w) = (view w)(k \<mapsto> canon w i)"
    and set_same: "ok w \<Longrightarrow> can_set w k i \<Longrightarrow> ids (set k i w) = ids w \<and> rest (set k i w) = rest w"
    and remove_ok: "ok w \<Longrightarrow> ok (remove k w)"
    and remove_view: "ok w \<Longrightarrow> view (remove k w) = (view w)(k := None)"
    and remove_same: "ok w \<Longrightarrow> ids (remove k w) = ids w \<and> rest (remove k w) = rest w"
    and chown_ok: "ok w \<Longrightarrow> can_chown w k u g \<Longrightarrow> ok (chown k u g w)"
    and chown_view: "ok w \<Longrightarrow> can_chown w k u g \<Longrightarrow> view (chown k u g w) =
          (view w)(k \<mapsto> merge_ids u g
             (case view w k of Some i \<Rightarrow> i | None \<Rightarrow> fake_inode_new (fst (ids w)) (snd (ids w))))"
    and chown_same: "ok w \<Longrightarrow> can_chown w k u g \<Longrightarrow> ids (chown k u g w) = ids w \<and> rest (chown k u g w) = rest w"
begin

lemmas laws = get_fst get_ok get_view get_same uid_fst uid_ok uid_view uid_same
  gid_fst gid_ok gid_view gid_same set_ok set_view set_same
  remove_ok remove_view remove_same chown_ok chown_view chown_same

lemma get_eq: "ok w \<Longrightarrow> get k w = (view w k, snd (get k w))"
  using get_fst [of w k] by (cases "get k w") simp

text \<open>Read, or start from the current ids, change, write back: the shape of every update.\<close>

definition update :: "inode_key \<Rightarrow> (fake_inode \<Rightarrow> fake_inode) \<Rightarrow> 's \<Rightarrow> 's" where
  "update k f w =
     (case get k w of
        (Some i, w) \<Rightarrow> set k (f i) w
      | (None, w) \<Rightarrow>
          (case uid w of (u, w) \<Rightarrow> case gid w of (g, w) \<Rightarrow> set k (f (fake_inode_new u g)) w))"

lemma update_effect:
  assumes "ok w"
    and "i = f (case view w k of Some i \<Rightarrow> i | None \<Rightarrow> fake_inode_new (fst (ids w)) (snd (ids w)))"
    and "can_set w k i"
  shows "ok (update k f w)" and "view (update k f w) = (view w)(k \<mapsto> canon w i)"
    and "ids (update k f w) = ids w" and "rest (update k f w) = rest w"
proof -
  let ?w1 = "snd (get k w)"
  let ?w2 = "snd (uid ?w1)"
  let ?w3 = "snd (gid ?w2)"
  have w1: "ok ?w1" "view ?w1 = view w" "ids ?w1 = ids w" "rest ?w1 = rest w" "canon ?w1 = canon w"
      "can_set ?w1 = can_set w"
    using assms(1) by (simp_all add: laws)
  have w2: "ok ?w2" "view ?w2 = view w" "ids ?w2 = ids w" "rest ?w2 = rest w" "canon ?w2 = canon w"
      "can_set ?w2 = can_set w"
    using w1 by (simp_all add: laws)
  have w3: "ok ?w3" "view ?w3 = view w" "ids ?w3 = ids w" "rest ?w3 = rest w" "canon ?w3 = canon w"
      "can_set ?w3 = can_set w"
    using w2 by (simp_all add: laws)
  have upd: "update k f w = (case view w k of Some i \<Rightarrow> set k (f i) ?w1
      | None \<Rightarrow> set k (f (fake_inode_new (fst (ids w)) (snd (ids w)))) ?w3)"
    unfolding update_def by (subst get_eq [OF assms(1)])
      (simp add: case_prod_beta uid_fst [OF w1(1)] gid_fst [OF w2(1)] w1 w2 split: option.split)
  then have "update k f w = set k i ?w1 \<or> update k f w = set k i ?w3"
    using assms(2) by (cases "view w k") simp_all
  then show "ok (update k f w)" "view (update k f w) = (view w)(k \<mapsto> canon w i)"
    "ids (update k f w) = ids w" "rest (update k f w) = rest w"
    using w1 w3 assms(3) by (auto simp: laws)
qed

end

text \<open>
  A backend can be full: then nothing the operations do to a new entry has an effect, and
  neither does an update, though none of them says so.
\<close>

locale full_backend = fake_backend +
  fixes full :: "'a \<Rightarrow> inode_key \<Rightarrow> bool"
  assumes get_full: "ok w \<Longrightarrow> full w k \<Longrightarrow> snd (get k' w) = w"
    and uid_full: "ok w \<Longrightarrow> full w k \<Longrightarrow> snd (uid w) = w"
    and gid_full: "ok w \<Longrightarrow> full w k \<Longrightarrow> snd (gid w) = w"
    and set_full: "ok w \<Longrightarrow> full w k \<Longrightarrow> set k i w = w"
    and chown_full: "ok w \<Longrightarrow> full w k \<Longrightarrow> chown k u g w = w"
    and view_full: "ok w \<Longrightarrow> full w k \<Longrightarrow> view w k = None"
begin

lemma update_full:
  assumes "ok w" and "full w k"
  shows "update k f w = w"
  unfolding update_def
  by (subst get_eq [OF assms(1)])
     (simp add: case_prod_beta get_full [OF assms] uid_full [OF assms] gid_full [OF assms]
       set_full [OF assms] split: option.split)

end

section \<open>The modes of a session\<close>

definition ready :: "('w, 'k) interpose \<Rightarrow> bool" where
  "ready w \<longleftrightarrow> ip_init_done w \<and> ip_session_once w \<and> \<not> ip_initializing w \<and> ip_global w \<noteq> None"

definition local_state :: "('w, 'k) interpose \<Rightarrow> fake_root_state" where
  "local_state w = global_get_or_init (ip_global w)"

definition shm_session :: "('w, 'k) params \<Rightarrow> ('w, 'k) interpose \<Rightarrow> bool" where
  "shm_session P w \<longleftrightarrow> ready w \<and> shm_attached (se_xattrs P) (ip_shm w)"

definition local_session :: "('w, 'k) interpose \<Rightarrow> bool" where
  "local_session w \<longleftrightarrow> ready w \<and> \<not> sc_active (ip_shm w) \<and> \<not> daemon_mode_enabled (ip_link w)"

text \<open>The messages of bounded size fit a frame; whether metadata fits depends on its attributes.\<close>

definition small_fit :: "codecs \<Rightarrow> bool" where
  "small_fit c \<longleftrightarrow>
     (\<forall>t k i. fits_frame c (key_message c t k i)) \<and>
     (\<forall>k u g du dg i. fits_frame c (chown_message c k u g du dg i)) \<and>
     (\<forall>t u g i. fits_frame c (ids_message c t u g i)) \<and>
     (\<forall>t i. fits_frame c (pm_new t [] i)) \<and>
     (\<forall>p i. fits_frame c (pm_response i (to_wire (c_uid_gid c) p))) \<and>
     (\<forall>i. fits_frame c (pm_response i (to_wire (c_result c) (result_of_inode None))))"

definition entry_fits :: "codecs \<Rightarrow> fake_inode \<Rightarrow> bool" where
  "entry_fits c n \<longleftrightarrow> (\<forall>i. fits_frame c (pm_response i (to_wire (c_result c) (result_of_inode (Some n)))))"

definition state_fits :: "codecs \<Rightarrow> inode_key \<Rightarrow> fake_inode \<Rightarrow> bool" where
  "state_fits c k n \<longleftrightarrow> (\<forall>i. fits_frame c (state_message c k n i))"

definition daemon_session :: "(rpc_world, 'k) params \<Rightarrow> (rpc_world, 'k) interpose \<Rightarrow> bool" where
  "daemon_session P w \<longleftrightarrow> ready w \<and> \<not> sc_active (ip_shm w) \<and>
     se_ops P = rpc_ops (se_codecs P) \<and> codecs_ok (se_codecs P) \<and> small_fit (se_codecs P) \<and>
     linked (ip_link w) \<and>
     (\<forall>k n. link_table (ip_link w) k = Some n \<longrightarrow> entry_fits (se_codecs P) n) \<and>
     (\<forall>k. link_table (ip_link w) k = None \<longrightarrow> frs_get_inode (local_state w) k = None)"

definition session_ok :: "(rpc_world, 'k) params \<Rightarrow> (rpc_world, 'k) interpose \<Rightarrow> bool" where
  "session_ok P w \<longleftrightarrow> shm_session P w \<or> daemon_session P w \<or> local_session w"

definition session_view ::
    "(rpc_world, 'k) params \<Rightarrow> (rpc_world, 'k) interpose \<Rightarrow> inode_key \<Rightarrow> fake_inode option" where
  "session_view P w =
     (if sc_active (ip_shm w) then (\<lambda>k. sc_get_inode (se_xattrs P) k (ip_shm w))
      else if daemon_mode_active (ip_link w) then link_table (ip_link w)
      else frs_get_inode (local_state w))"

definition session_ids :: "(rpc_world, 'k) interpose \<Rightarrow> u32 \<times> u32" where
  "session_ids w =
     (if sc_active (ip_shm w) then the (shm_get_current_uid_gid (ip_shm w))
      else if daemon_mode_active (ip_link w) then
        (frs_current_uid (d_state (rp_daemon (dl_net (ip_link w)))),
         frs_current_gid (d_state (rp_daemon (dl_net (ip_link w)))))
      else (frs_current_uid (local_state w), frs_current_gid (local_state w)))"

definition session_rest :: "('w, 'k) interpose \<Rightarrow> 'k \<times> u32 \<times> u32" where
  "session_rest w = (ip_kernel w, ip_fs_uid w, ip_fs_gid w)"

definition session_canon :: "('w, 'k) params \<Rightarrow> ('w, 'k) interpose \<Rightarrow> fake_inode \<Rightarrow> fake_inode" where
  "session_canon P w = (if sc_active (ip_shm w) then shm_canon (se_xattrs P) else id)"

definition session_can_set ::
    "('w, 'k) params \<Rightarrow> ('w, 'k) interpose \<Rightarrow> inode_key \<Rightarrow> fake_inode \<Rightarrow> bool" where
  "session_can_set P w k n =
     (if sc_active (ip_shm w) then sc_room (ip_shm w) k
      else daemon_mode_active (ip_link w) \<longrightarrow>
        entry_fits (se_codecs P) n \<and> state_fits (se_codecs P) k n)"

text \<open>
  The shared table has neither an entry for the key nor a free place for one.  The operations
  return as if they had recorded what they were given (\<open>Probe::Full\<close> in \<open>shm_map.rs\<close>).
\<close>

definition table_full :: "('w, 'k) interpose \<Rightarrow> inode_key \<Rightarrow> bool" where
  "table_full w k \<longleftrightarrow> sc_active (ip_shm w) \<and> \<not> sc_room (ip_shm w) k"

definition session_can_chown ::
    "(rpc_world, 'k) params \<Rightarrow> (rpc_world, 'k) interpose \<Rightarrow> inode_key \<Rightarrow> u32 \<Rightarrow> u32 \<Rightarrow> bool" where
  "session_can_chown P w k u g =
     (if sc_active (ip_shm w) then sc_room (ip_shm w) k
      else daemon_mode_active (ip_link w) \<longrightarrow>
        entry_fits (se_codecs P) (merge_ids u g (case session_view P w k of
          Some n \<Rightarrow> n | None \<Rightarrow> fake_inode_new (fst (session_ids w)) (snd (session_ids w)))))"

end
