(* ===== verification/Backend_Laws.thy ===== *)
theory Backend_Laws
  imports Backend
begin

text \<open>
  The routed operations keep the laws of \<open>fake_backend\<close> in every mode of a session: first what
  each of them does in each mode, as equations, then the interpretation of the locale.
\<close>

section \<open>The operations in each mode\<close>

lemma ready_session [simp]: "ready w \<Longrightarrow> ensure_session_backing_init P w = w"
  by (simp add: ready_def ensure_session_backing_init_def)

lemma ready_library [simp]: "ready w \<Longrightarrow> ensure_library_init P w = w"
  by (simp add: ready_def ensure_library_init_def ensure_session_backing_init_def)

lemma ready_global: "ready w \<Longrightarrow> ip_global w = Some (local_state w)"
  by (auto simp: ready_def local_state_def global_get_or_init_def)

lemma ready_global_state: "ready w \<Longrightarrow> global_state w = (local_state w, w)"
  using ready_global [of w] by (simp add: global_state_def global_get_or_init_def Let_def)

lemma ready_init_done [simp]: "ready w \<Longrightarrow> ip_init_done w"
  by (simp add: ready_def)

lemma shm_ids:
  "shm_attached c s \<Longrightarrow>
     shm_get_current_uid_gid s = Some (shm_current_uid (sc_mem s), shm_current_gid (sc_mem s))"
  by (auto simp: shm_attached_def shm_get_current_uid_gid_def sc_the_map_def shm_mode_active_def)

lemma shm_session_ops:
  assumes "shm_session P w"
  shows "get_inode P k w = (sc_get_inode (se_xattrs P) k (ip_shm w), w)"
    "set_inode P k i w = w\<lparr>ip_shm := sc_upsert_inode (se_xattrs P) k i (ip_shm w)\<rparr>"
    "remove_inode P k w = w\<lparr>ip_shm := snd (sc_remove_inode (se_xattrs P) k (ip_shm w))\<rparr>"
    "current_fake_uid P w = (shm_current_uid (sc_mem (ip_shm w)), w)"
    "current_fake_gid P w = (shm_current_gid (sc_mem (ip_shm w)), w)"
    "record_chown_key P k u g w = w\<lparr>ip_shm := sc_upsert_chown (se_xattrs P) k u g
       (shm_current_uid (sc_mem (ip_shm w))) (shm_current_gid (sc_mem (ip_shm w))) (ip_shm w)\<rparr>"
proof -
  have w: "ready w" "sc_active (ip_shm w)"
    and ids: "shm_get_current_uid_gid (ip_shm w) =
      Some (shm_current_uid (sc_mem (ip_shm w)), shm_current_gid (sc_mem (ip_shm w)))"
    using assms shm_ids by (auto simp: shm_session_def shm_attached_def)
  show uid: "current_fake_uid P w = (shm_current_uid (sc_mem (ip_shm w)), w)"
    and gid: "current_fake_gid P w = (shm_current_gid (sc_mem (ip_shm w)), w)"
    using w ids by (simp_all add: current_fake_uid_def current_fake_gid_def backend_ids_def shm_mode_active_def)
  show "get_inode P k w = (sc_get_inode (se_xattrs P) k (ip_shm w), w)"
    "set_inode P k i w = w\<lparr>ip_shm := sc_upsert_inode (se_xattrs P) k i (ip_shm w)\<rparr>"
    "remove_inode P k w = w\<lparr>ip_shm := snd (sc_remove_inode (se_xattrs P) k (ip_shm w))\<rparr>"
    "record_chown_key P k u g w = w\<lparr>ip_shm := sc_upsert_chown (se_xattrs P) k u g
       (shm_current_uid (sc_mem (ip_shm w))) (shm_current_gid (sc_mem (ip_shm w))) (ip_shm w)\<rparr>"
    using w by (simp_all add: get_inode_def set_inode_def remove_inode_def record_chown_key_def
        shm_mode_active_def uid gid)
qed

lemma local_inactive:
  "local_session w \<Longrightarrow> \<not> shm_mode_active (ip_shm w) \<and> \<not> daemon_mode_active (ip_link w) \<and>
     \<not> daemon_mode_enabled (ip_link w)"
  by (simp add: local_session_def shm_mode_active_def daemon_mode_active_def)

lemma local_session_ops:
  assumes "local_session w"
  shows "get_inode P k w = (frs_get_inode (local_state w) k, w)"
    "set_inode P k i w = global_update (frs_set_inode k i) w"
    "remove_inode P k w = global_update (\<lambda>s. snd (frs_remove_inode k s)) w"
    "current_fake_uid P w = (frs_current_uid (local_state w), w)"
    "current_fake_gid P w = (frs_current_gid (local_state w), w)"
    "record_chown_key P k u g w = global_update (frs_upsert_chown k u g
       (frs_current_uid (local_state w)) (frs_current_gid (local_state w))) w"
proof -
  have w: "ready w" using assms by (simp add: local_session_def)
  note off = local_inactive [OF assms]
  show uid: "current_fake_uid P w = (frs_current_uid (local_state w), w)"
    and gid: "current_fake_gid P w = (frs_current_gid (local_state w), w)"
    using w off by (simp_all add: current_fake_uid_def current_fake_gid_def backend_ids_def ready_global_state)
  show "get_inode P k w = (frs_get_inode (local_state w) k, w)"
    using w off by (simp add: get_inode_def ready_global_state)
  show "set_inode P k i w = global_update (frs_set_inode k i) w"
    "remove_inode P k w = global_update (\<lambda>s. snd (frs_remove_inode k s)) w"
    "record_chown_key P k u g w = global_update (frs_upsert_chown k u g
       (frs_current_uid (local_state w)) (frs_current_gid (local_state w))) w"
    using off by (simp_all add: set_inode_def remove_inode_def record_chown_key_def uid gid
        global_update_def Let_def)
qed

section \<open>The daemon mode\<close>

abbreviation dtable :: "(rpc_world, 'k) interpose \<Rightarrow> inode_key \<Rightarrow> fake_inode option" where
  "dtable w \<equiv> link_table (ip_link w)"

abbreviation dstate :: "(rpc_world, 'k) interpose \<Rightarrow> fake_root_state" where
  "dstate w \<equiv> d_state (rp_daemon (dl_net (ip_link w)))"

lemma daemon_sessionD:
  assumes "daemon_session P w"
  shows "ready w" "\<not> shm_mode_active (ip_shm w)" "\<not> sc_active (ip_shm w)"
    "se_ops P = rpc_ops (se_codecs P)" "codecs_ok (se_codecs P)" "small_fit (se_codecs P)"
    "linked (ip_link w)" "daemon_mode_active (ip_link w)" "daemon_mode_enabled (ip_link w)"
    "dtable w k = Some n \<Longrightarrow> entry_fits (se_codecs P) n"
    "dtable w k = None \<Longrightarrow> frs_get_inode (local_state w) k = None"
  using assms
  by (auto simp: daemon_session_def shm_mode_active_def linked_def daemon_mode_active_def
      simp del: split_paired_All)

lemma small_replies:
  assumes "small_fit c" and "codecs_ok c"
  shows "rpc_fits c (chown_message c k u g du dg i) l"
    "rpc_fits c (key_message c RemoveOwnership k i) l"
    "rpc_fits c (pm_new GetCurrentUidGid [] i) l"
    "state_fits c k n \<Longrightarrow> rpc_fits c (state_message c k n i) l"
  using assms
  by (simp_all add: rpc_fits_def small_fit_def dispatch_replies dispatch_current state_fits_def
      pm_response_def del: split_paired_All)

lemma get_fits:
  assumes "small_fit c" and "codecs_ok c" and "\<And>n. link_table l k = Some n \<Longrightarrow> entry_fits c n"
  shows "rpc_fits c (key_message c GetOwnership k i) l"
  using assms
  by (cases "link_table l k")
     (auto simp: rpc_fits_def small_fit_def dispatch_get link_table_def entry_fits_def
       simp del: split_paired_All)

lemma link_current:
  assumes "codecs_ok c" and "small_fit c" and "linked l"
  shows "daemon_get_current_uid_gid c (rpc_ops c) l =
    (Some (frs_current_uid (d_state (rp_daemon (dl_net l))), frs_current_gid (d_state (rp_daemon (dl_net l)))),
     link_dispatch c (pm_new GetCurrentUidGid [] (dl_next_id l)) l)"
  using link_request [OF assms(1,3) small_replies(3) [OF assms(2,1)]]
  by (simp add: daemon_get_current_uid_gid_def dispatch_current codecs_okD [OF assms(1)])

lemma dispatch_reads [simp]:
  assumes "codecs_ok c"
  shows "dispatch_state c (key_message c GetOwnership k i) d = d"
    "dispatch_state c (pm_new GetCurrentUidGid p i) d = d"
  by (simp_all add: dispatch_get [OF assms] dispatch_current)

lemma link_dispatch_same:
  assumes "dispatch_state c m (rp_daemon (dl_net l)) = rp_daemon (dl_net l)"
  shows "link_dispatch c m l = l\<lparr>dl_next_id := dl_next_id l + 1\<rparr>"
  using assms by (cases "dl_net l") (simp add: link_dispatch_def)

lemma daemon_session_reads:
  assumes "daemon_session P w"
  shows "get_inode P k w = (dtable w k, w\<lparr>ip_link := (ip_link w)\<lparr>dl_next_id := dl_next_id (ip_link w) + 1\<rparr>\<rparr>)"
    "current_fake_uid P w = (frs_current_uid (dstate w),
       w\<lparr>ip_link := (ip_link w)\<lparr>dl_next_id := dl_next_id (ip_link w) + 1\<rparr>\<rparr>)"
    "current_fake_gid P w = (frs_current_gid (dstate w),
       w\<lparr>ip_link := (ip_link w)\<lparr>dl_next_id := dl_next_id (ip_link w) + 1\<rparr>\<rparr>)"
proof -
  note D = daemon_sessionD [OF assms]
  let ?l = "(ip_link w)\<lparr>dl_next_id := dl_next_id (ip_link w) + 1\<rparr>"
  have get: "daemon_get_inode (se_codecs P) (se_ops P) k (ip_link w) = (dtable w k, ?l)"
    using link_get_inode [OF D(5,7) get_fits [OF D(6,5) D(10)]]
    by (simp add: D(4) link_dispatch_same D(5))
  have "ready (w\<lparr>ip_link := ?l\<rparr>)" "local_state (w\<lparr>ip_link := ?l\<rparr>) = local_state w"
    using D(1) by (simp_all add: ready_def local_state_def)
  then show "get_inode P k w = (dtable w k, w\<lparr>ip_link := ?l\<rparr>)"
    using D(2,8) D(11) [of k]
    by (cases "dtable w k") (simp_all add: get_inode_def get ready_global_state)
  have "daemon_get_current_uid_gid (se_codecs P) (se_ops P) (ip_link w) =
      (Some (frs_current_uid (dstate w), frs_current_gid (dstate w)), ?l)"
    using link_current [OF D(5,6,7)] by (simp add: D(4) link_dispatch_same D(5))
  then have "backend_ids P w = (Some (frs_current_uid (dstate w), frs_current_gid (dstate w)), w\<lparr>ip_link := ?l\<rparr>)"
    using D(2,8) by (simp add: backend_ids_def)
  then show "current_fake_uid P w = (frs_current_uid (dstate w), w\<lparr>ip_link := ?l\<rparr>)"
    "current_fake_gid P w = (frs_current_gid (dstate w), w\<lparr>ip_link := ?l\<rparr>)"
    using D(1) by (simp_all add: current_fake_uid_def current_fake_gid_def)
qed

text \<open>Counting request ids changes nothing a session is about.\<close>

lemma daemon_session_id:
  assumes "daemon_session P w"
  shows "daemon_session P (w\<lparr>ip_link := (ip_link w)\<lparr>dl_next_id := i\<rparr>\<rparr>)"
  using assms
  by (simp add: daemon_session_def ready_def linked_def daemon_mode_active_def daemon_mode_enabled_def
      get_daemon_socket_path_def link_table_def local_state_def)

lemma session_id_frame [simp]:
  "session_view P (w\<lparr>ip_link := (ip_link w)\<lparr>dl_next_id := i\<rparr>\<rparr>) = session_view P w"
  "session_ids (w\<lparr>ip_link := (ip_link w)\<lparr>dl_next_id := i\<rparr>\<rparr>) = session_ids w"
  "session_rest (w\<lparr>ip_link := (ip_link w)\<lparr>dl_next_id := i\<rparr>\<rparr>) = session_rest w"
  "session_canon P (w\<lparr>ip_link := (ip_link w)\<lparr>dl_next_id := i\<rparr>\<rparr>) = session_canon P w"
  "session_can_set P (w\<lparr>ip_link := (ip_link w)\<lparr>dl_next_id := i\<rparr>\<rparr>) = session_can_set P w"
  by (simp_all add: session_view_def session_ids_def session_rest_def session_canon_def
      session_can_set_def fun_eq_iff link_table_def local_state_def daemon_mode_active_def
      daemon_mode_enabled_def get_daemon_socket_path_def)

lemma daemon_session_writes:
  assumes "daemon_session P w"
  shows "state_fits (se_codecs P) k n \<Longrightarrow> set_inode P k n w =
      (global_update (frs_set_inode k n) w)\<lparr>ip_link :=
         link_dispatch (se_codecs P) (state_message (se_codecs P) k n (dl_next_id (ip_link w))) (ip_link w)\<rparr>"
    "remove_inode P k w =
      (global_update (\<lambda>s. snd (frs_remove_inode k s)) w)\<lparr>ip_link :=
         link_dispatch (se_codecs P) (key_message (se_codecs P) RemoveOwnership k (dl_next_id (ip_link w)))
           (ip_link w)\<rparr>"
proof -
  note D = daemon_sessionD [OF assms]
  show "state_fits (se_codecs P) k n \<Longrightarrow> set_inode P k n w =
      (global_update (frs_set_inode k n) w)\<lparr>ip_link :=
         link_dispatch (se_codecs P) (state_message (se_codecs P) k n (dl_next_id (ip_link w))) (ip_link w)\<rparr>"
    using D(2,9) link_updates(1) [OF D(5,7) small_replies(4) [OF D(6,5)], of k n]
    by (simp add: set_inode_def D(4) global_update_def)
  show "remove_inode P k w =
      (global_update (\<lambda>s. snd (frs_remove_inode k s)) w)\<lparr>ip_link :=
         link_dispatch (se_codecs P) (key_message (se_codecs P) RemoveOwnership k (dl_next_id (ip_link w)))
           (ip_link w)\<rparr>"
    using D(2,9) link_updates(3) [OF D(5,7) small_replies(2) [OF D(6,5)], of k]
    by (simp add: remove_inode_def D(4) global_update_def)
qed

lemma daemon_session_chown:
  assumes "daemon_session P w"
  shows "\<exists>i. record_chown_key P k u g w = w\<lparr>ip_link :=
     link_dispatch (se_codecs P) (chown_message (se_codecs P) k u g (frs_current_uid (dstate w))
       (frs_current_gid (dstate w)) i) ((ip_link w)\<lparr>dl_next_id := i\<rparr>)\<rparr>"
proof -
  let ?i1 = "dl_next_id (ip_link w) + 1"
  let ?i2 = "?i1 + 1"
  let ?w1 = "w\<lparr>ip_link := (ip_link w)\<lparr>dl_next_id := ?i1\<rparr>\<rparr>"
  let ?w2 = "w\<lparr>ip_link := (ip_link w)\<lparr>dl_next_id := ?i2\<rparr>\<rparr>"
  have s1: "daemon_session P ?w1" and s2: "daemon_session P ?w2"
    by (rule daemon_session_id [OF assms])+
  note D = daemon_sessionD [OF s2]
  have gid: "current_fake_gid P ?w1 = (frs_current_gid (dstate w), ?w2)"
    using daemon_session_reads(3) [OF s1] by simp
  have "daemon_upsert_chown (se_codecs P) (se_ops P) k u g (frs_current_uid (dstate w))
      (frs_current_gid (dstate w)) (ip_link ?w2) =
    (True, link_dispatch (se_codecs P) (chown_message (se_codecs P) k u g (frs_current_uid (dstate w))
       (frs_current_gid (dstate w)) ?i2) (ip_link ?w2))"
    using link_updates(2) [OF D(5,7) small_replies(1) [OF D(6,5)]] by (simp add: D(4))
  then show ?thesis
    using D(2,8) daemon_session_reads(2) [OF assms] gid
    by (intro exI [of _ ?i2]) (simp add: record_chown_key_def)
qed

section \<open>What an update does to a daemon session\<close>

lemma linked_same_active: "linked l \<Longrightarrow> linked (link_dispatch c m l)"
  by (rule linked_dispatch)

lemma daemon_session_after:
  assumes "daemon_session P w" and "op_of_message (se_codecs P) m = Some x"
    and "ids_of_message (se_codecs P) m = None"
    and "w' = w\<lparr>ip_global := Some s, ip_link := link_dispatch (se_codecs P) m ((ip_link w)\<lparr>dl_next_id := i\<rparr>)\<rparr>"
    and "\<And>k n. spec_op id x (dtable w) k = Some n \<Longrightarrow> entry_fits (se_codecs P) n"
    and "\<And>k. spec_op id x (dtable w) k = None \<Longrightarrow> frs_get_inode s k = None"
  shows "daemon_session P w'" and "session_view P w' = spec_op id x (session_view P w)"
    and "session_ids w' = session_ids w" and "session_rest w' = session_rest w"
proof -
  let ?l = "(ip_link w)\<lparr>dl_next_id := i\<rparr>"
  note D = daemon_sessionD [OF assms(1)]
  have linked: "linked (link_dispatch (se_codecs P) m ?l)"
    using D(7) by (intro linked_dispatch) (simp add: linked_def daemon_mode_active_def
        daemon_mode_enabled_def get_daemon_socket_path_def)
  have table: "dtable w' = spec_op id x (dtable w)"
    by (simp add: assms(2,4) link_table_dispatch) (simp add: link_table_def)
  have "daemon_mode_active (ip_link w')" using linked by (simp add: assms(4) linked_def)
  then have mode: "\<not> sc_active (ip_shm w')" "daemon_mode_active (ip_link w')"
    using D(3) by (simp_all add: assms(4))
  have ready: "ready w'" "local_state w' = s"
    using D(1) by (simp_all add: assms(4) ready_def local_state_def global_get_or_init_def)
  show "daemon_session P w'"
    using D(4,5,6) ready mode linked assms(5,6)
    by (simp add: daemon_session_def table) (simp add: assms(4))
  show "session_view P w' = spec_op id x (session_view P w)"
    using mode D(3,8) by (simp add: session_view_def table)
  have "(frs_current_uid (dstate w'), frs_current_gid (dstate w')) =
      (frs_current_uid (dstate w), frs_current_gid (dstate w))"
    using dispatch_ids [of "se_codecs P" m "rp_daemon (dl_net (ip_link w))"] assms(3)
    by (simp add: assms(4))
  then show "session_ids w' = session_ids w"
    using mode D(3,8) by (simp add: session_ids_def)
  show "session_rest w' = session_rest w" by (simp add: assms(4) session_rest_def)
qed

section \<open>All modes\<close>

lemma shm_session_view:
  assumes "shm_session P w"
  shows "session_view P w = (\<lambda>k. sc_get_inode (se_xattrs P) k (ip_shm w))"
    "session_ids w = (shm_current_uid (sc_mem (ip_shm w)), shm_current_gid (sc_mem (ip_shm w)))"
    "sc_active (ip_shm w)" "shm_attached (se_xattrs P) (ip_shm w)" "ready w"
  using assms shm_ids [of "se_xattrs P" "ip_shm w"]
  by (auto simp: shm_session_def shm_attached_def session_view_def session_ids_def)

lemma local_session_view:
  assumes "local_session w"
  shows "session_view P w = frs_get_inode (local_state w)"
    "session_ids w = (frs_current_uid (local_state w), frs_current_gid (local_state w))"
  using assms local_inactive [OF assms]
  by (simp_all add: local_session_def session_view_def session_ids_def)

lemma daemon_session_view:
  assumes "daemon_session P w"
  shows "session_view P w = dtable w"
    "session_ids w = (frs_current_uid (dstate w), frs_current_gid (dstate w))"
  using daemon_sessionD(3,8) [OF assms] by (simp_all add: session_view_def session_ids_def)

lemma daemon_session_ok_id:
  "daemon_session P w \<Longrightarrow> session_ok P (w\<lparr>ip_link := (ip_link w)\<lparr>dl_next_id := i\<rparr>\<rparr>)"
  by (simp add: session_ok_def daemon_session_id)

lemma session_reads:
  assumes "session_ok P w"
  shows "fst (get_inode P k w) = session_view P w k" and "session_ok P (snd (get_inode P k w))"
    and "session_view P (snd (get_inode P k w)) = session_view P w"
    and "session_ids (snd (get_inode P k w)) = session_ids w"
    and "session_rest (snd (get_inode P k w)) = session_rest w"
    and "session_canon P (snd (get_inode P k w)) = session_canon P w"
    and "session_can_set P (snd (get_inode P k w)) = session_can_set P w"
    and "fst (current_fake_uid P w) = fst (session_ids w)"
    and "session_ok P (snd (current_fake_uid P w))"
    and "session_view P (snd (current_fake_uid P w)) = session_view P w"
    and "session_ids (snd (current_fake_uid P w)) = session_ids w"
    and "session_rest (snd (current_fake_uid P w)) = session_rest w"
    and "session_canon P (snd (current_fake_uid P w)) = session_canon P w"
    and "session_can_set P (snd (current_fake_uid P w)) = session_can_set P w"
    and "fst (current_fake_gid P w) = snd (session_ids w)"
    and "session_ok P (snd (current_fake_gid P w))"
    and "session_view P (snd (current_fake_gid P w)) = session_view P w"
    and "session_ids (snd (current_fake_gid P w)) = session_ids w"
    and "session_rest (snd (current_fake_gid P w)) = session_rest w"
    and "session_canon P (snd (current_fake_gid P w)) = session_canon P w"
    and "session_can_set P (snd (current_fake_gid P w)) = session_can_set P w"
  using assms
  by (auto simp: session_ok_def [of P w] shm_session_ops shm_session_view local_session_ops
      local_session_view daemon_session_reads daemon_session_view daemon_session_ok_id)

lemma session_view_shm_update:
  assumes "shm_session P w" and "shm_attached (se_xattrs P) s"
    and "shm_get_current_uid_gid s = shm_get_current_uid_gid (ip_shm w)"
  shows "session_ok P (w\<lparr>ip_shm := s\<rparr>)"
    and "session_view P (w\<lparr>ip_shm := s\<rparr>) = (\<lambda>k. sc_get_inode (se_xattrs P) k s)"
    and "session_ids (w\<lparr>ip_shm := s\<rparr>) = session_ids w"
    and "session_rest (w\<lparr>ip_shm := s\<rparr>) = session_rest w"
proof -
  have new: "shm_session P (w\<lparr>ip_shm := s\<rparr>)"
    using assms(1,2) by (simp add: shm_session_def ready_def)
  then show "session_ok P (w\<lparr>ip_shm := s\<rparr>)" by (simp add: session_ok_def)
  show "session_view P (w\<lparr>ip_shm := s\<rparr>) = (\<lambda>k. sc_get_inode (se_xattrs P) k s)"
    by (simp add: shm_session_view [OF new])
  show "session_ids (w\<lparr>ip_shm := s\<rparr>) = session_ids w"
    using assms(3) shm_session_view(3) [OF new] shm_session_view(3) [OF assms(1)]
    by (simp add: session_ids_def)
  show "session_rest (w\<lparr>ip_shm := s\<rparr>) = session_rest w" by (simp add: session_rest_def)
qed

lemma local_session_update:
  assumes "local_session w" and "frs_current_uid (f (local_state w)) = frs_current_uid (local_state w)"
    and "frs_current_gid (f (local_state w)) = frs_current_gid (local_state w)"
  shows "session_ok P (global_update f w)"
    and "session_view P (global_update f w) = frs_get_inode (f (local_state w))"
    and "session_ids (global_update f w) = session_ids w"
    and "session_rest (global_update f w) = session_rest w"
proof -
  have state: "local_state (global_update f w) = f (local_state w)"
    by (simp add: local_state_def global_update_def global_get_or_init_def)
  have new: "local_session (global_update f w)"
    using assms(1) by (simp add: local_session_def global_update_def ready_def)
  then show "session_ok P (global_update f w)" by (simp add: session_ok_def)
  show "session_view P (global_update f w) = frs_get_inode (f (local_state w))"
    "session_ids (global_update f w) = session_ids w"
    using assms(2,3) by (simp_all add: local_session_view [OF new] local_session_view [OF assms(1)] state)
  show "session_rest (global_update f w) = session_rest w"
    by (simp add: session_rest_def global_update_def)
qed

lemma session_set:
  assumes "session_ok P w" and "session_can_set P w k n"
  shows "session_ok P (set_inode P k n w) \<and>
    session_view P (set_inode P k n w) = (session_view P w)(k \<mapsto> session_canon P w n) \<and>
    session_ids (set_inode P k n w) = session_ids w \<and> session_rest (set_inode P k n w) = session_rest w"
  using assms(1) unfolding session_ok_def [of P w]
proof (elim disjE)
  assume w: "shm_session P w"
  note V = shm_session_view [OF w]
  have "sc_room (ip_shm w) k" using assms(2) V(3) by (simp add: session_can_set_def)
  then show ?thesis
    using session_view_shm_update [OF w shmc.invar_upsert [OF V(4)] sc_ids_frame(1)]
      shmc.lookup_upsert [OF V(4)] V(3)
    by (simp add: shm_session_ops(2) [OF w] V(1) session_canon_def)
next
  assume w: "daemon_session P w"
  note D = daemon_sessionD [OF w]
  let ?c = "se_codecs P" and ?i = "dl_next_id (ip_link w)"
  let ?s = "frs_set_inode k n (local_state w)"
  have fits: "entry_fits ?c n" "state_fits ?c k n"
    using assms(2) D(3,8) by (simp_all add: session_can_set_def)
  have set: "set_inode P k n w = w\<lparr>ip_global := Some ?s,
      ip_link := link_dispatch ?c (state_message ?c k n ?i) ((ip_link w)\<lparr>dl_next_id := ?i\<rparr>)\<rparr>"
    using daemon_session_writes(1) [OF w fits(2)] by (simp add: global_update_def local_state_def)
  have ids: "ids_of_message ?c (state_message ?c k n ?i) = None"
    by (simp add: ids_of_message_def state_message_def)
  have "entry_fits ?c n'" if "spec_op id (Upsert k n) (dtable w) k' = Some n'" for k' n'
    using that fits(1) D(10) [where k = k'] by (simp split: if_splits)
  moreover have "frs_get_inode ?s k' = None" if "spec_op id (Upsert k n) (dtable w) k' = None" for k'
    using that D(11) [where k = k'] by (simp add: store_simps split: if_splits)
  ultimately show ?thesis
    using daemon_session_after [OF w op_of_messages(1) [OF D(5)] ids set] D(3)
    by (simp add: session_ok_def session_canon_def)
next
  assume w: "local_session w"
  then show ?thesis
    using local_session_update [OF w, where f = "frs_set_inode k n"]
    by (simp add: local_session_ops(2) local_session_view frame_simps frs_lookup_ext
        session_canon_def local_session_def [of w])
qed

lemma session_remove:
  assumes "session_ok P w"
  shows "session_ok P (remove_inode P k w) \<and>
    session_view P (remove_inode P k w) = (session_view P w)(k := None) \<and>
    session_ids (remove_inode P k w) = session_ids w \<and> session_rest (remove_inode P k w) = session_rest w"
  using assms unfolding session_ok_def [of P w]
proof (elim disjE)
  assume w: "shm_session P w"
  note V = shm_session_view [OF w]
  show ?thesis
    using session_view_shm_update [OF w shmc.invar_remove [OF V(4)] sc_ids_frame(3)]
      shmc.lookup_remove [OF V(4)]
    by (simp add: shm_session_ops(3) [OF w] V(1))
next
  assume w: "daemon_session P w"
  note D = daemon_sessionD [OF w]
  let ?c = "se_codecs P" and ?i = "dl_next_id (ip_link w)"
  let ?s = "snd (frs_remove_inode k (local_state w))"
  have remove: "remove_inode P k w = w\<lparr>ip_global := Some ?s,
      ip_link := link_dispatch ?c (key_message ?c RemoveOwnership k ?i) ((ip_link w)\<lparr>dl_next_id := ?i\<rparr>)\<rparr>"
    using daemon_session_writes(2) [OF w] by (simp add: global_update_def local_state_def)
  have ids: "ids_of_message ?c (key_message ?c RemoveOwnership k ?i) = None"
    by (simp add: ids_of_message_def key_message_def)
  have "entry_fits ?c n'" if "spec_op id (Remove k) (dtable w) k' = Some n'" for k' n'
    using that D(10) [where k = k'] by (simp split: if_splits)
  moreover have "frs_get_inode ?s k' = None" if "spec_op id (Remove k) (dtable w) k' = None" for k'
    using that D(11) [where k = k'] by (simp add: store_simps split: if_splits)
  ultimately show ?thesis
    using daemon_session_after [OF w op_of_messages(3) [OF D(5)] ids remove]
    by (simp add: session_ok_def)
next
  assume w: "local_session w"
  then show ?thesis
    using local_session_update [OF w, where f = "\<lambda>s. snd (frs_remove_inode k s)"]
    by (simp add: local_session_ops(3) local_session_view frame_simps frs_lookup_ext)
qed

lemma session_chown:
  assumes "session_ok P w" and "session_can_chown P w k u g"
  shows "session_ok P (record_chown_key P k u g w) \<and>
    session_view P (record_chown_key P k u g w) = (session_view P w)(k \<mapsto> merge_ids u g
      (case session_view P w k of
         Some i \<Rightarrow> i | None \<Rightarrow> fake_inode_new (fst (session_ids w)) (snd (session_ids w)))) \<and>
    session_ids (record_chown_key P k u g w) = session_ids w \<and>
    session_rest (record_chown_key P k u g w) = session_rest w"
  using assms(1) unfolding session_ok_def [of P w]
proof (elim disjE)
  assume w: "shm_session P w"
  note V = shm_session_view [OF w]
  have "sc_room (ip_shm w) k" using assms(2) V(3) by (simp add: session_can_chown_def)
  then show ?thesis
    using session_view_shm_update [OF w shmc.invar_chown [OF V(4)] sc_ids_frame(2)]
      shmc.lookup_chown [OF V(4)]
    by (simp add: shm_session_ops(6) [OF w] V(1,2) cong: option.case_cong)
next
  assume w: "daemon_session P w"
  note D = daemon_sessionD [OF w]
  note V = daemon_session_view [OF w]
  let ?c = "se_codecs P"
  let ?m = "\<lambda>i. chown_message ?c k u g (frs_current_uid (dstate w)) (frs_current_gid (dstate w)) i"
  have fits: "entry_fits ?c (merge_ids u g (case dtable w k of
      Some n \<Rightarrow> n | None \<Rightarrow> fake_inode_new (frs_current_uid (dstate w)) (frs_current_gid (dstate w))))"
    using assms(2) D(3,8) by (simp add: session_can_chown_def V cong: option.case_cong)
  obtain i where "record_chown_key P k u g w =
      w\<lparr>ip_link := link_dispatch ?c (?m i) ((ip_link w)\<lparr>dl_next_id := i\<rparr>)\<rparr>"
    using daemon_session_chown [OF w] by blast
  then have chown: "record_chown_key P k u g w = w\<lparr>ip_global := Some (local_state w),
      ip_link := link_dispatch ?c (?m i) ((ip_link w)\<lparr>dl_next_id := i\<rparr>)\<rparr>"
    using ready_global [OF D(1)] by (cases w) simp
  have ids: "ids_of_message ?c (?m i) = None" by (simp add: ids_of_message_def chown_message_def)
  let ?x = "Chown k u g (frs_current_uid (dstate w)) (frs_current_gid (dstate w))"
  have "entry_fits ?c n'" if "spec_op id ?x (dtable w) k' = Some n'" for k' n'
    using that fits D(10) [where k = k'] by (simp split: if_splits)
  moreover have "frs_get_inode (local_state w) k' = None" if "spec_op id ?x (dtable w) k' = None" for k'
    using that D(11) [where k = k'] by (simp split: if_splits)
  ultimately show ?thesis
    using daemon_session_after [OF w op_of_messages(2) [OF D(5)] ids chown]
    by (simp add: session_ok_def V cong: option.case_cong)
next
  assume w: "local_session w"
  then show ?thesis
    using local_session_update [OF w, where f = "frs_upsert_chown k u g (frs_current_uid (local_state w))
        (frs_current_gid (local_state w))"]
    by (simp add: local_session_ops(6) local_session_view frame_simps frs_lookup_ext
        cong: option.case_cong)
qed

interpretation sess: fake_backend "session_ok P" "session_view P" session_ids session_rest
    "session_canon P" "session_can_set P" "session_can_chown P" "get_inode P" "set_inode P"
    "remove_inode P" "record_chown_key P" "current_fake_uid P" "current_fake_gid P" for P
  by unfold_locales (simp_all add: session_reads session_set session_remove session_chown)

lemma sc_full_noop:
  assumes "shm_attached c s" and "\<not> sc_room s k"
  shows "sc_upsert_inode c k i s = s" and "sc_upsert_chown c k u g du dg s = s"
  using assms
  by (auto simp: shm_attached_def sc_room_def sc_upsert_inode_def sc_upsert_chown_def sc_the_map_def
      shm_mode_active_def shm_full_noop [where k = k])

lemma table_fullD:
  assumes "session_ok P w" and "table_full w k"
  shows "shm_session P w" "shm_attached (se_xattrs P) (ip_shm w)" "\<not> sc_room (ip_shm w) k"
  using assms by (auto simp: session_ok_def daemon_session_def local_session_def table_full_def shm_session_def)

lemma full_session:
  assumes "session_ok P w" and "table_full w k"
  shows "snd (get_inode P k' w) = w" "snd (current_fake_uid P w) = w" "snd (current_fake_gid P w) = w"
    "set_inode P k i w = w" "record_chown_key P k u g w = w" "session_view P w k = None"
proof -
  note F = table_fullD [OF assms]
  show "snd (get_inode P k' w) = w" "snd (current_fake_uid P w) = w" "snd (current_fake_gid P w) = w"
    "set_inode P k i w = w" "record_chown_key P k u g w = w"
    using sc_full_noop [OF F(2,3)] by (simp_all add: shm_session_ops [OF F(1)])
  show "session_view P w k = None"
    using shmc.room_present [OF F(2), of k] F(3)
    by (cases "session_view P w k") (auto simp: shm_session_view(1) [OF F(1)])
qed

interpretation sessf: full_backend "session_ok P" "session_view P" session_ids session_rest
    "session_canon P" "session_can_set P" "session_can_chown P" "get_inode P" "set_inode P"
    "remove_inode P" "record_chown_key P" "current_fake_uid P" "current_fake_gid P" table_full for P
  by unfold_locales (simp_all add: full_session)

lemma update_inode_eq: "update_inode P k f w = sess.update P k f w"
  by (simp add: update_inode_def sess.update_def)

end
