(* ===== verification/Ownership.thy ===== *)
theory Ownership
  imports Interpose
begin

text \<open>
  What the hooks do with files (\<open>pseudoroot/interpose/src/ownership.rs\<close>): recording chown and
  chmod, dropping entries when a file goes away, fake special files, and rewriting the result
  of the stat family.
\<close>

definition ALLPERMS :: u32 where
  "ALLPERMS = 0xFFF"

datatype stat_source = Path cstr bool | Fd i32 | At i32 cstr i32

definition source_stat :: "'k kernel \<Rightarrow> stat_source \<Rightarrow> 'k \<Rightarrow> i32 + stat" where
  "source_stat K source k =
     (case source of
        Path path nofollow \<Rightarrow> if nofollow then lstat_path K path k else stat_path K path k
      | Fd fd \<Rightarrow> fstat_fd K fd k
      | At dirfd path at_flags \<Rightarrow>
          stat_at K dirfd path (resolve_stat_flags dirfd path at_flags) k)"

text \<open>\<open>!x\<close> on \<open>u32\<close> flips every bit.\<close>

definition compose_mode :: "u32 \<Rightarrow> u32 \<Rightarrow> u32" where
  "compose_mode real_mode requested_perms =
     (real_mode AND NOT ALLPERMS) OR (requested_perms AND ALLPERMS)"

definition zero_on_err :: "i32 \<Rightarrow> i32" where
  "zero_on_err result = (if sint result < 0 then 0 else result)"

section \<open>Recording chown and chmod\<close>

definition record_chmod_for_key ::
    "('w, 'k) params \<Rightarrow> inode_key \<Rightarrow> u32 \<Rightarrow> u32 \<Rightarrow> ('w, 'k) interpose \<Rightarrow> ('w, 'k) interpose" where
  "record_chmod_for_key P key real_mode req_mode w =
     (let mode = compose_mode real_mode req_mode
      in update_inode P key (\<lambda>inode. inode\<lparr>i_mode := Some mode\<rparr>) w)"

definition record_chown ::
    "('w, 'k) params \<Rightarrow> stat_source \<Rightarrow> u32 \<Rightarrow> u32 \<Rightarrow> ('w, 'k) interpose \<Rightarrow> i32 \<times> ('w, 'k) interpose" where
  "record_chown P source uid gid w =
     (let w = ensure_library_init P w in
      case source_stat (se_kernel P) source (ip_kernel w) of
        Inr st \<Rightarrow> (0, record_chown_key P (key_from_stat st) uid gid w)
      | Inl errno \<Rightarrow> (errno, w))"

definition record_chown_at ::
    "('w, 'k) params \<Rightarrow> i32 \<Rightarrow> cstr \<Rightarrow> i32 \<Rightarrow> u32 \<Rightarrow> u32 \<Rightarrow> ('w, 'k) interpose \<Rightarrow> i32 \<times> ('w, 'k) interpose"
where
  "record_chown_at P dirfd path at_flags uid gid = record_chown P (At dirfd path at_flags) uid gid"

definition record_chown_path ::
    "('w, 'k) params \<Rightarrow> cstr \<Rightarrow> bool \<Rightarrow> u32 \<Rightarrow> u32 \<Rightarrow> ('w, 'k) interpose \<Rightarrow> i32 \<times> ('w, 'k) interpose" where
  "record_chown_path P path nofollow uid gid = record_chown P (Path path nofollow) uid gid"

definition record_chown_fd ::
    "('w, 'k) params \<Rightarrow> i32 \<Rightarrow> u32 \<Rightarrow> u32 \<Rightarrow> ('w, 'k) interpose \<Rightarrow> i32 \<times> ('w, 'k) interpose" where
  "record_chown_fd P fd uid gid = record_chown P (Fd fd) uid gid"

text \<open>The real call a recorded chmod makes, which path it takes depending on the source.\<close>

definition real_chmod_for :: "'k kernel \<Rightarrow> stat_source \<Rightarrow> u32 \<Rightarrow> 'k \<Rightarrow> i32 \<times> 'k" where
  "real_chmod_for K source mode k =
     (case source of
        Path path nofollow \<Rightarrow> real_chmod K path mode k
      | Fd fd \<Rightarrow> real_fchmod K fd mode k
      | At dirfd path at_flags \<Rightarrow> real_fchmodat K dirfd path mode at_flags k)"

definition record_chmod ::
    "('w, 'k) params \<Rightarrow> stat_source \<Rightarrow> u32 \<Rightarrow> ('w, 'k) interpose \<Rightarrow> i32 \<times> ('w, 'k) interpose" where
  "record_chmod P source mode w =
     (let w = ensure_library_init P w in
      case source_stat (se_kernel P) source (ip_kernel w) of
        Inr st \<Rightarrow>
          (let w = record_chmod_for_key P (key_from_stat st) (st_mode st) mode w in
           case real_chmod_for (se_kernel P) source mode (ip_kernel w) of
             (real, k) \<Rightarrow> (zero_on_err real, w\<lparr>ip_kernel := k\<rparr>))
      | Inl errno \<Rightarrow> (errno, w))"

definition record_chmod_path ::
    "('w, 'k) params \<Rightarrow> cstr \<Rightarrow> u32 \<Rightarrow> ('w, 'k) interpose \<Rightarrow> i32 \<times> ('w, 'k) interpose" where
  "record_chmod_path P path mode = record_chmod P (Path path False) mode"

definition record_chmod_fd ::
    "('w, 'k) params \<Rightarrow> i32 \<Rightarrow> u32 \<Rightarrow> ('w, 'k) interpose \<Rightarrow> i32 \<times> ('w, 'k) interpose" where
  "record_chmod_fd P fd mode = record_chmod P (Fd fd) mode"

definition record_chmod_at ::
    "('w, 'k) params \<Rightarrow> i32 \<Rightarrow> cstr \<Rightarrow> u32 \<Rightarrow> i32 \<Rightarrow> ('w, 'k) interpose \<Rightarrow> i32 \<times> ('w, 'k) interpose" where
  "record_chmod_at P dirfd path mode at_flags = record_chmod P (At dirfd path at_flags) mode"

section \<open>Files that go away\<close>

definition maybe_remove_inode ::
    "('w, 'k) params \<Rightarrow> inode_key \<Rightarrow> u64 \<Rightarrow> ('w, 'k) interpose \<Rightarrow> ('w, 'k) interpose" where
  "maybe_remove_inode P key nlink w = (if nlink \<le> 1 then remove_inode P key w else w)"

definition prepare_rename_overwrite ::
    "('w, 'k) params \<Rightarrow> i32 \<Rightarrow> cstr \<Rightarrow> i32 \<Rightarrow> cstr \<Rightarrow> ('w, 'k) interpose \<Rightarrow> ('w, 'k) interpose" where
  "prepare_rename_overwrite P olddirfd oldpath newdirfd newpath w =
     (let w = ensure_library_init P w in
      case stat_at (se_kernel P) newdirfd newpath 0 (ip_kernel w) of
        Inl e \<Rightarrow> w
      | Inr new_st \<Rightarrow>
          (let new_key = key_from_stat new_st in
           case stat_at (se_kernel P) olddirfd oldpath 0 (ip_kernel w) of
             Inr old_st \<Rightarrow>
               if new_key \<noteq> key_from_stat old_st then maybe_remove_inode P new_key (st_nlink new_st) w
               else w
           | Inl e \<Rightarrow> maybe_remove_inode P new_key (st_nlink new_st) w))"

definition maybe_remove_inode_at ::
    "('w, 'k) params \<Rightarrow> i32 \<Rightarrow> cstr \<Rightarrow> i32 \<Rightarrow> ('w, 'k) interpose \<Rightarrow> ('w, 'k) interpose" where
  "maybe_remove_inode_at P dirfd path at_flags w =
     (let w = ensure_library_init P w;
          stat_flags = resolve_stat_flags dirfd path at_flags in
      case stat_at (se_kernel P) dirfd path stat_flags (ip_kernel w) of
        Inr st \<Rightarrow> maybe_remove_inode P (key_from_stat st) (st_nlink st) w
      | Inl e \<Rightarrow> w)"

definition maybe_remove_inode_path ::
    "('w, 'k) params \<Rightarrow> cstr \<Rightarrow> ('w, 'k) interpose \<Rightarrow> ('w, 'k) interpose" where
  "maybe_remove_inode_path P path w =
     (let w = ensure_library_init P w in
      case stat_path (se_kernel P) path (ip_kernel w) of
        Inr st \<Rightarrow> maybe_remove_inode P (key_from_stat st) (st_nlink st) w
      | Inl e \<Rightarrow> w)"

section \<open>Special files\<close>

text \<open>A regular placeholder is created with mode \<open>0o644\<close>, the number \<open>0x1A4\<close>.\<close>

definition finish_fake_mknod ::
    "('w, 'k) params \<Rightarrow> bytes \<Rightarrow> u32 \<Rightarrow> u64 \<Rightarrow> ('w, 'k) interpose \<Rightarrow> i32 \<times> ('w, 'k) interpose" where
  "finish_fake_mknod P resolved mode dev w =
     (case k_open_create (se_kernel P) resolved 0x1A4 (ip_kernel w) of (opened, k) \<Rightarrow>
      let w = w\<lparr>ip_kernel := k\<rparr> in
      if \<not> opened then (- 1, w)
      else
        (case stat_path_buf (se_kernel P) resolved (ip_kernel w) of
           Inr st \<Rightarrow>
             (case current_fake_uid P w of (uid, w) \<Rightarrow>
              case current_fake_gid P w of (gid, w) \<Rightarrow>
                (let inode = (fake_inode_new uid gid)\<lparr>i_mode := Some mode\<rparr>;
                     kind = mode AND S_IFMT;
                     inode = (if kind = S_IFCHR \<or> kind = S_IFBLK
                              then inode\<lparr>i_rdev := Some dev\<rparr> else inode)
                 in (0, set_inode P (key_from_stat st) inode w)))
         | Inl errno \<Rightarrow> (errno, w)))"

definition fake_mknod_path ::
    "('w, 'k) params \<Rightarrow> cstr \<Rightarrow> u32 \<Rightarrow> u64 \<Rightarrow> ('w, 'k) interpose \<Rightarrow> i32 \<times> ('w, 'k) interpose" where
  "fake_mknod_path P pathname mode dev w =
     (let w = ensure_library_init P w;
          real = (\<lambda>w. case real_mknod (se_kernel P) (ip_init_done w) pathname mode dev (ip_kernel w) of
                        (rc, k) \<Rightarrow> (rc, w\<lparr>ip_kernel := k\<rparr>)) in
      case resolve_path_at AT_FDCWD pathname of
        None \<Rightarrow> real w
      | Some resolved \<Rightarrow>
          (case finish_fake_mknod P resolved mode dev w of
             (result, w) \<Rightarrow> if sint result < 0 then real w else (result, w)))"

definition fake_mknodat ::
    "('w, 'k) params \<Rightarrow> i32 \<Rightarrow> cstr \<Rightarrow> u32 \<Rightarrow> u64 \<Rightarrow> ('w, 'k) interpose \<Rightarrow> i32 \<times> ('w, 'k) interpose" where
  "fake_mknodat P dirfd pathname mode dev w =
     (let w = ensure_library_init P w;
          real = (\<lambda>w. case real_mknodat (se_kernel P) (ip_init_done w) dirfd pathname mode dev (ip_kernel w) of
                        (rc, k) \<Rightarrow> (rc, w\<lparr>ip_kernel := k\<rparr>)) in
      case resolve_path_at dirfd pathname of
        None \<Rightarrow> real w
      | Some resolved \<Rightarrow>
          (case finish_fake_mknod P resolved mode dev w of
             (result, w) \<Rightarrow> if sint result < 0 then real w else (result, w)))"

section \<open>Rewriting the stat family\<close>

definition patch_inode_fields :: "fake_inode \<Rightarrow> stat \<Rightarrow> stat" where
  "patch_inode_fields inode st =
     (let st = st\<lparr>st_uid := i_uid inode, st_gid := i_gid inode\<rparr>;
          st = (case i_mode inode of Some mode \<Rightarrow> st\<lparr>st_mode := mode\<rparr> | None \<Rightarrow> st)
      in case i_rdev inode of Some rdev \<Rightarrow> st\<lparr>st_rdev := rdev\<rparr> | None \<Rightarrow> st)"

definition apply_default_ownership ::
    "stat \<Rightarrow> ('w, 'k) interpose \<Rightarrow> stat \<times> ('w, 'k) interpose" where
  "apply_default_ownership st w =
     (case global_state w of
        (s, w) \<Rightarrow> (st\<lparr>st_uid := frs_current_uid s, st_gid := frs_current_gid s\<rparr>, w))"

definition modify_stat_buf ::
    "('w, 'k) params \<Rightarrow> stat \<Rightarrow> ('w, 'k) interpose \<Rightarrow> stat \<times> ('w, 'k) interpose" where
  "modify_stat_buf P st w =
     (if ip_initializing w then (st, w)
      else
        (let w = ensure_library_init P w in
         if \<not> ip_init_done w
         then (st\<lparr>st_uid := ip_boot_uid w, st_gid := ip_boot_gid w\<rparr>, w)
         else
           (case get_inode P (key_from_stat st) w of
              (Some inode, w) \<Rightarrow> (patch_inode_fields inode st, w)
            | (None, w) \<Rightarrow> apply_default_ownership st w)))"

definition modify_statx_buf ::
    "('w, 'k) params \<Rightarrow> statx \<Rightarrow> ('w, 'k) interpose \<Rightarrow> statx \<times> ('w, 'k) interpose" where
  "modify_statx_buf P stx w =
     (if ip_initializing w then (stx, w)
      else
        (let w = ensure_library_init P w in
         if \<not> ip_init_done w
         then (stx\<lparr>stx_uid := ip_boot_uid w, stx_gid := ip_boot_gid w,
                   stx_mask := stx_mask stx OR (STATX_UID OR STATX_GID)\<rparr>, w)
         else
           (let dev = k_makedev (se_kernel P) (stx_dev_major stx) (stx_dev_minor stx) in
            case get_inode P (dev, stx_ino stx) w of
              (Some inode, w) \<Rightarrow>
                (let stx = stx\<lparr>stx_uid := i_uid inode, stx_gid := i_gid inode,
                       stx_mask := stx_mask stx OR (STATX_UID OR STATX_GID)\<rparr>;
                     stx = (case i_mode inode of
                              Some mode \<Rightarrow> stx\<lparr>stx_mode := ucast mode,
                                stx_mask := stx_mask stx OR (STATX_MODE OR STATX_TYPE)\<rparr>
                            | None \<Rightarrow> stx);
                     stx = (case i_rdev inode of
                              Some rdev \<Rightarrow> stx\<lparr>stx_rdev_major := k_major (se_kernel P) rdev,
                                stx_rdev_minor := k_minor (se_kernel P) rdev\<rparr>
                            | None \<Rightarrow> stx)
                 in (stx, w))
            | (None, w) \<Rightarrow>
                (case global_state w of
                   (s, w) \<Rightarrow>
                     (stx\<lparr>stx_uid := frs_current_uid s, stx_gid := frs_current_gid s,
                          stx_mask := stx_mask stx OR (STATX_UID OR STATX_GID)\<rparr>, w)))))"

end
