(* ===== verification/Xattr_Ops.thy ===== *)
theory Xattr_Ops
  imports Ownership
begin

text \<open>
  Extended attributes (last part of \<open>pseudoroot/interpose/src/ownership.rs\<close>).  A caller's buffer is
  \<open>None\<close> for the null pointer, else its contents; a function that writes to it returns its new
  contents with the result.  \<open>None\<close> as a whole result is the panic of \<open>unreachable!\<close>.
\<close>

definition MAX_XATTR :: nat where
  "MAX_XATTR = 64 * 1024"

definition read_cstr :: "cstr \<Rightarrow> bytes option" where
  "read_cstr ptr = (case ptr of None \<Rightarrow> None | Some b \<Rightarrow> if utf8_valid b then Some b else None)"

definition read_xattr_value :: "bytes option \<Rightarrow> nat \<Rightarrow> bytes" where
  "read_xattr_value v sz =
     (let sz = min sz MAX_XATTR in
      if sz = 0 then [] else (case v of None \<Rightarrow> [] | Some b \<Rightarrow> take sz b))"

definition write_xattr_value :: "bytes \<Rightarrow> bytes option \<Rightarrow> nat \<Rightarrow> i32 \<times> bytes option" where
  "write_xattr_value v buf sz =
     (if sz = 0 then (word_of_nat (length v), buf)
      else if length v > sz then (- ERANGE, buf)
      else (word_of_nat (length v), map_option (copy_at 0 v) buf))"

text \<open>\<open>split(|&c| c == 0)\<close>: the pieces between NUL bytes, one more than there are of them.\<close>

fun split_nul :: "bytes \<Rightarrow> bytes list" where
  "split_nul [] = [[]]"
| "split_nul (b # bs) =
     (if b = 0 then [] # split_nul bs
      else (case split_nul bs of p # ps \<Rightarrow> (b # p) # ps | [] \<Rightarrow> [[b]]))"

definition merge_xattr_lists :: "bytes \<Rightarrow> bytes list \<Rightarrow> bytes" where
  "merge_xattr_lists real_list extra =
     (let names = filter (\<lambda>n. n \<noteq> []) (split_nul real_list);
          names = fold (\<lambda>name names. if name \<in> set names then names else names @ [name]) extra names
      in concat (map (\<lambda>n. n @ [0]) names))"

definition write_xattr_list :: "bytes \<Rightarrow> bytes option \<Rightarrow> nat \<Rightarrow> i32 \<times> bytes option" where
  "write_xattr_list blob lst sz =
     (if sz = 0 then (word_of_nat (length blob), lst)
      else if length blob > sz then (- ERANGE, lst)
      else (word_of_nat (length blob), map_option (copy_at 0 blob) lst))"

definition record_xattr_for_key ::
    "('w, 'k) params \<Rightarrow> inode_key \<Rightarrow> bytes \<Rightarrow> bytes \<Rightarrow> ('w, 'k) interpose \<Rightarrow> ('w, 'k) interpose" where
  "record_xattr_for_key P key name v =
     update_inode P key (\<lambda>inode. inode\<lparr>i_xattrs := fmupd name v (i_xattrs inode)\<rparr>)"

definition remove_xattr_for_key ::
    "('w, 'k) params \<Rightarrow> inode_key \<Rightarrow> bytes \<Rightarrow> ('w, 'k) interpose \<Rightarrow> ('w, 'k) interpose" where
  "remove_xattr_for_key P key name =
     update_inode P key (\<lambda>inode. inode\<lparr>i_xattrs := fmdrop name (i_xattrs inode)\<rparr>)"

section \<open>Set and remove\<close>

definition fake_setxattr ::
    "('w, 'k) params \<Rightarrow> stat_source \<Rightarrow> cstr \<Rightarrow> bytes option \<Rightarrow> nat \<Rightarrow> ('w, 'k) interpose \<Rightarrow>
       i32 \<times> ('w, 'k) interpose" where
  "fake_setxattr P source name v sz w =
     (let w = ensure_library_init P w in
      case read_cstr name of
        None \<Rightarrow> (- EINVAL, w)
      | Some name \<Rightarrow>
          (case source_stat (se_kernel P) source (ip_kernel w) of
             Inr st \<Rightarrow> (0, record_xattr_for_key P (key_from_stat st) name (read_xattr_value v sz) w)
           | Inl errno \<Rightarrow> (errno, w)))"

definition fake_setxattr_path ::
    "('w, 'k) params \<Rightarrow> cstr \<Rightarrow> cstr \<Rightarrow> bytes option \<Rightarrow> nat \<Rightarrow> bool \<Rightarrow> ('w, 'k) interpose \<Rightarrow>
       i32 \<times> ('w, 'k) interpose" where
  "fake_setxattr_path P path name v sz nofollow = fake_setxattr P (Path path nofollow) name v sz"

definition fake_setxattr_fd ::
    "('w, 'k) params \<Rightarrow> i32 \<Rightarrow> cstr \<Rightarrow> bytes option \<Rightarrow> nat \<Rightarrow> ('w, 'k) interpose \<Rightarrow>
       i32 \<times> ('w, 'k) interpose" where
  "fake_setxattr_fd P fd name v sz = fake_setxattr P (Fd fd) name v sz"

definition fake_removexattr ::
    "('w, 'k) params \<Rightarrow> stat_source \<Rightarrow> cstr \<Rightarrow> ('w, 'k) interpose \<Rightarrow> i32 \<times> ('w, 'k) interpose" where
  "fake_removexattr P source name w =
     (let w = ensure_library_init P w in
      case read_cstr name of
        None \<Rightarrow> (- EINVAL, w)
      | Some name \<Rightarrow>
          (case source_stat (se_kernel P) source (ip_kernel w) of
             Inr st \<Rightarrow> (0, remove_xattr_for_key P (key_from_stat st) name w)
           | Inl errno \<Rightarrow> (errno, w)))"

definition fake_removexattr_path ::
    "('w, 'k) params \<Rightarrow> cstr \<Rightarrow> cstr \<Rightarrow> bool \<Rightarrow> ('w, 'k) interpose \<Rightarrow> i32 \<times> ('w, 'k) interpose" where
  "fake_removexattr_path P path name nofollow = fake_removexattr P (Path path nofollow) name"

definition fake_removexattr_fd ::
    "('w, 'k) params \<Rightarrow> i32 \<Rightarrow> cstr \<Rightarrow> ('w, 'k) interpose \<Rightarrow> i32 \<times> ('w, 'k) interpose" where
  "fake_removexattr_fd P fd name = fake_removexattr P (Fd fd) name"

section \<open>Get and list\<close>

definition real_getxattr_for ::
    "'k kernel \<Rightarrow> bool \<Rightarrow> stat_source \<Rightarrow> cstr \<Rightarrow> bytes option \<Rightarrow> nat \<Rightarrow> 'k \<Rightarrow> (i32 \<times> bytes option) option"
where
  "real_getxattr_for K init source name v sz k =
     (case source of
        Path path nofollow \<Rightarrow>
          Some (if nofollow then real_lgetxattr K init path name v sz k
                else real_getxattr K init path name v sz k)
      | Fd fd \<Rightarrow> Some (real_fgetxattr K init fd name v sz k)
      | At dirfd path at_flags \<Rightarrow> None)"

definition fake_getxattr ::
    "('w, 'k) params \<Rightarrow> stat_source \<Rightarrow> cstr \<Rightarrow> bytes option \<Rightarrow> nat \<Rightarrow> ('w, 'k) interpose \<Rightarrow>
       ((i32 \<times> bytes option) \<times> ('w, 'k) interpose) option" where
  "fake_getxattr P source name v sz w =
     (let w = ensure_library_init P w;
          real = (\<lambda>w. map_option (\<lambda>r. (r, w))
             (real_getxattr_for (se_kernel P) (ip_init_done w) source name v sz (ip_kernel w))) in
      case read_cstr name of
        None \<Rightarrow> Some ((- EINVAL, v), w)
      | Some name_key \<Rightarrow>
          (case source_stat (se_kernel P) source (ip_kernel w) of
             Inl e \<Rightarrow> real w
           | Inr st \<Rightarrow>
               (case get_inode P (key_from_stat st) w of
                  (None, w) \<Rightarrow> real w
                | (Some inode, w) \<Rightarrow>
                    (case fmlookup (i_xattrs inode) name_key of
                       Some stored \<Rightarrow> Some (write_xattr_value stored v sz, w)
                     | None \<Rightarrow> real w))))"

definition fake_getxattr_path ::
    "('w, 'k) params \<Rightarrow> cstr \<Rightarrow> cstr \<Rightarrow> bytes option \<Rightarrow> nat \<Rightarrow> bool \<Rightarrow> ('w, 'k) interpose \<Rightarrow>
       ((i32 \<times> bytes option) \<times> ('w, 'k) interpose) option" where
  "fake_getxattr_path P path name v sz nofollow = fake_getxattr P (Path path nofollow) name v sz"

definition fake_getxattr_fd ::
    "('w, 'k) params \<Rightarrow> i32 \<Rightarrow> cstr \<Rightarrow> bytes option \<Rightarrow> nat \<Rightarrow> ('w, 'k) interpose \<Rightarrow>
       ((i32 \<times> bytes option) \<times> ('w, 'k) interpose) option" where
  "fake_getxattr_fd P fd name v sz = fake_getxattr P (Fd fd) name v sz"

definition real_listxattr_for ::
    "'k kernel \<Rightarrow> bool \<Rightarrow> stat_source \<Rightarrow> bytes option \<Rightarrow> nat \<Rightarrow> 'k \<Rightarrow> (i32 \<times> bytes option) option" where
  "real_listxattr_for K init source lst sz k =
     (case source of
        Path path nofollow \<Rightarrow>
          Some (if nofollow then real_llistxattr K init path lst sz k
                else real_listxattr K init path lst sz k)
      | Fd fd \<Rightarrow> Some (real_flistxattr K init fd lst sz k)
      | At dirfd path at_flags \<Rightarrow> None)"

text \<open>
  \<open>se_keys\<close> is the order in which the map lists its keys.  The bytes the real call left in the
  caller's buffer are the buffer's first \<open>real_ret\<close> ones.
\<close>

definition fake_listxattr ::
    "('w, 'k) params \<Rightarrow> stat_source \<Rightarrow> bytes option \<Rightarrow> nat \<Rightarrow> ('w, 'k) interpose \<Rightarrow>
       ((i32 \<times> bytes option) \<times> ('w, 'k) interpose) option" where
  "fake_listxattr P source lst sz w =
     (let w = ensure_library_init P w;
          (extra, w) =
            (case source_stat (se_kernel P) source (ip_kernel w) of
               Inr st \<Rightarrow>
                 (case get_inode P (key_from_stat st) w of
                    (Some inode, w) \<Rightarrow> (se_keys P (i_xattrs inode), w)
                  | (None, w) \<Rightarrow> ([], w))
             | Inl e \<Rightarrow> ([], w)) in
      case real_listxattr_for (se_kernel P) (ip_init_done w) source lst sz (ip_kernel w) of
        None \<Rightarrow> None
      | Some (real_ret, lst) \<Rightarrow>
          if extra = [] then Some ((real_ret, lst), w)
          else
            (let real_list =
               (case lst of
                  Some b \<Rightarrow> if sint real_ret > 0 then take (nat (sint real_ret)) b else []
                | None \<Rightarrow> [])
             in Some (write_xattr_list (merge_xattr_lists real_list extra) lst sz, w)))"

definition fake_listxattr_path ::
    "('w, 'k) params \<Rightarrow> cstr \<Rightarrow> bytes option \<Rightarrow> nat \<Rightarrow> bool \<Rightarrow> ('w, 'k) interpose \<Rightarrow>
       ((i32 \<times> bytes option) \<times> ('w, 'k) interpose) option" where
  "fake_listxattr_path P path lst sz nofollow = fake_listxattr P (Path path nofollow) lst sz"

definition fake_listxattr_fd ::
    "('w, 'k) params \<Rightarrow> i32 \<Rightarrow> bytes option \<Rightarrow> nat \<Rightarrow> ('w, 'k) interpose \<Rightarrow>
       ((i32 \<times> bytes option) \<times> ('w, 'k) interpose) option" where
  "fake_listxattr_fd P fd lst sz = fake_listxattr P (Fd fd) lst sz"

end
