(* ===== verification/Hooks.thy ===== *)
theory Hooks
  imports Xattr_Ops
begin

text \<open>
  The exported functions (\<open>pseudoroot/interpose/src/lib.rs\<close> and the attribute hooks of
  \<open>pseudoroot/interpose/src/platform/linux.rs\<close>), under their C names with the prefix \<open>h_\<close>.  A
  pointer to an id or a buffer that may be null is \<open>None\<close> when it is; functions that write
  through a pointer return what it points to afterwards.
\<close>

section \<open>Loading\<close>

text \<open>The constructor, with the values of \<open>PSEUDOROOT_UID\<close> and \<open>PSEUDOROOT_GID\<close>.\<close>

definition parse_id :: "bytes option \<Rightarrow> u32" where
  "parse_id v = (case Option.bind (env_string v) parse_u32 of Some x \<Rightarrow> x | None \<Rightarrow> 0)"

definition h_init :: "bytes option \<Rightarrow> bytes option \<Rightarrow> ('w, 'k) interpose \<Rightarrow> ('w, 'k) interpose" where
  "h_init uid_var gid_var w = store_bootstrap_ids (parse_id uid_var) (parse_id gid_var) w"

section \<open>Credentials\<close>

definition h_getuid :: "('w, 'k) params \<Rightarrow> ('w, 'k) interpose \<Rightarrow> u32 \<times> ('w, 'k) interpose" where
  "h_getuid P w = current_fake_uid P w"

definition h_geteuid :: "('w, 'k) params \<Rightarrow> ('w, 'k) interpose \<Rightarrow> u32 \<times> ('w, 'k) interpose" where
  "h_geteuid P w = current_fake_uid P w"

definition h_getgid :: "('w, 'k) params \<Rightarrow> ('w, 'k) interpose \<Rightarrow> u32 \<times> ('w, 'k) interpose" where
  "h_getgid P w = current_fake_gid P w"

definition h_getegid :: "('w, 'k) params \<Rightarrow> ('w, 'k) interpose \<Rightarrow> u32 \<times> ('w, 'k) interpose" where
  "h_getegid P w = current_fake_gid P w"

text \<open>Each of the three pointers is written when it is not null.\<close>

definition h_getresuid :: "('w, 'k) params \<Rightarrow> u32 option \<Rightarrow> u32 option \<Rightarrow> u32 option \<Rightarrow> ('w, 'k) interpose
      \<Rightarrow> (i32 \<times> u32 option \<times> u32 option \<times> u32 option) \<times> ('w, 'k) interpose" where
  "h_getresuid P r e s w = 
     (case h_getuid P w of (current, w) \<Rightarrow>
        ((0, map_option (\<lambda>_. current) r, map_option (\<lambda>_. current) e, map_option (\<lambda>_. current) s), w))"

definition h_getresgid :: "('w, 'k) params \<Rightarrow> u32 option \<Rightarrow> u32 option \<Rightarrow> u32 option \<Rightarrow> ('w, 'k) interpose
      \<Rightarrow> (i32 \<times> u32 option \<times> u32 option \<times> u32 option) \<times> ('w, 'k) interpose" where
  "h_getresgid P r e s w = 
     (case h_getgid P w of (current, w) \<Rightarrow>
        ((0, map_option (\<lambda>_. current) r, map_option (\<lambda>_. current) e, map_option (\<lambda>_. current) s), w))"

definition h_setuid :: "('w, 'k) params \<Rightarrow> u32 \<Rightarrow> ('w, 'k) interpose \<Rightarrow> i32 \<times> ('w, 'k) interpose" where
  "h_setuid P uid w = (case h_getgid P w of (gid, w) \<Rightarrow> set_current_ids P uid gid w)"

definition h_setreuid :: "('w, 'k) params \<Rightarrow> u32 \<Rightarrow> u32 \<Rightarrow> ('w, 'k) interpose \<Rightarrow> i32 \<times> ('w, 'k) interpose" where
  "h_setreuid P ruid euid w = (case h_getgid P w of (gid, w) \<Rightarrow> set_current_ids P euid gid w)"

definition h_setresuid :: "('w, 'k) params \<Rightarrow> u32 \<Rightarrow> u32 \<Rightarrow> u32 \<Rightarrow> ('w, 'k) interpose \<Rightarrow> i32 \<times> ('w, 'k) interpose" where
  "h_setresuid P ruid euid suid w = (case h_getgid P w of (gid, w) \<Rightarrow> set_current_ids P euid gid w)"

definition h_setgid :: "('w, 'k) params \<Rightarrow> u32 \<Rightarrow> ('w, 'k) interpose \<Rightarrow> i32 \<times> ('w, 'k) interpose" where
  "h_setgid P gid w = (case h_getuid P w of (uid, w) \<Rightarrow> set_current_ids P uid gid w)"

definition h_setregid :: "('w, 'k) params \<Rightarrow> u32 \<Rightarrow> u32 \<Rightarrow> ('w, 'k) interpose \<Rightarrow> i32 \<times> ('w, 'k) interpose" where
  "h_setregid P rgid egid w = (case h_getuid P w of (uid, w) \<Rightarrow> set_current_ids P uid egid w)"

definition h_setresgid :: "('w, 'k) params \<Rightarrow> u32 \<Rightarrow> u32 \<Rightarrow> u32 \<Rightarrow> ('w, 'k) interpose \<Rightarrow> i32 \<times> ('w, 'k) interpose" where
  "h_setresgid P rgid egid sgid w = (case h_getuid P w of (uid, w) \<Rightarrow> set_current_ids P uid egid w)"

definition h_setfsuid :: "('w, 'k) params \<Rightarrow> u32 \<Rightarrow> ('w, 'k) interpose \<Rightarrow> i32 \<times> ('w, 'k) interpose" where
  "h_setfsuid P uid w = set_fsuid P uid w"

definition h_setfsgid :: "('w, 'k) params \<Rightarrow> u32 \<Rightarrow> ('w, 'k) interpose \<Rightarrow> i32 \<times> ('w, 'k) interpose" where
  "h_setfsgid P gid w = set_fsgid P gid w"

definition h_setgroups :: "nat \<Rightarrow> u32 list option \<Rightarrow> i32" where
  "h_setgroups sz lst = 0"

definition h_capset :: "bytes option \<Rightarrow> bytes option \<Rightarrow> i32" where
  "h_capset hdrp data = 0"

section \<open>Ownership and mode\<close>

definition h_chown :: "('w, 'k) params \<Rightarrow> cstr \<Rightarrow> u32 \<Rightarrow> u32 \<Rightarrow> ('w, 'k) interpose \<Rightarrow> i32 \<times> ('w, 'k) interpose" where
  "h_chown P path uid gid w = record_chown_path P path False uid gid w"

definition h_lchown :: "('w, 'k) params \<Rightarrow> cstr \<Rightarrow> u32 \<Rightarrow> u32 \<Rightarrow> ('w, 'k) interpose \<Rightarrow> i32 \<times> ('w, 'k) interpose" where
  "h_lchown P path uid gid w = record_chown_path P path True uid gid w"

definition h_fchown :: "('w, 'k) params \<Rightarrow> i32 \<Rightarrow> u32 \<Rightarrow> u32 \<Rightarrow> ('w, 'k) interpose \<Rightarrow> i32 \<times> ('w, 'k) interpose" where
  "h_fchown P fd uid gid w = record_chown_fd P fd uid gid w"

definition h_fchownat :: "('w, 'k) params \<Rightarrow> i32 \<Rightarrow> cstr \<Rightarrow> u32 \<Rightarrow> u32 \<Rightarrow> i32 \<Rightarrow> ('w, 'k) interpose \<Rightarrow> i32 \<times> ('w, 'k) interpose" where
  "h_fchownat P dirfd path uid gid flags w = record_chown_at P dirfd path flags uid gid w"

definition h_chmod :: "('w, 'k) params \<Rightarrow> cstr \<Rightarrow> u32 \<Rightarrow> ('w, 'k) interpose \<Rightarrow> i32 \<times> ('w, 'k) interpose" where
  "h_chmod P path mode w = record_chmod_path P path mode w"

definition h_fchmod :: "('w, 'k) params \<Rightarrow> i32 \<Rightarrow> u32 \<Rightarrow> ('w, 'k) interpose \<Rightarrow> i32 \<times> ('w, 'k) interpose" where
  "h_fchmod P fd mode w = record_chmod_fd P fd mode w"

definition h_fchmodat :: "('w, 'k) params \<Rightarrow> i32 \<Rightarrow> cstr \<Rightarrow> u32 \<Rightarrow> i32 \<Rightarrow> ('w, 'k) interpose \<Rightarrow> i32 \<times> ('w, 'k) interpose" where
  "h_fchmodat P dirfd path mode flags w = record_chmod_at P dirfd path mode flags w"

section \<open>The stat family\<close>

text \<open>The common tail: rewrite the buffer when the real call succeeded and there is one.\<close>

definition after_stat ::
    "('w, 'k) params \<Rightarrow> i32 \<times> stat \<Rightarrow> bool \<Rightarrow> ('w, 'k) interpose \<Rightarrow> (i32 \<times> stat) \<times> ('w, 'k) interpose"
where
  "after_stat P r buf w =
     (case r of (result, st) \<Rightarrow>
        if result = 0 \<and> buf
        then (case modify_stat_buf P st w of (st, w) \<Rightarrow> ((result, st), w))
        else ((result, st), w))"

definition h_stat :: "('w, 'k) params \<Rightarrow> cstr \<Rightarrow> bool \<Rightarrow> ('w, 'k) interpose \<Rightarrow> (i32 \<times> stat) \<times> ('w, 'k) interpose" where
  "h_stat P path buf w = after_stat P (real_stat (se_kernel P) path buf (ip_kernel w)) buf w"

definition h_fstat :: "('w, 'k) params \<Rightarrow> i32 \<Rightarrow> bool \<Rightarrow> ('w, 'k) interpose \<Rightarrow> (i32 \<times> stat) \<times> ('w, 'k) interpose" where
  "h_fstat P fd buf w = after_stat P (real_fstat (se_kernel P) fd buf (ip_kernel w)) buf w"

definition h_lstat :: "('w, 'k) params \<Rightarrow> cstr \<Rightarrow> bool \<Rightarrow> ('w, 'k) interpose \<Rightarrow> (i32 \<times> stat) \<times> ('w, 'k) interpose" where
  "h_lstat P path buf w = after_stat P (real_lstat (se_kernel P) path buf (ip_kernel w)) buf w"

definition h_fstatat :: "('w, 'k) params \<Rightarrow> i32 \<Rightarrow> cstr \<Rightarrow> bool \<Rightarrow> i32 \<Rightarrow> ('w, 'k) interpose
      \<Rightarrow> (i32 \<times> stat) \<times> ('w, 'k) interpose" where
  "h_fstatat P dirfd pathname buf flags w = 
     after_stat P (real_fstatat (se_kernel P) dirfd pathname buf flags (ip_kernel w)) buf w"

definition h_stat64 :: "('w, 'k) params \<Rightarrow> cstr \<Rightarrow> bool \<Rightarrow> ('w, 'k) interpose \<Rightarrow> (i32 \<times> stat) \<times> ('w, 'k) interpose" where
  "h_stat64 P path buf w = h_stat P path buf w"

definition h_fstat64 :: "('w, 'k) params \<Rightarrow> i32 \<Rightarrow> bool \<Rightarrow> ('w, 'k) interpose \<Rightarrow> (i32 \<times> stat) \<times> ('w, 'k) interpose" where
  "h_fstat64 P fd buf w = h_fstat P fd buf w"

definition h_lstat64 :: "('w, 'k) params \<Rightarrow> cstr \<Rightarrow> bool \<Rightarrow> ('w, 'k) interpose \<Rightarrow> (i32 \<times> stat) \<times> ('w, 'k) interpose" where
  "h_lstat64 P path buf w = h_lstat P path buf w"

definition h_fstatat64 :: "('w, 'k) params \<Rightarrow> i32 \<Rightarrow> cstr \<Rightarrow> bool \<Rightarrow> i32 \<Rightarrow> ('w, 'k) interpose
      \<Rightarrow> (i32 \<times> stat) \<times> ('w, 'k) interpose" where
  "h_fstatat64 P dirfd pathname buf flags w = h_fstatat P dirfd pathname buf flags w"

definition h_statx :: "('w, 'k) params \<Rightarrow> i32 \<Rightarrow> cstr \<Rightarrow> i32 \<Rightarrow> u32 \<Rightarrow> bool \<Rightarrow> ('w, 'k) interpose
      \<Rightarrow> (i32 \<times> statx) \<times> ('w, 'k) interpose" where
  "h_statx P dirfd pathname flags request buf w = 
     (case real_statx (se_kernel P) dirfd pathname flags request buf (ip_kernel w) of
        (result, stx) \<Rightarrow>
          if result = 0 \<and> buf
          then (case modify_statx_buf P stx w of (stx, w) \<Rightarrow> ((result, stx), w))
          else ((result, stx), w))"

section \<open>Removing, renaming, creating\<close>

definition h_unlink :: "('w, 'k) params \<Rightarrow> cstr \<Rightarrow> ('w, 'k) interpose \<Rightarrow> i32 \<times> ('w, 'k) interpose" where
  "h_unlink P path w = 
     (let w = maybe_remove_inode_path P path w in
      (case real_unlink (se_kernel P) (ip_init_done w) path (ip_kernel w) of (rc, k) \<Rightarrow> (rc, w\<lparr>ip_kernel := k\<rparr>)))"

definition h_unlinkat :: "('w, 'k) params \<Rightarrow> i32 \<Rightarrow> cstr \<Rightarrow> i32 \<Rightarrow> ('w, 'k) interpose \<Rightarrow> i32 \<times> ('w, 'k) interpose" where
  "h_unlinkat P dirfd path flags w = 
     (let w = maybe_remove_inode_at P dirfd path flags w in
      (case real_unlinkat (se_kernel P) (ip_init_done w) dirfd path flags (ip_kernel w) of (rc, k) \<Rightarrow> (rc, w\<lparr>ip_kernel := k\<rparr>)))"

definition h_rmdir :: "('w, 'k) params \<Rightarrow> cstr \<Rightarrow> ('w, 'k) interpose \<Rightarrow> i32 \<times> ('w, 'k) interpose" where
  "h_rmdir P path w = 
     (let w = maybe_remove_inode_path P path w in
      (case real_rmdir (se_kernel P) (ip_init_done w) path (ip_kernel w) of (rc, k) \<Rightarrow> (rc, w\<lparr>ip_kernel := k\<rparr>)))"

definition h_rename :: "('w, 'k) params \<Rightarrow> cstr \<Rightarrow> cstr \<Rightarrow> ('w, 'k) interpose \<Rightarrow> i32 \<times> ('w, 'k) interpose" where
  "h_rename P oldpath newpath w = 
     (let w = prepare_rename_overwrite P AT_FDCWD oldpath AT_FDCWD newpath w in
      (case real_rename (se_kernel P) (ip_init_done w) oldpath newpath (ip_kernel w) of (rc, k) \<Rightarrow> (rc, w\<lparr>ip_kernel := k\<rparr>)))"

definition h_renameat :: "('w, 'k) params \<Rightarrow> i32 \<Rightarrow> cstr \<Rightarrow> i32 \<Rightarrow> cstr \<Rightarrow> ('w, 'k) interpose
      \<Rightarrow> i32 \<times> ('w, 'k) interpose" where
  "h_renameat P olddirfd oldpath newdirfd newpath w = 
     (let w = prepare_rename_overwrite P olddirfd oldpath newdirfd newpath w in
      (case real_renameat (se_kernel P) (ip_init_done w) olddirfd oldpath newdirfd newpath
             (ip_kernel w) of (rc, k) \<Rightarrow> (rc, w\<lparr>ip_kernel := k\<rparr>)))"

definition h_renameat2 :: "('w, 'k) params \<Rightarrow> i32 \<Rightarrow> cstr \<Rightarrow> i32 \<Rightarrow> cstr \<Rightarrow> u32 \<Rightarrow> ('w, 'k) interpose
      \<Rightarrow> i32 \<times> ('w, 'k) interpose" where
  "h_renameat2 P olddirfd oldpath newdirfd newpath flags w = 
     (let w = prepare_rename_overwrite P olddirfd oldpath newdirfd newpath w in
      (case real_renameat2 (se_kernel P) (ip_init_done w) olddirfd oldpath newdirfd newpath flags
             (ip_kernel w) of (rc, k) \<Rightarrow> (rc, w\<lparr>ip_kernel := k\<rparr>)))"

definition h_mknod :: "('w, 'k) params \<Rightarrow> cstr \<Rightarrow> u32 \<Rightarrow> u64 \<Rightarrow> ('w, 'k) interpose \<Rightarrow> i32 \<times> ('w, 'k) interpose" where
  "h_mknod P pathname mode dev w = fake_mknod_path P pathname mode dev w"

definition h_mknodat :: "('w, 'k) params \<Rightarrow> i32 \<Rightarrow> cstr \<Rightarrow> u32 \<Rightarrow> u64 \<Rightarrow> ('w, 'k) interpose \<Rightarrow> i32 \<times> ('w, 'k) interpose" where
  "h_mknodat P dirfd pathname mode dev w = fake_mknodat P dirfd pathname mode dev w"

section \<open>Extended attributes\<close>

definition h_setxattr :: "('w, 'k) params \<Rightarrow> cstr \<Rightarrow> cstr \<Rightarrow> bytes option \<Rightarrow> nat \<Rightarrow> i32 \<Rightarrow> ('w, 'k) interpose
      \<Rightarrow> i32 \<times> ('w, 'k) interpose" where
  "h_setxattr P path name v sz flags w = fake_setxattr_path P path name v sz False w"

definition h_lsetxattr :: "('w, 'k) params \<Rightarrow> cstr \<Rightarrow> cstr \<Rightarrow> bytes option \<Rightarrow> nat \<Rightarrow> i32 \<Rightarrow> ('w, 'k) interpose
      \<Rightarrow> i32 \<times> ('w, 'k) interpose" where
  "h_lsetxattr P path name v sz flags w = fake_setxattr_path P path name v sz True w"

definition h_fsetxattr :: "('w, 'k) params \<Rightarrow> i32 \<Rightarrow> cstr \<Rightarrow> bytes option \<Rightarrow> nat \<Rightarrow> i32 \<Rightarrow> ('w, 'k) interpose
      \<Rightarrow> i32 \<times> ('w, 'k) interpose" where
  "h_fsetxattr P fd name v sz flags w = fake_setxattr_fd P fd name v sz w"

definition h_getxattr :: "('w, 'k) params \<Rightarrow> cstr \<Rightarrow> cstr \<Rightarrow> bytes option \<Rightarrow> nat \<Rightarrow> ('w, 'k) interpose
      \<Rightarrow> ((i32 \<times> bytes option) \<times> ('w, 'k) interpose) option" where
  "h_getxattr P path name v sz w = fake_getxattr_path P path name v sz False w"

definition h_lgetxattr :: "('w, 'k) params \<Rightarrow> cstr \<Rightarrow> cstr \<Rightarrow> bytes option \<Rightarrow> nat \<Rightarrow> ('w, 'k) interpose
      \<Rightarrow> ((i32 \<times> bytes option) \<times> ('w, 'k) interpose) option" where
  "h_lgetxattr P path name v sz w = fake_getxattr_path P path name v sz True w"

definition h_fgetxattr :: "('w, 'k) params \<Rightarrow> i32 \<Rightarrow> cstr \<Rightarrow> bytes option \<Rightarrow> nat \<Rightarrow> ('w, 'k) interpose
      \<Rightarrow> ((i32 \<times> bytes option) \<times> ('w, 'k) interpose) option" where
  "h_fgetxattr P fd name v sz w = fake_getxattr_fd P fd name v sz w"

definition h_listxattr :: "('w, 'k) params \<Rightarrow> cstr \<Rightarrow> bytes option \<Rightarrow> nat \<Rightarrow> ('w, 'k) interpose
      \<Rightarrow> ((i32 \<times> bytes option) \<times> ('w, 'k) interpose) option" where
  "h_listxattr P path lst sz w = fake_listxattr_path P path lst sz False w"

definition h_llistxattr :: "('w, 'k) params \<Rightarrow> cstr \<Rightarrow> bytes option \<Rightarrow> nat \<Rightarrow> ('w, 'k) interpose
      \<Rightarrow> ((i32 \<times> bytes option) \<times> ('w, 'k) interpose) option" where
  "h_llistxattr P path lst sz w = fake_listxattr_path P path lst sz True w"

definition h_flistxattr :: "('w, 'k) params \<Rightarrow> i32 \<Rightarrow> bytes option \<Rightarrow> nat \<Rightarrow> ('w, 'k) interpose
      \<Rightarrow> ((i32 \<times> bytes option) \<times> ('w, 'k) interpose) option" where
  "h_flistxattr P fd lst sz w = fake_listxattr_fd P fd lst sz w"

definition h_removexattr :: "('w, 'k) params \<Rightarrow> cstr \<Rightarrow> cstr \<Rightarrow> ('w, 'k) interpose \<Rightarrow> i32 \<times> ('w, 'k) interpose" where
  "h_removexattr P path name w = fake_removexattr_path P path name False w"

definition h_lremovexattr :: "('w, 'k) params \<Rightarrow> cstr \<Rightarrow> cstr \<Rightarrow> ('w, 'k) interpose \<Rightarrow> i32 \<times> ('w, 'k) interpose" where
  "h_lremovexattr P path name w = fake_removexattr_path P path name True w"

definition h_fremovexattr :: "('w, 'k) params \<Rightarrow> i32 \<Rightarrow> cstr \<Rightarrow> ('w, 'k) interpose \<Rightarrow> i32 \<times> ('w, 'k) interpose" where
  "h_fremovexattr P fd name w = fake_removexattr_fd P fd name w"

end
