(* ===== verification/Ownership_Laws.thy ===== *)
theory Ownership_Laws
  imports Backend_Laws Hooks
begin

text \<open>
  What the hooks do in a session, in terms of its table and ids, proved once from the laws of
  \<open>fake_backend\<close> for all modes; and how a process gets into a session.
\<close>

section \<open>Recording and rewriting\<close>

lemma session_ready: "session_ok P w \<Longrightarrow> ready w"
  by (auto simp: session_ok_def shm_session_def local_session_def daemon_session_def)

lemma session_kernel: "session_rest w' = session_rest w \<Longrightarrow> ip_kernel w' = ip_kernel w"
  by (simp add: session_rest_def)

text \<open>The entry a key has, or the one an update would start from.\<close>

definition entry_or_new :: "(rpc_world, 'k) params \<Rightarrow> (rpc_world, 'k) interpose \<Rightarrow> inode_key \<Rightarrow> fake_inode"
where
  "entry_or_new P w k = (case session_view P w k of
     Some i \<Rightarrow> i | None \<Rightarrow> fake_inode_new (fst (session_ids w)) (snd (session_ids w)))"

text \<open>What the stat family reports for a file: its entry, or the ids of the local state.\<close>

definition reported :: "(rpc_world, 'k) params \<Rightarrow> (rpc_world, 'k) interpose \<Rightarrow> stat \<Rightarrow> stat" where
  "reported P w st = (case session_view P w (key_from_stat st) of
     Some i \<Rightarrow> patch_inode_fields i st
   | None \<Rightarrow> st\<lparr>st_uid := frs_current_uid (local_state w), st_gid := frs_current_gid (local_state w)\<rparr>)"

lemma get_inode_local:
  "session_ok P w \<Longrightarrow> local_state (snd (get_inode P k w)) = local_state w"
  by (auto simp: session_ok_def shm_session_ops local_session_ops daemon_session_reads local_state_def)

lemma session_get:
  assumes "session_ok P w"
  obtains w1 where "get_inode P k w = (session_view P w k, w1)" "session_ok P w1"
    "session_view P w1 = session_view P w" "session_ids w1 = session_ids w"
    "session_rest w1 = session_rest w" "local_state w1 = local_state w" "ready w1"
  using that [of "snd (get_inode P k w)"] sess.get_eq [OF assms] session_reads(2-5) [OF assms]
    get_inode_local [OF assms] session_ready
  by blast

lemma session_modify_stat:
  assumes "session_ok P w"
  shows "fst (modify_stat_buf P st w) = reported P w st"
    and "session_ok P (snd (modify_stat_buf P st w))"
    and "session_view P (snd (modify_stat_buf P st w)) = session_view P w"
    and "session_rest (snd (modify_stat_buf P st w)) = session_rest w"
proof -
  have w: "ready w" by (rule session_ready [OF assms])
  obtain w1 where w1: "get_inode P (key_from_stat st) w = (session_view P w (key_from_stat st), w1)"
    "session_ok P w1" "session_view P w1 = session_view P w" "session_rest w1 = session_rest w"
    "local_state w1 = local_state w" "ready w1"
    by (rule session_get [OF assms])
  have "modify_stat_buf P st w = (reported P w st, w1)"
    using w w1(1,5) ready_global_state [OF w1(6)]
    by (cases "session_view P w (key_from_stat st)")
       (simp_all add: modify_stat_buf_def ready_def reported_def apply_default_ownership_def)
  then show "fst (modify_stat_buf P st w) = reported P w st"
    and "session_ok P (snd (modify_stat_buf P st w))"
    and "session_view P (snd (modify_stat_buf P st w)) = session_view P w"
    and "session_rest (snd (modify_stat_buf P st w)) = session_rest w"
    using w1 by simp_all
qed

lemma session_record_chown:
  assumes "session_ok P w" and "source_stat (se_kernel P) src (ip_kernel w) = Inr st"
    and "session_can_chown P w (key_from_stat st) u g"
  obtains w' where "record_chown P src u g w = (0, w')" "session_ok P w'"
    "session_view P w' = (session_view P w)(key_from_stat st \<mapsto> merge_ids u g (entry_or_new P w (key_from_stat st)))"
    "session_ids w' = session_ids w" "session_rest w' = session_rest w"
  using that [of "record_chown_key P (key_from_stat st) u g w"] assms(2)
    session_chown [OF assms(1,3)] session_ready [OF assms(1)]
  by (simp add: record_chown_def entry_or_new_def)

lemma session_update:
  assumes "session_ok P w" and "session_can_set P w k (f (entry_or_new P w k))"
  shows "session_ok P (update_inode P k f w)"
    and "session_view P (update_inode P k f w) =
      (session_view P w)(k \<mapsto> session_canon P w (f (entry_or_new P w k)))"
    and "session_ids (update_inode P k f w) = session_ids w"
    and "session_rest (update_inode P k f w) = session_rest w"
  using sess.update_effect [OF assms(1), where f = f and k = k and i = "f (entry_or_new P w k)"] assms(2)
  by (simp_all add: update_inode_eq entry_or_new_def)

text \<open>Without room for a new entry nothing happens, and the caller is not told.\<close>

lemma session_update_full: "session_ok P w \<Longrightarrow> table_full w k \<Longrightarrow> update_inode P k f w = w"
  unfolding update_inode_eq by (rule sessf.update_full)

lemma session_record_chown_full:
  "session_ok P w \<Longrightarrow> source_stat (se_kernel P) src (ip_kernel w) = Inr st \<Longrightarrow>
     table_full w (key_from_stat st) \<Longrightarrow> record_chown P src u g w = (0, w)"
  using session_ready [of P w] by (simp add: record_chown_def full_session)

lemma can_not_full [dest]:
  "session_can_set P w k i \<Longrightarrow> \<not> table_full w k"
  "session_can_chown P w k u g \<Longrightarrow> \<not> table_full w k"
  by (simp_all add: session_can_set_def session_can_chown_def table_full_def)

lemma session_maybe_remove:
  assumes "session_ok P w"
  shows "session_ok P (maybe_remove_inode P k n w)"
    and "session_view P (maybe_remove_inode P k n w) =
      (if n \<le> 1 then (session_view P w)(k := None) else session_view P w)"
    and "session_ids (maybe_remove_inode P k n w) = session_ids w"
    and "session_rest (maybe_remove_inode P k n w) = session_rest w"
  using assms by (simp_all add: maybe_remove_inode_def session_remove)

text \<open>A session does not depend on the system behind it.\<close>

lemma session_set_kernel [simp]:
  "session_ok P (w\<lparr>ip_kernel := k\<rparr>) = session_ok P w"
  "session_view P (w\<lparr>ip_kernel := k\<rparr>) = session_view P w"
  "session_ids (w\<lparr>ip_kernel := k\<rparr>) = session_ids w"
  "session_can_set P (w\<lparr>ip_kernel := k\<rparr>) = session_can_set P w"
  "session_canon P (w\<lparr>ip_kernel := k\<rparr>) = session_canon P w"
  "table_full (w\<lparr>ip_kernel := k\<rparr>) = table_full w"
  "local_state (w\<lparr>ip_kernel := k\<rparr>) = local_state w"
  by (simp_all add: session_ok_def shm_session_def daemon_session_def local_session_def ready_def
      session_view_def session_ids_def session_can_set_def session_canon_def local_state_def table_full_def
      fun_eq_iff)

lemma patch_inode_sel [simp]:
  "st_uid (patch_inode_fields i st) = i_uid i"
  "st_gid (patch_inode_fields i st) = i_gid i"
  "st_mode (patch_inode_fields i st) = (case i_mode i of Some m \<Rightarrow> m | None \<Rightarrow> st_mode st)"
  "st_rdev (patch_inode_fields i st) = (case i_rdev i of Some r \<Rightarrow> r | None \<Rightarrow> st_rdev st)"
  "st_dev (patch_inode_fields i st) = st_dev st"
  "st_ino (patch_inode_fields i st) = st_ino st"
  "st_nlink (patch_inode_fields i st) = st_nlink st"
  by (simp_all add: patch_inode_fields_def Let_def split: option.split)

lemma compose_mode_type: "compose_mode r p AND NOT ALLPERMS = r AND NOT ALLPERMS"
  by (rule bit_word_eqI) (auto simp: compose_mode_def bit_simps)

lemma compose_mode_perms: "compose_mode r p AND ALLPERMS = p AND ALLPERMS"
  by (rule bit_word_eqI) (auto simp: compose_mode_def bit_simps)

lemma compose_mode_nonzero: "r AND NOT ALLPERMS \<noteq> 0 \<Longrightarrow> compose_mode r p \<noteq> 0"
  using compose_mode_type [of r p] by auto

section \<open>What a table can represent\<close>

lemma entry_canon:
  assumes "session_ok P w"
  shows "session_canon P w (entry_or_new P w k) = entry_or_new P w k"
proof (cases "sc_active (ip_shm w)")
  case True
  then have w: "shm_session P w"
    using assms by (auto simp: session_ok_def daemon_session_def local_session_def)
  note V = shm_session_view [OF w]
  have "shm_canon (se_xattrs P) (fake_inode_new u g) = fake_inode_new u g" for u g
    by (rule fake_inode_eqI) (simp_all add: shm_canon_def canon_xattrs_def)
  then show ?thesis
    using True shmc.lookup_canon [OF V(4)]
    by (auto simp: session_canon_def entry_or_new_def V(1) split: option.split)
qed (simp add: session_canon_def)

lemma canon_set_mode:
  "m \<noteq> 0 \<Longrightarrow> session_canon P w i = i \<Longrightarrow> session_canon P w (i\<lparr>i_mode := Some m\<rparr>) = i\<lparr>i_mode := Some m\<rparr>"
  by (cases i) (auto simp: session_canon_def shm_canon_def split: if_splits)

section \<open>Setting the ids\<close>

lemma daemon_set_ids:
  assumes "codecs_ok c" and "small_fit c" and "linked l"
    and "t = SetCurrentUidGid \<and> f = daemon_set_current_uid_gid \<or> t = Init \<and> f = daemon_init"
  shows "snd (f c (rpc_ops c) u g l) = link_dispatch c (ids_message c t u g (dl_next_id l)) l"
proof -
  have "rpc_fits c (ids_message c t u g (dl_next_id l)) l"
    using assms(1,2,4) by (auto simp: rpc_fits_def small_fit_def dispatch_replies pm_response_def
        simp del: split_paired_All)
  from link_request_ok [OF assms(1,3) this [unfolded ids_message_def]] assms(4) show ?thesis
    by (auto simp: daemon_set_current_uid_gid_def daemon_init_def ids_message_def)
qed

lemma ids_message_effect:
  assumes "codecs_ok c" and "t = SetCurrentUidGid \<or> t = Init"
  shows "link_table (link_dispatch c (ids_message c t u g i) l) = link_table l"
    and "frs_current_uid (d_state (rp_daemon (dl_net (link_dispatch c (ids_message c t u g i) l)))) = u"
    and "frs_current_gid (d_state (rp_daemon (dl_net (link_dispatch c (ids_message c t u g i) l)))) = g"
  using dispatch_ids [of c "ids_message c t u g i" "rp_daemon (dl_net l)"] assms
    ids_of_messages [OF assms(1)]
  by (auto simp: link_table_dispatch op_of_message_def ids_message_def)

lemma session_set_ids:
  assumes "session_ok P w"
  obtains w' where "set_current_ids P u g w = (0, w')" "session_ok P w'"
    "session_view P w' = session_view P w" "session_ids w' = (u, g)"
    "session_rest w' = session_rest w" "frs_current_uid (local_state w') = u"
    "frs_current_gid (local_state w') = g"
proof -
  let ?w0 = "global_update (frs_set_current u g) (w\<lparr>ip_boot_uid := u, ip_boot_gid := g\<rparr>)"
  have w: "ready w" by (rule session_ready [OF assms])
  have state: "local_state ?w0 = frs_set_current u g (local_state w)" "ready ?w0"
      "session_rest ?w0 = session_rest w" "ip_shm ?w0 = ip_shm w" "ip_link ?w0 = ip_link w"
    using w by (simp_all add: local_state_def global_update_def global_get_or_init_def ready_def
        session_rest_def)
  from assms consider "shm_session P w" | "daemon_session P w" | "local_session w"
    unfolding session_ok_def by blast
  then show thesis
  proof cases
    case 1
    note V = shm_session_view [OF 1]
    let ?w = "?w0\<lparr>ip_shm := shm_set_current_uid_gid u g (ip_shm w)\<rparr>"
    note S = set_current_attached [OF V(4), where u = u and g = g]
    have new: "shm_session P ?w" using S(1) state(2) by (simp add: shm_session_def ready_def)
    have "session_ids ?w = (u, g)"
      using shm_session_view(3) [OF new] S(3) by (simp add: session_ids_def)
    moreover have "session_view P ?w = session_view P w"
      using S(2) by (simp add: shm_session_view(1) [OF new] V(1))
    moreover have "set_current_ids P u g w = (0, ?w)"
      using w V(3) by (simp add: set_current_ids_def global_update_def shm_mode_active_def Let_def)
    ultimately show thesis
      using that [of ?w] new state by (simp add: session_ok_def session_rest_def local_state_def)
  next
    case 2
    note D = daemon_sessionD [OF 2]
    let ?c = "se_codecs P"
    let ?m = "ids_message ?c SetCurrentUidGid u g (dl_next_id (ip_link w))"
    let ?w = "?w0\<lparr>ip_link := link_dispatch ?c ?m (ip_link w)\<rparr>"
    note E = ids_message_effect [OF D(5), of SetCurrentUidGid u g "dl_next_id (ip_link w)" "ip_link w"]
    have linked: "linked (ip_link ?w)" using linked_dispatch [OF D(7)] by simp
    then have act: "daemon_mode_active (ip_link ?w)" by (simp add: linked_def)
    have local: "local_state ?w = frs_set_current u g (local_state w)"
      using state(1) by (simp add: local_state_def)
    have new: "daemon_session P ?w"
      using D(3-6) D(10,11) linked state(2) local E(1)
      by (auto simp: daemon_session_def ready_def global_update_def store_simps simp del: split_paired_All)
    have "session_ids ?w = (u, g)" using E by (simp add: daemon_session_view(2) [OF new])
    moreover have "session_view P ?w = session_view P w"
      using E(1) by (simp add: daemon_session_view(1) [OF new] daemon_session_view(1) [OF 2])
    moreover have "set_current_ids P u g w = (0, ?w)"
      using w D(2,4,9) daemon_set_ids [OF D(5,6,7), of SetCurrentUidGid daemon_set_current_uid_gid u g]
      by (simp add: set_current_ids_def global_update_def Let_def)
    ultimately show thesis
      using that [of ?w] new state local by (simp add: session_ok_def session_rest_def)
  next
    case 3
    have new: "local_session ?w0" using 3 state by (simp add: local_session_def)
    have "set_current_ids P u g w = (0, ?w0)"
      using w local_inactive [OF 3] by (simp add: set_current_ids_def global_update_def Let_def)
    then show thesis
      using that [of ?w0] new state 3
      by (simp add: session_ok_def local_session_view frs_lookup_ext)
  qed
qed

section \<open>Joining a session\<close>

text \<open>A process after the library's constructor ran and before the first intercepted call.\<close>

definition loaded :: "('w, 'k) interpose \<Rightarrow> bool" where
  "loaded w \<longleftrightarrow> ip_ctor_done w \<and> \<not> ip_init_done w \<and> \<not> ip_initializing w \<and> \<not> ip_init_once w \<and>
     \<not> ip_session_once w \<and> ip_global w = None \<and> \<not> sc_active (ip_shm w) \<and> sc_map (ip_shm w) = None"

definition booted :: "('w, 'k) interpose \<Rightarrow> ('w, 'k) interpose" where
  "booted w = w\<lparr>ip_init_done := True, ip_init_once := True, ip_session_once := True,
     ip_global := Some (frs_set_current (ip_boot_uid w) (ip_boot_gid w) fake_root_state_new)\<rparr>"

lemma loaded_init:
  assumes "loaded w"
  shows "ensure_library_init P w =
    (let s = snd (init_shm_from_env (se_shm_os P) (ip_shm w)); w = (booted w)\<lparr>ip_shm := s\<rparr>
     in if shm_mode_active s \<or> \<not> daemon_mode_enabled (ip_link w) then w
        else w\<lparr>ip_link := snd (daemon_init (se_codecs P) (se_ops P) (ip_boot_uid w) (ip_boot_gid w)
               (snd (init_daemon_connection (se_ops P) (ip_link w))))\<rparr>)"
  using assms
  by (cases w) (simp add: ensure_library_init_def loaded_def finish_library_init_def booted_def
      global_update_def global_get_or_init_def ensure_session_backing_init_def Let_def)

lemma booted_ready [simp]: "loaded w \<Longrightarrow> ready (booted w)"
  by (simp add: loaded_def booted_def ready_def)

lemma booted_sel [simp]:
  "ip_shm (booted w) = ip_shm w" "ip_link (booted w) = ip_link w" "ip_kernel (booted w) = ip_kernel w"
  "local_state (booted w) = frs_set_current (ip_boot_uid w) (ip_boot_gid w) fake_root_state_new"
  by (simp_all add: booted_def local_state_def global_get_or_init_def)

lemma join_shm:
  assumes "loaded w" and "init_shm_from_env (se_shm_os P) (ip_shm w) = (True, s)"
    and "shm_attached (se_xattrs P) s"
  shows "ensure_library_init P w = (booted w)\<lparr>ip_shm := s\<rparr>"
    and "shm_session P ((booted w)\<lparr>ip_shm := s\<rparr>)"
proof -
  have "sc_active s" using assms(3) by (simp add: shm_attached_def)
  then show "ensure_library_init P w = (booted w)\<lparr>ip_shm := s\<rparr>"
    by (simp add: loaded_init [OF assms(1)] assms(2) shm_mode_active_def Let_def)
  show "shm_session P ((booted w)\<lparr>ip_shm := s\<rparr>)"
    using booted_ready [OF assms(1)] assms(3) by (simp add: shm_session_def ready_def)
qed

lemma join_local:
  assumes "loaded w" and "sc_env_fd (ip_shm w) = None" and "\<not> daemon_mode_enabled (ip_link w)"
  shows "ensure_library_init P w = booted w" and "local_session (booted w)"
proof -
  have shm: "init_shm_from_env (se_shm_os P) (ip_shm w) = (False, ip_shm w)"
    using assms(1,2) by (simp add: init_shm_from_env_def loaded_def env_string_def)
  then show "ensure_library_init P w = booted w"
    using assms(3) by (simp add: loaded_init [OF assms(1)] Let_def)
  show "local_session (booted w)"
    using assms by (simp add: local_session_def loaded_def)
qed

end
