(* ===== verification/Hook_Properties.thy ===== *)
theory Hook_Properties
  imports Ownership_Laws Shm_Properties Codec_Example
begin

text \<open>
  The properties of the interposed library (\<open>pseudoroot/interpose/src\<close>): what one intercepted
  call promises about what a later one reports, in every mode of a session.
\<close>

section \<open>A concrete system for the witnesses\<close>

text \<open>
  Three files: \<open>/f\<close> is a regular file, \<open>/l\<close> a symbolic link to it, \<open>/g\<close> another regular file.
\<close>

definition example_stat :: "u64 \<Rightarrow> u32 \<Rightarrow> stat" where
  "example_stat ino mode = \<lparr>st_dev = 9, st_ino = ino, st_mode = mode, st_nlink = 1, st_uid = 1000,
     st_gid = 1000, st_rdev = 0\<rparr>"

definition example_statx :: statx where
  "example_statx = \<lparr>stx_mask = 0, stx_uid = 1000, stx_gid = 1000, stx_mode = 0x81A4, stx_ino = 42,
     stx_rdev_major = 0, stx_rdev_minor = 0, stx_dev_major = 0, stx_dev_minor = 9\<rparr>"

definition example_newfstatat :: "cstr \<Rightarrow> i32 \<Rightarrow> i32 \<times> stat" where
  "example_newfstatat path flags =
     (if path = Some (bytes_of ''/f'') then (0, example_stat 42 0x81A4)
      else if path = Some (bytes_of ''/g'') then (0, example_stat 44 0x81A4)
      else if path = Some (bytes_of ''/l'') then
        (0, if flags = AT_SYMLINK_NOFOLLOW then example_stat 43 0xA1FF else example_stat 42 0x81A4)
      else (- 1, example_stat 0 0))"

definition example_list :: "bytes option \<Rightarrow> nat \<Rightarrow> i32 \<times> bytes option" where
  "example_list lst n =
     (if n < 10 then (if n = 0 then 10 else - 1, lst)
      else (10, map_option (copy_at 0 (bytes_of ''user.real'' @ [0])) lst))"

definition example_kernel :: "unit kernel" where
  "example_kernel =
     \<lparr>k_newfstatat = (\<lambda>_ path _ flags _. example_newfstatat path flags),
      k_fstat = (\<lambda>_ _ _. (0, example_stat 42 0x81A4)), k_statx = (\<lambda>_ _ _ _ _ _. (0, example_statx)),
      k_fchmodat = (\<lambda>_ _ _ _ _. (- 1, ())), k_fchmod = (\<lambda>_ _ _. (- 1, ())),
      c_unlink = (\<lambda>_ _. (- 1, ())), c_unlinkat = (\<lambda>_ _ _ _. (0, ())), c_rmdir = (\<lambda>_ _. (0, ())),
      c_rename = (\<lambda>_ _ _. (0, ())), c_renameat = (\<lambda>_ _ _ _ _. (0, ())),
      c_renameat2 = (\<lambda>_ _ _ _ _ _. (0, ())),
      sys_mknodat = (\<lambda>_ _ _ _ _. (- 1, ())),
      sys_getxattr = (\<lambda>_ _ b _ _. (- 1, b)), sys_lgetxattr = (\<lambda>_ _ b _ _. (- 1, b)),
      sys_fgetxattr = (\<lambda>_ _ b _ _. (- 1, b)), sys_listxattr = (\<lambda>_ b n _. example_list b n),
      sys_llistxattr = (\<lambda>_ b n _. example_list b n), sys_flistxattr = (\<lambda>_ b n _. example_list b n),
      next_unlink = (\<lambda>_ _. (- 1, ())), next_unlinkat = (\<lambda>_ _ _ _. (0, ())), next_rmdir = (\<lambda>_ _. (0, ())),
      next_rename = (\<lambda>_ _ _. (0, ())), next_renameat = (\<lambda>_ _ _ _ _. (0, ())),
      next_renameat2 = (\<lambda>_ _ _ _ _ _. (0, ())),
      next_mknod = (\<lambda>_ _ _ _. (- 1, ())), next_mknodat = (\<lambda>_ _ _ _ _. (- 1, ())),
      next_getxattr = (\<lambda>_ _ b _ _. (- 1, b)), next_lgetxattr = (\<lambda>_ _ b _ _. (- 1, b)),
      next_fgetxattr = (\<lambda>_ _ b _ _. (- 1, b)), next_listxattr = (\<lambda>_ b n _. example_list b n),
      next_llistxattr = (\<lambda>_ b n _. example_list b n), next_flistxattr = (\<lambda>_ b n _. example_list b n),
      k_open_create = (\<lambda>_ _ _. (True, ())),
      k_makedev = (\<lambda>a b. ucast b), k_major = (\<lambda>_. 0), k_minor = ucast\<rparr>"

definition example_params :: "(rpc_world, unit) params" where
  "example_params =
     \<lparr>se_xattrs = xattrs_serde, se_codecs = example_codecs, se_ops = rpc_ops example_codecs,
      se_shm_os = (\<lambda>_. os_all_ok), se_kernel = example_kernel,
      se_keys = (\<lambda>x. map fst (sorted_list_of_fmap x))\<rparr>"

definition no_shm :: shm_client where
  "no_shm = \<lparr>sc_env_fd = None, sc_env_len = None, sc_map = None, sc_active = False, sc_mem = zero_mem 0\<rparr>"

definition no_link :: "rpc_world daemon_link" where
  "no_link = \<lparr>dl_env = None, dl_channel = None, dl_connected = False, dl_next_id = REQUEST_ID_init,
     dl_net = \<lparr>rp_daemon = \<lparr>d_state = fake_root_state_new, d_shutdown = False\<rparr>, rp_tx = [], rp_rx = [],
       rp_up = False\<rparr>\<rparr>"

text \<open>A process right after loading, and one on its own table.\<close>

definition example_loaded :: "(rpc_world, unit) interpose" where
  "example_loaded =
     \<lparr>ip_init_done = False, ip_initializing = False, ip_ctor_done = True, ip_init_once = False,
      ip_session_once = False, ip_boot_uid = 0, ip_boot_gid = 0, ip_fs_uid = 0xFFFFFFFF,
      ip_fs_gid = 0xFFFFFFFF, ip_global = None, ip_shm = no_shm, ip_link = no_link, ip_kernel = ()\<rparr>"

definition example_world :: "(rpc_world, unit) interpose" where
  "example_world = booted example_loaded"

lemma example_kernel_sel [simp]:
  "se_kernel example_params = example_kernel"
  "k_newfstatat example_kernel d path b flags k = example_newfstatat path flags"
  "k_fchmodat example_kernel d path m flags k = (- 1, ())"
  "k_open_create example_kernel path' m k = (True, ())"
  by (simp_all add: example_params_def example_kernel_def)

lemma bytes_of_paths [simp]:
  "bytes_of ''/f'' \<noteq> bytes_of ''/g''" "bytes_of ''/l'' \<noteq> bytes_of ''/g''"
  "bytes_of ''/l'' \<noteq> bytes_of ''/f''" "bytes_of ''/g'' \<noteq> bytes_of ''/f''"
  by (simp_all add: bytes_of_def)

lemma example_real_stat [simp]:
  "real_stat example_kernel (Some (bytes_of ''/f'')) b k = (0, example_stat 42 0x81A4)"
  "real_stat example_kernel (Some (bytes_of ''/g'')) b k = (0, example_stat 44 0x81A4)"
  "real_stat example_kernel (Some (bytes_of ''/l'')) b k = (0, example_stat 42 0x81A4)"
  "real_lstat example_kernel (Some (bytes_of ''/l'')) b k = (0, example_stat 43 0xA1FF)"
  by (simp_all add: real_stat_def real_lstat_def example_newfstatat_def AT_SYMLINK_NOFOLLOW_def)

lemma example_loaded_ok: "loaded example_loaded"
  by (simp add: loaded_def example_loaded_def no_shm_def)

lemma example_local: "local_session example_world"
  unfolding example_world_def
  by (rule join_local(2) [OF example_loaded_ok])
     (simp_all add: example_loaded_def no_shm_def no_link_def daemon_mode_enabled_def get_daemon_socket_path_def)

lemma example_session: "session_ok P example_world"
  using example_local by (simp add: session_ok_def)

lemma example_state: "local_state example_world = frs_set_current 0 0 fake_root_state_new"
  by (simp add: example_world_def) (simp add: example_loaded_def)

lemma example_view [simp]:
  "session_view P example_world = Map.empty" "session_ids example_world = (0, 0)"
  "session_can_set P example_world = (\<lambda>_ _. True)" "session_can_chown P example_world k u g"
  "session_canon P example_world = id" "entry_or_new P example_world k = fake_inode_new 0 0"
  "\<not> table_full example_world k" "\<not> sc_active (ip_shm example_world)"
proof -
  note L = local_session_view [OF example_local] local_inactive [OF example_local, unfolded shm_mode_active_def]
  show view: "session_view P example_world = Map.empty"
    by (rule ext) (simp add: L(1) example_state store_simps)
  show ids: "session_ids example_world = (0, 0)" by (simp add: L(2) example_state)
  show "session_can_set P example_world = (\<lambda>_ _. True)" "session_can_chown P example_world k u g"
    "session_canon P example_world = id" "entry_or_new P example_world k = fake_inode_new 0 0"
    "\<not> table_full example_world k" "\<not> sc_active (ip_shm example_world)"
    using L(3) by (simp_all add: session_can_set_def session_can_chown_def session_canon_def
        fun_eq_iff entry_or_new_def view ids table_full_def)
qed

lemma example_path:
  "bytes_of ''/f'' \<noteq> []" "utf8_valid (bytes_of ''/f'')" "0 \<notin> set (bytes_of ''/f'')"
proof -
  show "utf8_valid (bytes_of ''/f'')" by (rule utf8_valid_ascii) (simp add: bytes_of_def)
qed (simp_all add: bytes_of_def)

lemma real_stat_source:
  "real_stat K (Some path) True k = (0, st) \<Longrightarrow> source_stat K (Path (Some path) False) k = Inr st"
  by (simp add: source_stat_def stat_path_def stat_at_def real_stat_def real_fstatat_def)

lemma hook_stat:
  assumes "session_ok P w" and "real_stat (se_kernel P) path True (ip_kernel w) = (0, st)"
  shows "fst (h_stat P path True w) = (0, reported P w st)"
  using session_modify_stat(1) [OF assms(1), of st]
  by (simp add: h_stat_def after_stat_def assms(2) case_prod_beta)

text \<open>The calls below act on a session the way their bodies say once the library is ready.\<close>

lemma hook_chmod:
  assumes "session_ok P w" and "real_stat (se_kernel P) (Some path) True (ip_kernel w) = (0, st)"
    and "i = (entry_or_new P w (key_from_stat st))\<lparr>i_mode := Some (compose_mode (st_mode st) mode)\<rparr>"
    and "session_can_set P w (key_from_stat st) i"
    and "real_chmod (se_kernel P) (Some path) mode (ip_kernel w) = (real, k)"
  obtains w' where "h_chmod P (Some path) mode w = (zero_on_err real, w')" "session_ok P w'"
    "session_view P w' = (session_view P w)(key_from_stat st \<mapsto> session_canon P w i)" "ip_kernel w' = k"
proof -
  let ?w = "update_inode P (key_from_stat st) (\<lambda>n. n\<lparr>i_mode := Some (compose_mode (st_mode st) mode)\<rparr>) w"
  note U = session_update [OF assms(1), where k = "key_from_stat st" and
      f = "\<lambda>n. n\<lparr>i_mode := Some (compose_mode (st_mode st) mode)\<rparr>", folded assms(3), OF assms(4)]
  have "h_chmod P (Some path) mode w = (zero_on_err real, ?w\<lparr>ip_kernel := k\<rparr>)"
    using session_ready [OF assms(1)] real_stat_source [OF assms(2)] assms(5) session_kernel [OF U(4)]
    by (simp add: h_chmod_def record_chmod_path_def record_chmod_def record_chmod_for_key_def
        real_chmod_for_def Let_def)
  then show thesis using that [of "?w\<lparr>ip_kernel := k\<rparr>"] U(1,2) by simp
qed

lemma hook_chmod_full:
  assumes "session_ok P w" and "real_stat (se_kernel P) (Some path) True (ip_kernel w) = (0, st)"
    and "table_full w (key_from_stat st)"
    and "real_chmod (se_kernel P) (Some path) mode (ip_kernel w) = (real, k)"
  shows "h_chmod P (Some path) mode w = (zero_on_err real, w\<lparr>ip_kernel := k\<rparr>)"
  using session_ready [OF assms(1)] real_stat_source [OF assms(2)] assms(4)
    session_update_full [OF assms(1,3)]
  by (simp add: h_chmod_def record_chmod_path_def record_chmod_def record_chmod_for_key_def
      real_chmod_for_def Let_def)

lemma zero_on_err_nonneg: "0 \<le> sint (zero_on_err r)"
  by (simp add: zero_on_err_def)

lemma hook_unlink:
  assumes "session_ok P w" and "real_stat (se_kernel P) (Some path) True (ip_kernel w) = (0, st)"
  obtains w' where
    "h_unlink P (Some path) w = (fst (real_unlink (se_kernel P) True (Some path) (ip_kernel w)), w')"
    "session_ok P w'" "session_view P w' = (if st_nlink st \<le> 1
       then (session_view P w)(key_from_stat st := None) else session_view P w)"
    "ip_kernel w' = snd (real_unlink (se_kernel P) True (Some path) (ip_kernel w))"
proof -
  let ?w = "maybe_remove_inode P (key_from_stat st) (st_nlink st) w"
  note M = session_maybe_remove [OF assms(1), of "key_from_stat st" "st_nlink st"]
  have "stat_path (se_kernel P) (Some path) (ip_kernel w) = Inr st"
    using real_stat_source [OF assms(2)] by (simp add: source_stat_def)
  then have "maybe_remove_inode_path P (Some path) w = ?w"
    using session_ready [OF assms(1)] by (simp add: maybe_remove_inode_path_def)
  then have "h_unlink P (Some path) w = (fst (real_unlink (se_kernel P) True (Some path) (ip_kernel w)),
      ?w\<lparr>ip_kernel := snd (real_unlink (se_kernel P) True (Some path) (ip_kernel w))\<rparr>)"
    using session_kernel [OF M(4)] session_ready [OF M(1)] by (simp add: h_unlink_def case_prod_beta)
  then show thesis
    using that [of "?w\<lparr>ip_kernel := snd (real_unlink (se_kernel P) True (Some path) (ip_kernel w))\<rparr>"] M(1,2)
    by simp
qed

lemma hook_mknod:
  assumes "session_ok P w" and "path \<noteq> []" and "utf8_valid path" and "0 \<notin> set path"
    and "k_open_create (se_kernel P) path 0x1A4 (ip_kernel w) = (True, k)"
    and "real_stat (se_kernel P) (Some path) True k = (0, st)"
    and "mode AND S_IFMT = S_IFCHR \<or> mode AND S_IFMT = S_IFBLK"
    and "i = (fake_inode_new (fst (session_ids w)) (snd (session_ids w)))\<lparr>i_mode := Some mode, i_rdev := Some dev\<rparr>"
    and "session_can_set P w (key_from_stat st) i"
  obtains w' where "h_mknod P (Some path) mode dev w = (0, w')" "session_ok P w'"
    "session_view P w' = (session_view P w)(key_from_stat st \<mapsto> session_canon P w i)" "ip_kernel w' = k"
    "session_ids w' = session_ids w"
proof -
  let ?w = "w\<lparr>ip_kernel := k\<rparr>"
  have ok: "session_ok P ?w" using assms(1) by simp
  let ?w1 = "snd (current_fake_uid P ?w)"
  let ?w2 = "snd (current_fake_gid P ?w1)"
  note R1 = session_reads(8-14) [OF ok]
  note R2 = session_reads(15-21) [OF R1(2)]
  have stat: "stat_path_buf (se_kernel P) path k = Inr st"
    using real_stat_source [OF assms(6)] assms(4) by (simp add: stat_path_buf_def source_stat_def)
  have "finish_fake_mknod P path mode dev w = (0, set_inode P (key_from_stat st) i ?w2)"
    using assms(5,7) stat R1 R2
    by (simp add: finish_fake_mknod_def case_prod_beta Let_def assms(8))
  then have mknod: "h_mknod P (Some path) mode dev w = (0, set_inode P (key_from_stat st) i ?w2)"
    using assms(2,3) session_ready [OF assms(1)]
    by (simp add: h_mknod_def fake_mknod_path_def resolve_path_at_def Let_def)
  have can: "session_can_set P ?w2 (key_from_stat st) i" using R1 R2 assms(9) by simp
  have rest: "session_rest (set_inode P (key_from_stat st) i ?w2) = session_rest ?w"
    using session_set [OF R2(2) can] R1 R2 by simp
  show thesis
    using that [OF mknod] session_set [OF R2(2) can] R1 R2 session_kernel [OF rest] by simp
qed

lemma hook_mknod_full:
  assumes "session_ok P w" and "path \<noteq> []" and "utf8_valid path" and "0 \<notin> set path"
    and "k_open_create (se_kernel P) path 0x1A4 (ip_kernel w) = (True, k)"
    and "real_stat (se_kernel P) (Some path) True k = (0, st)"
    and "table_full w (key_from_stat st)"
  shows "h_mknod P (Some path) mode dev w = (0, w\<lparr>ip_kernel := k\<rparr>)"
proof -
  let ?w = "w\<lparr>ip_kernel := k\<rparr>"
  have ok: "session_ok P ?w" and full: "table_full ?w (key_from_stat st)" using assms(1,7) by simp_all
  note F = full_session [OF ok full]
  have stat: "stat_path_buf (se_kernel P) path k = Inr st"
    using real_stat_source [OF assms(6)] assms(4) by (simp add: stat_path_buf_def source_stat_def)
  have "finish_fake_mknod P path mode dev w = (0, ?w)"
    using assms(5) stat F by (simp add: finish_fake_mknod_def case_prod_beta Let_def)
  then show ?thesis
    using assms(2,3) session_ready [OF assms(1)]
    by (simp add: h_mknod_def fake_mknod_path_def resolve_path_at_def Let_def)
qed

lemma canon_device_zero:
  "m \<noteq> 0 \<Longrightarrow> session_canon P w ((fake_inode_new u g)\<lparr>i_mode := Some m, i_rdev := Some d\<rparr>) =
     (fake_inode_new u g)\<lparr>i_mode := Some m, i_rdev := (if d = 0 \<and> sc_active (ip_shm w) then None else Some d)\<rparr>"
  by (auto simp: session_canon_def shm_canon_def canon_xattrs_def intro: fake_inode_eqI)

lemma canon_device:
  "m \<noteq> 0 \<Longrightarrow> d \<noteq> 0 \<Longrightarrow> session_canon P w ((fake_inode_new u g)\<lparr>i_mode := Some m, i_rdev := Some d\<rparr>) =
     (fake_inode_new u g)\<lparr>i_mode := Some m, i_rdev := Some d\<rparr>"
  by (auto simp: session_canon_def shm_canon_def canon_xattrs_def intro: fake_inode_eqI)

section \<open>Properties\<close>

text \<open>
  C22: In every mode of a session, a chown of an existing file succeeds, every other inode keeps
  its entry, and the system is not asked to do anything.  A later stat reports the ids that
  were given (and, for an id that was to stay, the one the entry had or a new entry gets),
  unless the shared table has no entry for the file and no place for one: then the call also
  returns 0, but nothing at all has changed.  (In the daemon mode, the entry has to fit the
  protocol's frames.)
\<close>

theorem chown_then_stat:
  assumes "session_ok P w" and "real_stat (se_kernel P) (Some path) True (ip_kernel w) = (0, st)"
    and "session_can_chown P w (key_from_stat st) u g \<or> table_full w (key_from_stat st)"
  shows "\<exists>w' st'. h_chown P (Some path) u g w = (0, w') \<and> fst (h_stat P (Some path) True w') = (0, st') \<and>
    (if table_full w (key_from_stat st) then w' = w
     else
       st_uid st' = (if u = ID_UNCHANGED then i_uid (entry_or_new P w (key_from_stat st)) else u) \<and>
       st_gid st' = (if g = ID_UNCHANGED then i_gid (entry_or_new P w (key_from_stat st)) else g)) \<and>
    session_ok P w' \<and> ip_kernel w' = ip_kernel w \<and>
    (\<forall>k. k \<noteq> key_from_stat st \<longrightarrow> session_view P w' k = session_view P w k)"
proof (cases "table_full w (key_from_stat st)")
  case True
  have "h_chown P (Some path) u g w = (0, w)"
    using session_record_chown_full [OF assms(1) real_stat_source [OF assms(2)] True]
    by (simp add: h_chown_def record_chown_path_def)
  then show ?thesis using True assms(1) hook_stat [OF assms(1,2)] by simp
next
  case False
  then have can: "session_can_chown P w (key_from_stat st) u g" using assms(3) by simp
  obtain w' where w': "record_chown P (Path (Some path) False) u g w = (0, w')" "session_ok P w'"
    "session_view P w' = (session_view P w)(key_from_stat st \<mapsto> merge_ids u g (entry_or_new P w (key_from_stat st)))"
    "session_ids w' = session_ids w" "session_rest w' = session_rest w"
    by (rule session_record_chown [OF assms(1) real_stat_source [OF assms(2)] can])
  have "fst (h_stat P (Some path) True w') = (0, reported P w' st)"
    using hook_stat [OF w'(2)] assms(2) session_kernel [OF w'(5)] by simp
  then show ?thesis
    using w' session_kernel [OF w'(5)] False
    by (intro exI [of _ w'] exI [of _ "reported P w' st"])
       (simp add: h_chown_def record_chown_path_def reported_def)
qed

theorem chown_then_stat_witness:
  "\<exists>w' st'. h_chown example_params (Some (bytes_of ''/f'')) 33 ID_UNCHANGED example_world = (0, w') \<and>
     fst (h_stat example_params (Some (bytes_of ''/f'')) True w') = (0, st') \<and> st_uid st' = 33 \<and> st_gid st' = 0"
proof -
  have "real_stat (se_kernel example_params) (Some (bytes_of ''/f'')) True (ip_kernel example_world) =
      (0, example_stat 42 0x81A4)" by simp
  moreover have "(33 :: u32) \<noteq> ID_UNCHANGED" by (simp add: ID_UNCHANGED_def)
  ultimately show ?thesis
    using chown_then_stat [OF example_session, of example_params "bytes_of ''/f''" _ 33 ID_UNCHANGED] by auto
qed

text \<open>
  C24: A chmod of an existing file never fails, whatever the system says; a later stat of the
  file reports the permission bits that were asked for under the type bits the file really
  had, even when the real mode did not change, and the owner its entry has.  That is so unless
  the shared table has no entry for the file and no place for one: then nothing is recorded and
  the mode is the real one.  (In the daemon mode, the entry has to fit the protocol's frames.)
\<close>

theorem chmod_then_stat:
  assumes "session_ok P w" and "real_stat (se_kernel P) (Some path) True (ip_kernel w) = (0, st)"
    and "real_chmod (se_kernel P) (Some path) mode (ip_kernel w) = (real, k)"
    and "real_stat (se_kernel P) (Some path) True k = (0, st_after)" and "key_from_stat st_after = key_from_stat st"
    and "st_mode st AND NOT ALLPERMS \<noteq> 0"
    and "session_can_set P w (key_from_stat st)
        ((entry_or_new P w (key_from_stat st))\<lparr>i_mode := Some (compose_mode (st_mode st) mode)\<rparr>) \<or>
      table_full w (key_from_stat st)"
  shows "\<exists>rc w' st'. h_chmod P (Some path) mode w = (rc, w') \<and> 0 \<le> sint rc \<and>
    fst (h_stat P (Some path) True w') = (0, st') \<and>
    (if table_full w (key_from_stat st) then w' = w\<lparr>ip_kernel := k\<rparr> \<and> st_mode st' = st_mode st_after
     else
       st_mode st' AND ALLPERMS = mode AND ALLPERMS \<and>
       st_mode st' AND NOT ALLPERMS = st_mode st AND NOT ALLPERMS \<and>
       st_uid st' = i_uid (entry_or_new P w (key_from_stat st)) \<and>
       st_gid st' = i_gid (entry_or_new P w (key_from_stat st)))"
proof (cases "table_full w (key_from_stat st)")
  case True
  let ?w = "w\<lparr>ip_kernel := k\<rparr>"
  have "session_ok P ?w" using assms(1) by simp
  then have "fst (h_stat P (Some path) True ?w) = (0, reported P ?w st_after)"
    using assms(4) by (intro hook_stat) simp_all
  moreover have "st_mode (reported P ?w st_after) = st_mode st_after"
    using full_session(6) [OF assms(1) True] by (simp add: reported_def assms(5))
  ultimately show ?thesis
    using hook_chmod_full [OF assms(1,2) True assms(3)] True zero_on_err_nonneg [of real] by simp
next
  case False
  let ?k = "key_from_stat st"
  let ?i = "(entry_or_new P w ?k)\<lparr>i_mode := Some (compose_mode (st_mode st) mode)\<rparr>"
  have can: "session_can_set P w ?k ?i" using assms(7) False by simp
  have canon: "session_canon P w ?i = ?i"
    by (rule canon_set_mode [OF compose_mode_nonzero [OF assms(6)] entry_canon [OF assms(1)]])
  obtain w' where w': "h_chmod P (Some path) mode w = (zero_on_err real, w')" "session_ok P w'"
    "session_view P w' = (session_view P w)(?k \<mapsto> session_canon P w ?i)" "ip_kernel w' = k"
    by (rule hook_chmod [OF assms(1,2) refl can assms(3)])
  have "fst (h_stat P (Some path) True w') = (0, reported P w' st_after)"
    using hook_stat [OF w'(2)] assms(4) w'(4) by simp
  then show ?thesis
    using w'(1,3) canon assms(5) zero_on_err_nonneg False
    by (intro exI [of _ "zero_on_err real"] exI [of _ w'] exI [of _ "reported P w' st_after"])
       (simp add: reported_def compose_mode_type compose_mode_perms)
qed

theorem chmod_then_stat_witness:
  "\<exists>rc w' st'. h_chmod example_params (Some (bytes_of ''/f'')) 0x1ED example_world = (rc, w') \<and>
     fst (h_stat example_params (Some (bytes_of ''/f'')) True w') = (0, st') \<and>
     st_mode st' AND ALLPERMS = 0x1ED \<and> st_mode st' AND NOT ALLPERMS = 0x8000"
  using chmod_then_stat [OF example_session, where P = example_params and path = "bytes_of ''/f''" and
      st = "example_stat 42 0x81A4" and mode = "0x1ED" and real = "- 1" and k = "()" and
      st_after = "example_stat 42 0x81A4"]
  by (auto simp: real_chmod_def example_stat_def ALLPERMS_def)






text \<open>
  C27: Removing the last link of a file drops its entry and no other, so that a new file under
  the same inode number is reported with the session's default owner; while there are further
  links the entry stays.  The result is the one of the real call.
\<close>

theorem unlink_drops_entry:
  assumes "session_ok P w" and "real_stat (se_kernel P) (Some path) True (ip_kernel w) = (0, st)"
  shows "\<exists>w'. h_unlink P (Some path) w = (fst (real_unlink (se_kernel P) True (Some path) (ip_kernel w)), w') \<and>
    session_ok P w' \<and>
    session_view P w' (key_from_stat st) =
      (if st_nlink st \<le> 1 then None else session_view P w (key_from_stat st)) \<and>
    (\<forall>k. k \<noteq> key_from_stat st \<longrightarrow> session_view P w' k = session_view P w k) \<and>
    (st_nlink st \<le> 1 \<longrightarrow> (\<forall>st'. key_from_stat st' = key_from_stat st \<longrightarrow>
       fst (modify_stat_buf P st' w') =
         st'\<lparr>st_uid := frs_current_uid (local_state w'), st_gid := frs_current_gid (local_state w')\<rparr>))"
proof -
  obtain w' where w': "h_unlink P (Some path) w = (fst (real_unlink (se_kernel P) True (Some path) (ip_kernel w)), w')"
    "session_ok P w'" "session_view P w' = (if st_nlink st \<le> 1
       then (session_view P w)(key_from_stat st := None) else session_view P w)"
    by (rule hook_unlink [OF assms])
  then show ?thesis
    by (intro exI [of _ w']) (simp add: session_modify_stat(1) [OF w'(2)] reported_def)
qed

text \<open>A process whose table has entries for two files.\<close>

definition example_entries :: "(rpc_world, unit) interpose" where
  "example_entries = global_update (frs_set_inode (9, 42) (fake_inode_new 7 8))
     (global_update (frs_set_inode (9, 44) (fake_inode_new 5 6)) example_world)"

lemma example_entries_view:
  "session_ok P example_entries"
  "session_view P example_entries = [(9, 42) \<mapsto> fake_inode_new 7 8, (9, 44) \<mapsto> fake_inode_new 5 6]"
proof -
  have local: "local_session (global_update f w)" if "local_session w" for f and w :: "(rpc_world, unit) interpose"
    using that by (simp add: local_session_def global_update_def ready_def)
  have l: "local_session example_entries"
    unfolding example_entries_def by (intro local example_local)
  then show "session_ok P example_entries" by (simp add: session_ok_def)
  have "local_state (global_update f w) = f (local_state w)" for f and w :: "(rpc_world, unit) interpose"
    by (simp add: local_state_def global_update_def global_get_or_init_def)
  then show "session_view P example_entries = [(9, 42) \<mapsto> fake_inode_new 7 8, (9, 44) \<mapsto> fake_inode_new 5 6]"
    unfolding local_session_view(1) [OF l] by (intro ext) (simp add: example_entries_def example_state store_simps)
qed

theorem unlink_drops_entry_witness:
  "\<exists>w'. snd (h_unlink example_params (Some (bytes_of ''/f'')) example_entries) = w' \<and>
     session_view example_params example_entries (9, 42) = Some (fake_inode_new 7 8) \<and>
     session_view example_params w' (9, 42) = None \<and>
     session_view example_params w' (9, 44) = Some (fake_inode_new 5 6)"
  using unlink_drops_entry [OF example_entries_view(1), of example_params "bytes_of ''/f''" "example_stat 42 0x81A4"]
  by (auto simp: key_from_stat_def example_stat_def example_entries_view(2))

text \<open>
  Unlinking a symbolic link drops the fake metadata of the file it points to: the entry of
  the target is gone, whether or not the real call succeeds, and the link's own entry stays.
\<close>

lemma unlink_symlink_drops_target:
  assumes "session_ok P w" and "real_stat (se_kernel P) (Some path) True (ip_kernel w) = (0, target)"
    and "real_lstat (se_kernel P) (Some path) True (ip_kernel w) = (0, link)"
    and "key_from_stat link \<noteq> key_from_stat target" and "st_nlink target \<le> 1"
  shows "session_view P (snd (h_unlink P (Some path) w)) (key_from_stat target) = None \<and>
    session_view P (snd (h_unlink P (Some path) w)) (key_from_stat link) = session_view P w (key_from_stat link)"
proof -
  obtain w' where w': "h_unlink P (Some path) w = (fst (real_unlink (se_kernel P) True (Some path) (ip_kernel w)), w')"
    "session_ok P w'" "session_view P w' = (if st_nlink target \<le> 1
       then (session_view P w)(key_from_stat target := None) else session_view P w)"
    by (rule hook_unlink [OF assms(1,2)])
  then show ?thesis using assms(4,5) by simp
qed

text \<open>
  C28: A rename over an existing file drops exactly the entry of the overwritten file, when that
  was its last link and it is not the file being renamed; the entry of the renamed file stays.
\<close>

theorem rename_drops_overwritten:
  assumes "session_ok P w" and "stat_at (se_kernel P) AT_FDCWD new 0 (ip_kernel w) = Inr nst"
    and "stat_at (se_kernel P) AT_FDCWD old 0 (ip_kernel w) = Inr ost"
  shows "\<exists>w'. h_rename P old new w = (fst (real_rename (se_kernel P) True old new (ip_kernel w)), w') \<and>
    session_ok P w' \<and>
    session_view P w' =
      (if key_from_stat nst \<noteq> key_from_stat ost \<and> st_nlink nst \<le> 1
       then (session_view P w)(key_from_stat nst := None) else session_view P w) \<and>
    session_view P w' (key_from_stat ost) = session_view P w (key_from_stat ost)"
proof -
  let ?w = "if key_from_stat nst \<noteq> key_from_stat ost
    then maybe_remove_inode P (key_from_stat nst) (st_nlink nst) w else w"
  note M = session_maybe_remove [OF assms(1), of "key_from_stat nst" "st_nlink nst"]
  have prep: "prepare_rename_overwrite P AT_FDCWD old AT_FDCWD new w = ?w"
    using session_ready [OF assms(1)] assms(2,3) by (simp add: prepare_rename_overwrite_def Let_def)
  have w: "session_ok P ?w" "session_view P ?w =
      (if key_from_stat nst \<noteq> key_from_stat ost \<and> st_nlink nst \<le> 1
       then (session_view P w)(key_from_stat nst := None) else session_view P w)" "ip_kernel ?w = ip_kernel w"
    using assms(1) M session_kernel [OF M(4)] by auto
  then have "ip_init_done ?w" using session_ready ready_init_done by blast
  then have "h_rename P old new w = (fst (real_rename (se_kernel P) True old new (ip_kernel w)),
      ?w\<lparr>ip_kernel := snd (real_rename (se_kernel P) True old new (ip_kernel w))\<rparr>)"
    unfolding h_rename_def prep Let_def w(3) by (simp only: case_prod_beta)
  then show ?thesis
    using w(1,2)
    by (intro exI [of _ "?w\<lparr>ip_kernel := snd (real_rename (se_kernel P) True old new (ip_kernel w))\<rparr>"])
       (simp only: session_set_kernel fun_upd_apply simp_thms split: if_splits, auto)
qed

theorem rename_drops_overwritten_witness:
  "\<exists>w'. snd (h_rename example_params (Some (bytes_of ''/f'')) (Some (bytes_of ''/g'')) example_entries) = w' \<and>
     session_view example_params example_entries (9, 44) = Some (fake_inode_new 5 6) \<and>
     session_view example_params w' (9, 44) = None \<and>
     session_view example_params w' (9, 42) = Some (fake_inode_new 7 8)"
  using rename_drops_overwritten [OF example_entries_view(1), of example_params "Some (bytes_of ''/g'')"
      "example_stat 44 0x81A4" "Some (bytes_of ''/f'')" "example_stat 42 0x81A4"]
  by (auto simp: stat_at_def real_fstatat_def example_newfstatat_def key_from_stat_def example_stat_def
      example_entries_view(2))

text \<open>
  C29: Creating a device node under a UTF-8 path succeeds whenever a placeholder file can be
  created there and looked up.  A later stat of it reports the mode that was asked for, the
  current ids of the session as the owner, and the device number that was asked for; a device
  number 0 in a shared table is not recorded, and the placeholder's is reported.  When the table
  has no place for an entry, the call returns 0 as well, and a stat reports the placeholder.  (In
  the daemon mode, the entry has to fit the protocol's frames.)
\<close>

theorem mknod_then_stat:
  assumes "session_ok P w" and "path \<noteq> []" and "utf8_valid path" and "0 \<notin> set path"
    and "k_open_create (se_kernel P) path 0x1A4 (ip_kernel w) = (True, k)"
    and "real_stat (se_kernel P) (Some path) True k = (0, st)"
    and "mode AND S_IFMT = S_IFCHR \<or> mode AND S_IFMT = S_IFBLK"
    and "session_can_set P w (key_from_stat st) ((fake_inode_new (fst (session_ids w)) (snd (session_ids w)))
          \<lparr>i_mode := Some mode, i_rdev := Some dev\<rparr>) \<or> table_full w (key_from_stat st)"
  shows "\<exists>w' st'. h_mknod P (Some path) mode dev w = (0, w') \<and>
    fst (h_stat P (Some path) True w') = (0, st') \<and>
    (if table_full w (key_from_stat st) then
       w' = w\<lparr>ip_kernel := k\<rparr> \<and> st_mode st' = st_mode st \<and> st_rdev st' = st_rdev st
     else
       st_mode st' = mode \<and>
       st_rdev st' = (if dev = 0 \<and> sc_active (ip_shm w) then st_rdev st else dev) \<and>
       (st_uid st', st_gid st') = session_ids w)"
proof (cases "table_full w (key_from_stat st)")
  case True
  let ?w = "w\<lparr>ip_kernel := k\<rparr>"
  have "session_ok P ?w" using assms(1) by simp
  then have "fst (h_stat P (Some path) True ?w) = (0, reported P ?w st)"
    using assms(6) by (intro hook_stat) simp_all
  moreover have "session_view P ?w (key_from_stat st) = None"
    using full_session(6) [OF assms(1) True] by simp
  ultimately show ?thesis
    using hook_mknod_full [OF assms(1-6) True] True by (simp add: reported_def)
next
  case False
  let ?i = "(fake_inode_new (fst (session_ids w)) (snd (session_ids w)))\<lparr>i_mode := Some mode, i_rdev := Some dev\<rparr>"
  have can: "session_can_set P w (key_from_stat st) ?i" using assms(8) False by simp
  have mode: "mode \<noteq> 0" using assms(7) by (auto simp: S_IFCHR_def S_IFBLK_def)
  obtain w' where w': "h_mknod P (Some path) mode dev w = (0, w')" "session_ok P w'"
    "session_view P w' = (session_view P w)(key_from_stat st \<mapsto> session_canon P w ?i)" "ip_kernel w' = k"
    by (rule hook_mknod [OF assms(1-7) refl can])
  have "fst (h_stat P (Some path) True w') = (0, reported P w' st)"
    using hook_stat [OF w'(2)] assms(6) w'(4) by simp
  then show ?thesis
    using w'(1,3) False by (simp add: reported_def canon_device_zero [OF mode])
qed

theorem mknod_then_stat_witness:
  "\<exists>w' st'. h_mknod example_params (Some (bytes_of ''/f'')) 0x21B6 0x103 example_world = (0, w') \<and>
     fst (h_stat example_params (Some (bytes_of ''/f'')) True w') = (0, st') \<and>
     st_mode st' = 0x21B6 \<and> st_rdev st' = 0x103"
  using mknod_then_stat [OF example_session example_path, of example_params "()"
      "example_stat 42 0x81A4" "0x21B6" "0x103"]
  by (auto simp: S_IFMT_def S_IFCHR_def)

text \<open>
  A chmod of a fake device node turns it into a file of the placeholder's type: the type
  bits a later stat reports are the real ones, no longer those of the node.
\<close>

lemma chmod_forgets_device_type:
  assumes "session_ok P w" and "path \<noteq> []" and "utf8_valid path" and "0 \<notin> set path"
    and "k_open_create (se_kernel P) path 0x1A4 (ip_kernel w) = (True, k)"
    and "real_stat (se_kernel P) (Some path) True k = (0, st)" and "st_mode st AND NOT ALLPERMS = S_IFREG"
    and "mode AND S_IFMT = S_IFCHR \<or> mode AND S_IFMT = S_IFBLK" and "dev \<noteq> 0"
    and "real_chmod (se_kernel P) (Some path) perms k = (real, k)"
    and "i = (fake_inode_new (fst (session_ids w)) (snd (session_ids w)))\<lparr>i_mode := Some mode, i_rdev := Some dev\<rparr>"
    and "session_can_set P w (key_from_stat st) i"
    and "session_can_set P (snd (h_mknod P (Some path) mode dev w)) (key_from_stat st)
      (i\<lparr>i_mode := Some (compose_mode (st_mode st) perms)\<rparr>)"
  shows "\<exists>st'. fst (h_stat P (Some path) True (snd (h_chmod P (Some path) perms
      (snd (h_mknod P (Some path) mode dev w))))) = (0, st') \<and>
    st_mode st' AND NOT ALLPERMS = S_IFREG \<and> st_rdev st' = dev"
proof -
  let ?k = "key_from_stat st" and ?m = "compose_mode (st_mode st) perms"
  have "mode \<noteq> 0" using assms(8) by (auto simp: S_IFCHR_def S_IFBLK_def)
  then have canon: "session_canon P w i = i" unfolding assms(11) using assms(9) by (rule canon_device)
  obtain w1 where w1: "h_mknod P (Some path) mode dev w = (0, w1)" "session_ok P w1"
    "session_view P w1 = (session_view P w)(?k \<mapsto> session_canon P w i)" "ip_kernel w1 = k"
    by (rule hook_mknod [OF assms(1-6,8,11,12)])
  have entry: "entry_or_new P w1 ?k = i" using w1(3) canon by (simp add: entry_or_new_def)
  have type: "st_mode st AND NOT ALLPERMS \<noteq> 0" by (simp add: assms(7) S_IFREG_def)
  have canon1: "session_canon P w1 (i\<lparr>i_mode := Some ?m\<rparr>) = i\<lparr>i_mode := Some ?m\<rparr>"
    using canon_set_mode [OF compose_mode_nonzero [OF type] entry_canon [OF w1(2), of ?k]] entry by simp
  have stat: "real_stat (se_kernel P) (Some path) True (ip_kernel w1) = (0, st)"
    and chmod: "real_chmod (se_kernel P) (Some path) perms (ip_kernel w1) = (real, k)"
    and can: "session_can_set P w1 ?k (i\<lparr>i_mode := Some ?m\<rparr>)"
    using assms(6,10,13) w1(1,4) by simp_all
  obtain w2 where w2: "h_chmod P (Some path) perms w1 = (zero_on_err real, w2)" "session_ok P w2"
    "session_view P w2 = (session_view P w1)(?k \<mapsto> session_canon P w1 (i\<lparr>i_mode := Some ?m\<rparr>))"
    "ip_kernel w2 = k"
    by (rule hook_chmod [OF w1(2) stat _ can chmod]) (simp add: entry)
  have "fst (h_stat P (Some path) True w2) = (0, reported P w2 st)"
    using hook_stat [OF w2(2)] assms(6) w2(4) by simp
  then show ?thesis
    using w1(1) w2(1,3) canon1 assms(7,11) by (simp add: reported_def compose_mode_type)
qed

end
