(* ===== verification/Library_Properties.thy ===== *)
theory Library_Properties
  imports Hook_Properties Daemon_Properties
begin

text \<open>
  More properties of the interposed library: the current ids, joining a session, what other
  processes of a session can bring about, and the attribute lists.
\<close>

section \<open>Lists of attribute names\<close>

text \<open>The names in a NUL-separated list, the form of a \<open>listxattr\<close> result.\<close>

definition names_of :: "bytes \<Rightarrow> bytes list" where
  "names_of b = filter (\<lambda>n. n \<noteq> []) (split_nul b)"

lemma split_nul_nonempty [simp]: "split_nul b \<noteq> []"
  by (induction b) (auto split: list.split)

lemma split_nul_append:
  "0 \<notin> set n \<Longrightarrow> split_nul (n @ 0 # rest) = n # split_nul rest"
  by (induction n) auto

lemma names_of_blob:
  "\<forall>n\<in>set ns. 0 \<notin> set n \<and> n \<noteq> [] \<Longrightarrow> names_of (concat (map (\<lambda>n. n @ [0]) ns)) = ns"
  by (induction ns) (simp_all add: names_of_def split_nul_append)

lemma split_nul_pieces: "n \<in> set (split_nul b) \<Longrightarrow> 0 \<notin> set n"
proof (induction b arbitrary: n)
  case (Cons x b)
  then show ?case by (cases "split_nul b") (auto split: if_splits)
qed simp

lemma add_names:
  "distinct extra \<Longrightarrow>
   fold (\<lambda>name names. if name \<in> set names then names else names @ [name]) extra names =
     names @ filter (\<lambda>n. n \<notin> set names) extra"
proof (induction extra arbitrary: names)
  case (Cons e extra)
  have "filter (\<lambda>n. n \<notin> set (names @ [e])) extra = filter (\<lambda>n. n \<notin> set names) extra"
    using Cons.prems by (intro filter_cong) auto
  with Cons show ?case by simp
qed simp

section \<open>A session on shared memory, and one with a daemon, for the witnesses\<close>

definition shm_world :: "shm_map \<Rightarrow> shm_mem \<Rightarrow> (rpc_world, unit) interpose" where
  "shm_world h m = example_world\<lparr>ip_shm :=
     \<lparr>sc_env_fd = Some (bytes_of ''3''), sc_env_len = None, sc_map = Some h, sc_active = True, sc_mem = m\<rparr>\<rparr>"

lemma shm_world_session:
  "shm_inv xattrs_serde h m \<Longrightarrow> shm_session example_params (shm_world h m)"
  using session_ready [OF example_session]
  by (simp add: shm_session_def shm_world_def shm_attached_def example_params_def ready_def)

lemma example_small_fit: "small_fit example_codecs"
proof -
  have "length (to_wire (c_result example_codecs) (result_of_inode None)) < 2 ^ 16"
    by (simp add: example_codecs_def result_wire_def wire_of_def enc_meta_def result_of_inode_def enc_bool_def)
  then show ?thesis
    unfolding small_fit_def
    by (auto intro!: fits_small simp: key_message_def chown_message_def ids_message_def)
qed

section \<open>Properties\<close>

text \<open>
  C30: Setting an id always succeeds and is seen by the calls that read it, real and effective
  alike; the other id and every file's entry stay as they were, in every mode of a session.
\<close>

theorem set_id_then_get:
  assumes "session_ok P w"
  shows "(\<exists>w'. h_setuid P u w = (0, w') \<and> session_ok P w' \<and> session_view P w' = session_view P w \<and>
      fst (h_getuid P w') = u \<and> fst (h_geteuid P w') = u \<and> fst (h_getgid P w') = fst (h_getgid P w)) \<and>
    (\<exists>w'. h_setgid P g w = (0, w') \<and> session_ok P w' \<and> session_view P w' = session_view P w \<and>
      fst (h_getgid P w') = g \<and> fst (h_getegid P w') = g \<and> fst (h_getuid P w') = fst (h_getuid P w))"
proof
  note gid = session_reads(15-18) [OF assms] and uid = session_reads(8-11) [OF assms]
  obtain w' where w': "set_current_ids P u (fst (current_fake_gid P w)) (snd (current_fake_gid P w)) = (0, w')"
    "session_ok P w'" "session_view P w' = session_view P (snd (current_fake_gid P w))"
    "session_ids w' = (u, fst (current_fake_gid P w))"
    by (rule session_set_ids [OF gid(2)])
  then show "\<exists>w'. h_setuid P u w = (0, w') \<and> session_ok P w' \<and> session_view P w' = session_view P w \<and>
      fst (h_getuid P w') = u \<and> fst (h_geteuid P w') = u \<and> fst (h_getgid P w') = fst (h_getgid P w)"
    using gid session_reads(8,15) [OF w'(2)]
    by (intro exI [of _ w']) (simp add: h_setuid_def h_getuid_def h_geteuid_def h_getgid_def case_prod_beta)
  obtain w'' where w'': "set_current_ids P (fst (current_fake_uid P w)) g (snd (current_fake_uid P w)) = (0, w'')"
    "session_ok P w''" "session_view P w'' = session_view P (snd (current_fake_uid P w))"
    "session_ids w'' = (fst (current_fake_uid P w), g)"
    by (rule session_set_ids [OF uid(2)])
  then show "\<exists>w'. h_setgid P g w = (0, w') \<and> session_ok P w' \<and> session_view P w' = session_view P w \<and>
      fst (h_getgid P w') = g \<and> fst (h_getegid P w') = g \<and> fst (h_getuid P w') = fst (h_getuid P w)"
    using uid session_reads(8,15) [OF w''(2)]
    by (intro exI [of _ w'']) (simp add: h_setgid_def h_getuid_def h_getegid_def h_getgid_def case_prod_beta)
qed

theorem set_id_then_get_witness:
  "\<exists>w'. h_setuid example_params 1000 example_world = (0, w') \<and> fst (h_getuid example_params w') = 1000 \<and>
     fst (h_getgid example_params w') = 0"
proof -
  have "fst (h_getgid example_params example_world) = 0"
    using session_reads(15) [OF example_session, of example_params] by (simp add: h_getgid_def)
  then show ?thesis
    using conjunct1 [OF set_id_then_get [OF example_session, of example_params 1000]] by auto
qed

text \<open>
  On shared memory, a file without an entry is reported under the ids this process set
  last, while \<open>getuid\<close> returns the session's: once another process of the session has changed
  them, \<open>stat\<close> and \<open>getuid\<close> disagree.
\<close>

lemma stat_default_is_process_local:
  assumes "shm_session P w" and "session_view P w (key_from_stat st) = None"
  shows "st_uid (fst (modify_stat_buf P st w)) = frs_current_uid (local_state w) \<and>
    fst (h_getuid P w) = shm_current_uid (sc_mem (ip_shm w))"
proof -
  have "session_ok P w" using assms(1) by (simp add: session_ok_def)
  then show ?thesis
    using session_modify_stat(1) [of P w st] assms(2) shm_session_ops(4) [OF assms(1)]
    by (simp add: reported_def h_getuid_def)
qed

text \<open>
  The first intercepted call after loading brings the process into its session: on its own
  table, empty and with the ids the constructor read, when no backend is configured; on the
  inherited shared table, with the entries and the ids it holds, when that can be mapped.
  Initialising again changes nothing.
\<close>

lemma first_call_joins_session:
  assumes "loaded w"
  shows "(sc_env_fd (ip_shm w) = None \<and> \<not> daemon_mode_enabled (ip_link w) \<longrightarrow>
      (let w' = ensure_library_init P w in local_session w' \<and> ensure_library_init P w' = w' \<and>
         session_ids w' = (ip_boot_uid w, ip_boot_gid w) \<and> session_view P w' = Map.empty)) \<and>
    (init_shm_from_env (se_shm_os P) (ip_shm w) = (True, s) \<and> shm_attached (se_xattrs P) s \<longrightarrow>
      (let w' = ensure_library_init P w in shm_session P w' \<and> ensure_library_init P w' = w' \<and>
         session_ids w' = (shm_current_uid (sc_mem s), shm_current_gid (sc_mem s)) \<and>
         session_view P w' = (\<lambda>k. sc_get_inode (se_xattrs P) k s)))"
proof (intro conjI impI)
  assume "sc_env_fd (ip_shm w) = None \<and> \<not> daemon_mode_enabled (ip_link w)"
  then have J: "ensure_library_init P w = booted w" "local_session (booted w)"
    using join_local [OF assms] by blast+
  have "session_view P (booted w) = Map.empty"
    by (rule ext) (simp add: local_session_view(1) [OF J(2)] store_simps)
  then show "let w' = ensure_library_init P w in local_session w' \<and> ensure_library_init P w' = w' \<and>
      session_ids w' = (ip_boot_uid w, ip_boot_gid w) \<and> session_view P w' = Map.empty"
    using J booted_ready [OF assms] by (simp add: local_session_view(2))
next
  assume "init_shm_from_env (se_shm_os P) (ip_shm w) = (True, s) \<and> shm_attached (se_xattrs P) s"
  then have J: "ensure_library_init P w = (booted w)\<lparr>ip_shm := s\<rparr>" "shm_session P ((booted w)\<lparr>ip_shm := s\<rparr>)"
    using join_shm [OF assms] by blast+
  show "let w' = ensure_library_init P w in shm_session P w' \<and> ensure_library_init P w' = w' \<and>
      session_ids w' = (shm_current_uid (sc_mem s), shm_current_gid (sc_mem s)) \<and>
      session_view P w' = (\<lambda>k. sc_get_inode (se_xattrs P) k s)"
    using J(2) shm_session_view [OF J(2)] by (simp add: J(1))
qed

text \<open>
  With a daemon, an entry another process removed comes back: this process keeps a copy of
  what it set itself and falls back to it when the daemon has no entry.
\<close>

lemma daemon_removed_entry_survives:
  assumes "daemon_session P w" and "session_can_set P w k n"
    and "w1 = set_inode P k n w"
    and "w2 = w1\<lparr>ip_link := (ip_link w1)\<lparr>dl_net := (dl_net (ip_link w1))\<lparr>rp_daemon :=
           snd (dispatch_message (se_codecs P) (key_message (se_codecs P) RemoveOwnership k i)
             (rp_daemon (dl_net (ip_link w1))))\<rparr>\<rparr>\<rparr>"
  shows "link_table (ip_link w1) k = Some n \<and> link_table (ip_link w2) k = None \<and>
    fst (get_inode P k w2) = Some n"
proof -
  note D = daemon_sessionD [OF assms(1)]
  have "state_fits (se_codecs P) k n"
    using assms(2) D(3,8) by (simp add: session_can_set_def)
  note w1 = daemon_session_writes(1) [OF assms(1) this, folded assms(3)]
  have local: "local_state w2 = frs_set_inode k n (local_state w)"
    and shm: "ip_shm w2 = ip_shm w" and ready: "ready w2"
    using D(1) by (simp_all add: assms(4) w1 local_state_def global_update_def global_get_or_init_def ready_def)
  have "linked (ip_link w1)" using D(7) by (simp add: w1 linked_dispatch)
  then have linked: "linked (ip_link w2)"
    by (simp add: assms(4) linked_def rpc_idle_def daemon_mode_active_def daemon_mode_enabled_def
        get_daemon_socket_path_def)
  have first: "link_table (ip_link w1) k = Some n"
    using link_table_dispatch [of "se_codecs P" "state_message (se_codecs P) k n (dl_next_id (ip_link w))"]
    by (simp add: w1 op_of_messages [OF D(5)])
  have gone: "link_table (ip_link w2) k = None"
    by (simp add: assms(4) link_table_def dispatch_table op_of_messages [OF D(5)])
  have "rpc_fits (se_codecs P) (key_message (se_codecs P) GetOwnership k (dl_next_id (ip_link w2))) (ip_link w2)"
    by (rule get_fits [OF D(6,5)]) (simp add: gone)
  from link_get_inode [OF D(5) linked this] have
    "fst (daemon_get_inode (se_codecs P) (se_ops P) k (ip_link w2)) = None" by (simp add: gone D(4))
  then have "fst (get_inode P k w2) = frs_get_inode (local_state w2) k"
    using D(2) linked
    by (simp add: get_inode_def shm linked_def case_prod_beta global_state_def local_state_def Let_def)
  then show ?thesis using first gone by (simp add: local store_simps)
qed

text \<open>
  Merging lists of attribute names keeps the real names in their order and appends exactly
  those fake names that are not among them, each once, as a well-formed NUL-terminated list.
\<close>

lemma merge_xattr_lists_names:
  assumes "distinct extra" and "\<forall>n\<in>set extra. n \<noteq> [] \<and> 0 \<notin> set n"
  shows "names_of (merge_xattr_lists real_list extra) =
      names_of real_list @ filter (\<lambda>n. n \<notin> set (names_of real_list)) extra \<and>
    (merge_xattr_lists real_list extra = [] \<or> last (merge_xattr_lists real_list extra) = 0)"
proof -
  let ?ns = "names_of real_list @ filter (\<lambda>n. n \<notin> set (names_of real_list)) extra"
  have blob: "merge_xattr_lists real_list extra = concat (map (\<lambda>n. n @ [0]) ?ns)"
    by (simp add: merge_xattr_lists_def Let_def names_of_def [symmetric] add_names [OF assms(1)])
  have "\<forall>n\<in>set ?ns. 0 \<notin> set n \<and> n \<noteq> []"
    using assms(2) by (auto simp: names_of_def dest: split_nul_pieces)
  then have "names_of (merge_xattr_lists real_list extra) = ?ns" unfolding blob by (rule names_of_blob)
  moreover have "?ns \<noteq> [] \<Longrightarrow> last (concat (map (\<lambda>n. n @ [0]) ?ns)) = 0"
    by (cases ?ns rule: rev_cases) simp_all
  ultimately show ?thesis unfolding blob by (cases "?ns = []") auto
qed

text \<open>The size query of \<open>listxattr\<close> on a file with fake attributes counts the fake names only.\<close>

lemma listxattr_size_query_counts_fake_only:
  assumes "session_ok P w" and "real_stat (se_kernel P) (Some path) True (ip_kernel w) = (0, st)"
    and "session_view P w (key_from_stat st) = Some i" and "se_keys P (i_xattrs i) \<noteq> []"
    and "real_listxattr (se_kernel P) True (Some path) None 0 (ip_kernel w) = (real_len, None)"
  shows "\<exists>w'. h_listxattr P (Some path) None 0 w =
    Some ((word_of_nat (length (merge_xattr_lists [] (se_keys P (i_xattrs i)))), None), w')"
proof -
  obtain w1 where w1: "get_inode P (key_from_stat st) w = (Some i, w1)" "ready w1"
      "session_rest w1 = session_rest w"
    using session_get [OF assms(1), of "key_from_stat st"] assms(3) by metis
  then show ?thesis
    using session_ready [OF assms(1)] real_stat_source [OF assms(2)] assms(4,5) session_kernel [OF w1(3)]
    by (simp add: h_listxattr_def fake_listxattr_path_def fake_listxattr_def real_listxattr_for_def
        write_xattr_list_def Let_def)
qed

text \<open>What \<open>stat\<close> and \<open>statx\<close> have in common tells the same.\<close>

definition same_file :: "'k kernel \<Rightarrow> stat \<Rightarrow> statx \<Rightarrow> bool" where
  "same_file K st stx \<longleftrightarrow>
     key_from_stat st = (k_makedev K (stx_dev_major stx) (stx_dev_minor stx), stx_ino stx) \<and>
     stx_uid stx = st_uid st \<and> stx_gid stx = st_gid st \<and> stx_mode stx = ucast (st_mode st) \<and>
     stx_rdev_major stx = k_major K (st_rdev st) \<and> stx_rdev_minor stx = k_minor K (st_rdev st)"

lemma modify_same_file:
  assumes "same_file (se_kernel P) st stx"
  shows "same_file (se_kernel P) (fst (modify_stat_buf P st w)) (fst (modify_statx_buf P stx w))"
    and "snd (modify_statx_buf P stx w) = snd (modify_stat_buf P st w)"
  using assms
  by (auto simp: same_file_def key_from_stat_def modify_stat_buf_def modify_statx_buf_def
      patch_inode_fields_def apply_default_ownership_def Let_def case_prod_beta split: option.split)

text \<open>
  C37: Whatever the state of the library and of the session, \<open>statx\<close> and \<open>fstatat\<close> agree: when the
  real calls agree on a file, so do the rewritten answers, on its identity, owner, mode and
  device number, and both leave the library in the same state.
\<close>

theorem statx_agrees_with_stat:
  assumes "real_fstatat (se_kernel P) dirfd path buf flags (ip_kernel w) = (rc, st)"
    and "real_statx (se_kernel P) dirfd path flags request buf (ip_kernel w) = (rc, stx)"
    and "same_file (se_kernel P) st stx"
  shows "\<exists>st' stx' w'. h_fstatat P dirfd path buf flags w = ((rc, st'), w') \<and>
    h_statx P dirfd path flags request buf w = ((rc, stx'), w') \<and> same_file (se_kernel P) st' stx'"
  using modify_same_file [OF assms(3), of w] assms
  by (simp add: h_fstatat_def h_statx_def after_stat_def case_prod_beta)

theorem statx_agrees_with_stat_witness:
  "\<exists>st' stx' w'. h_fstatat example_params AT_FDCWD (Some (bytes_of ''/f'')) True 0 example_world = ((0, st'), w') \<and>
     h_statx example_params AT_FDCWD (Some (bytes_of ''/f'')) 0 0 True example_world = ((0, stx'), w') \<and>
     same_file example_kernel st' stx'"
proof -
  have "real_fstatat example_kernel AT_FDCWD (Some (bytes_of ''/f'')) True 0 k = (0, example_stat 42 0x81A4)"
    "real_statx example_kernel AT_FDCWD (Some (bytes_of ''/f'')) 0 0 True k = (0, example_statx)"
    "same_file example_kernel (example_stat 42 0x81A4) example_statx" for k
    by (simp_all add: real_fstatat_def example_newfstatat_def real_statx_def example_kernel_def
        same_file_def key_from_stat_def example_stat_def example_statx_def)
  then show ?thesis using statx_agrees_with_stat [of example_params] by simp
qed

end
