(* ===== verification/Library_Race.thy ===== *)
theory Library_Race
  imports Library_Properties Shm_Race
begin

text \<open>
  Two processes of a session that change the metadata of one file at the same time: the update
  of \<open>ownership.rs\<close> reads the entry, changes its copy and writes all of it back.
\<close>

text \<open>The process as it goes on after other processes left the shared memory as \<open>m\<close>.\<close>

definition others_left :: "shm_mem \<Rightarrow> ('w, 'k) interpose \<Rightarrow> ('w, 'k) interpose" where
  "others_left m w = w\<lparr>ip_shm := (ip_shm w)\<lparr>sc_mem := m\<rparr>\<rparr>"

lemma others_left_sel [simp]:
  "ip_shm (others_left m w) = (ip_shm w)\<lparr>sc_mem := m\<rparr>" "ready (others_left m w) = ready w"
  by (simp_all add: others_left_def ready_def)

lemma others_left_session:
  assumes "shm_session P w" and "sc_map (ip_shm w) = Some h" and "shm_inv (se_xattrs P) h m"
  shows "shm_session P (others_left m w)"
    and "session_view P (others_left m w) = shm_get_inode (se_xattrs P) h m"
  using assms
  by (simp_all add: shm_session_def shm_attached_def session_view_def sc_get_inode_def sc_the_map_def
      shm_mode_active_def fun_eq_iff)

lemma shm_set_view:
  assumes "shm_session P w" and "session_view P w key \<noteq> None"
  shows "session_view P (set_inode P key i w) = (session_view P w)(key \<mapsto> shm_canon (se_xattrs P) i)"
proof -
  have att: "shm_attached (se_xattrs P) (ip_shm w)" and act: "sc_active (ip_shm w)"
    using assms(1) by (simp_all add: shm_session_def shm_attached_def)
  obtain j where "sc_get_inode (se_xattrs P) key (ip_shm w) = Some j"
    using assms(2) by (auto simp: session_view_def act)
  then have "sc_room (ip_shm w) key" by (rule shmc.room_present [OF att])
  from shmc.lookup_upsert [OF att this, of i] show ?thesis
    by (simp add: session_view_def set_inode_def shm_mode_active_def act frame_simps fun_eq_iff)
qed

lemma shm_get_inode_view:
  "shm_session P w \<Longrightarrow> get_inode P key w = (session_view P w key, w)"
  by (simp add: shm_session_def shm_attached_def get_inode_def session_view_def shm_mode_active_def)

section \<open>Property\<close>

text \<open>
  C38: Changing the mode or the attributes of a file undoes what other processes of the session
  did to its metadata in the meantime: the entry is read, changed and written back as a whole, so
  whatever operations run between the two accesses, the entry ends as the change of the old one.
\<close>

theorem update_undoes_concurrent_changes:
  assumes "shm_session P w" and "sc_map (ip_shm w) = Some h" and "session_view P w key = Some i"
    and "m = fold (shm_step (se_xattrs P) h) ops (sc_mem (ip_shm w))"
    and "shm_get_inode (se_xattrs P) h m key \<noteq> None"
  shows "get_inode P key w = (Some i, w) \<and> update_inode P key f w = set_inode P key (f i) w \<and>
    session_view P (others_left m w) = shm_get_inode (se_xattrs P) h m \<and>
    session_view P (set_inode P key (f i) (others_left m w)) =
      (shm_get_inode (se_xattrs P) h m)(key \<mapsto> shm_canon (se_xattrs P) (f i))"
proof -
  have "shm_inv (se_xattrs P) h (sc_mem (ip_shm w))"
    using assms(1,2) by (simp add: shm_session_def shm_attached_def)
  then have "shm_inv (se_xattrs P) h m" unfolding assms(4) by (rule fold_inv)
  note left = others_left_session [OF assms(1,2) this]
  have get: "get_inode P key w = (Some i, w)" using shm_get_inode_view [OF assms(1)] assms(3) by simp
  then have "update_inode P key f w = set_inode P key (f i) w" by (simp add: update_inode_def)
  with get left shm_set_view [OF left(1)] assms(5) show ?thesis by simp
qed

theorem update_undoes_concurrent_changes_witness:
  "\<exists>h m m'. m' = shm_step xattrs_serde h (Chown (9, 42) 5 6 0 0) m \<and>
     map_option i_uid (shm_get_inode xattrs_serde h m' (9, 42)) = Some 5 \<and>
     map_option i_uid (session_view example_params (set_inode example_params (9, 42)
       ((fake_inode_new 1 2)\<lparr>i_mode := Some 0x81ED\<rparr>) (others_left m' (shm_world h m))) (9, 42)) = Some 1"
proof -
  obtain h m where hm: "shm_create os_all_ok 65536 0 0 = Inr (h, m)" "nslots h = 65536"
    by (rule created_example)
  let ?x = "Chown (9, 42) 5 6 0 0"
  let ?m = "fold (shm_step xattrs_serde h) two_entries m"
  let ?w = "shm_world h ?m"
  note steps = created_refines [OF xattrs_serde_ok hm(1), of two_entries]
    created_refines [OF xattrs_serde_ok hm(1), of "two_entries @ [?x]"]
  have view: "shm_get_inode xattrs_serde h ?m (9, 42) = Some (fake_inode_new 1 2)"
    and left: "map_option i_uid (shm_get_inode xattrs_serde h (shm_step xattrs_serde h ?x ?m) (9, 42)) = Some 5"
    using steps by (simp_all add: hm(2) two_entries_def ID_UNCHANGED_def fake_inode_eqI)
  have "shm_session example_params ?w"
    by (intro shm_world_session fold_inv created_inv [OF xattrs_serde_ok hm(1)])
  moreover have "session_view example_params ?w (9, 42) = Some (fake_inode_new 1 2)"
    using view by (simp add: shm_world_def session_view_def sc_get_inode_def sc_the_map_def
        shm_mode_active_def example_params_def)
  ultimately have "session_view example_params (set_inode example_params (9, 42)
      ((fake_inode_new 1 2)\<lparr>i_mode := Some 0x81ED\<rparr>) (others_left (shm_step xattrs_serde h ?x ?m) ?w)) (9, 42) =
      Some (shm_canon xattrs_serde ((fake_inode_new 1 2)\<lparr>i_mode := Some 0x81ED\<rparr>))"
    using update_undoes_concurrent_changes [of example_params ?w h "(9, 42)" "fake_inode_new 1 2"
        "shm_step xattrs_serde h ?x ?m" "[?x]" "\<lambda>i. i\<lparr>i_mode := Some 0x81ED\<rparr>"] left
    by (auto simp: shm_world_def example_params_def)
  then show ?thesis using left by - (rule exI [of _ h], rule exI [of _ ?m], simp add: shm_canon_def)
qed

end
