(* ===== verification/Process.thy ===== *)
theory Process
  imports Shm_Client "HOL-Library.AList"
begin

text \<open>
  What the session code uses of Rust's \<open>std::env\<close>, \<open>std::path\<close> and \<open>std::process::Command\<close>.
  Names and values of environment variables, arguments and paths are lists of bytes.

  A \<open>Command\<close> keeps its changes to the environment in a map ordered by name: \<open>cm_vars\<close> is that
  map as an association list, with \<open>None\<close> for a variable to remove, and \<open>cm_clear\<close> is set by
  \<open>env_clear\<close>.  The code below asks it for single names and copies all of it, neither of which
  depends on the order.
\<close>

type_synonym environ = "bytes \<Rightarrow> bytes option"

record command =
  cm_program :: bytes
  cm_args :: "bytes list"
  cm_vars :: "(bytes \<times> bytes option) list"
  cm_clear :: bool
  cm_dir :: "bytes option"

definition command_new :: "bytes \<Rightarrow> command" where
  "command_new program =
     \<lparr>cm_program = program, cm_args = [], cm_vars = [], cm_clear = False, cm_dir = None\<rparr>"

definition command_args :: "bytes list \<Rightarrow> command \<Rightarrow> command" where
  "command_args args cmd = cmd\<lparr>cm_args := cm_args cmd @ args\<rparr>"

definition command_env :: "bytes \<Rightarrow> bytes \<Rightarrow> command \<Rightarrow> command" where
  "command_env key v cmd = cmd\<lparr>cm_vars := AList.update key (Some v) (cm_vars cmd)\<rparr>"

definition command_env_remove :: "bytes \<Rightarrow> command \<Rightarrow> command" where
  "command_env_remove key cmd =
     (if cm_clear cmd then cmd\<lparr>cm_vars := AList.delete key (cm_vars cmd)\<rparr>
      else cmd\<lparr>cm_vars := AList.update key None (cm_vars cmd)\<rparr>)"

definition command_env_clear :: "command \<Rightarrow> command" where
  "command_env_clear cmd = cmd\<lparr>cm_clear := True, cm_vars := []\<rparr>"

definition command_current_dir :: "bytes \<Rightarrow> command \<Rightarrow> command" where
  "command_current_dir dir cmd = cmd\<lparr>cm_dir := Some dir\<rparr>"

text \<open>The environment of the process that is started from one with environment \<open>e\<close>.\<close>

definition child_env :: "environ \<Rightarrow> command \<Rightarrow> environ" where
  "child_env e cmd key =
     (case map_of (cm_vars cmd) key of
        Some v \<Rightarrow> v
      | None \<Rightarrow> if cm_clear cmd then None else e key)"

text \<open>\<open>env::var(key).ok()\<close>: a value that is not UTF-8 counts as not set.\<close>

definition env_var :: "environ \<Rightarrow> bytes \<Rightarrow> bytes option" where
  "env_var e key = (case e key of Some v \<Rightarrow> if utf8_valid v then Some v else None | None \<Rightarrow> None)"

section \<open>Paths\<close>

definition path_join :: "bytes \<Rightarrow> bytes \<Rightarrow> bytes" where
  "path_join p q =
     (if q \<noteq> [] \<and> hd q = of_char CHR ''/'' then q
      else if p = [] \<or> last p = of_char CHR ''/'' then p @ q
      else p @ of_char CHR ''/'' # q)"

text \<open>The pieces between slashes.\<close>

fun path_pieces :: "bytes \<Rightarrow> bytes list" where
  "path_pieces [] = [[]]"
| "path_pieces (b # bs) =
     (if b = of_char CHR ''/'' then [] # path_pieces bs
      else (case path_pieces bs of p # ps \<Rightarrow> (b # p) # ps | [] \<Rightarrow> [[b]]))"

text \<open>
  \<open>Path::components\<close>: repeated slashes and a dot count only at the start of a path; the root
  is the component \<open>/\<close>.
\<close>

definition path_components :: "bytes \<Rightarrow> bytes list" where
  "path_components p =
     (let pieces = path_pieces p; dot = [of_char CHR ''.''];
          tail = filter (\<lambda>c. c \<noteq> [] \<and> c \<noteq> dot) pieces
      in if p \<noteq> [] \<and> hd p = of_char CHR ''/'' then [of_char CHR ''/''] # tail
         else if hd pieces = dot then dot # tail else tail)"

definition path_starts_with :: "bytes \<Rightarrow> bytes \<Rightarrow> bool" where
  "path_starts_with p base =
     (let c = path_components p; b = path_components base in take (length b) c = b)"

text \<open>What a file system holds at a path.\<close>

datatype node = Dir | File bytes

section \<open>Facts\<close>

lemma command_sel [simp]:
  "cm_program (command_env k v c) = cm_program c" "cm_args (command_env k v c) = cm_args c"
  "cm_clear (command_env k v c) = cm_clear c" "cm_dir (command_env k v c) = cm_dir c"
  "cm_program (command_env_remove k c) = cm_program c" "cm_args (command_env_remove k c) = cm_args c"
  "cm_clear (command_env_remove k c) = cm_clear c" "cm_dir (command_env_remove k c) = cm_dir c"
  "cm_program (command_args as c) = cm_program c" "cm_args (command_args as c) = cm_args c @ as"
  "cm_clear (command_args as c) = cm_clear c" "cm_dir (command_args as c) = cm_dir c"
  "cm_vars (command_args as c) = cm_vars c"
  "cm_program (command_new p) = p" "cm_args (command_new p) = []" "cm_vars (command_new p) = []"
  "cm_clear (command_new p) = False" "cm_dir (command_new p) = None"
  "cm_program (command_current_dir d c) = cm_program c" "cm_args (command_current_dir d c) = cm_args c"
  "cm_clear (command_current_dir d c) = cm_clear c" "cm_dir (command_current_dir d c) = Some d"
  "cm_vars (command_current_dir d c) = cm_vars c"
  by (simp_all add: command_env_def command_env_remove_def command_args_def command_new_def
      command_current_dir_def)

lemma map_of_update [simp]: "map_of (AList.update k v xs) = (map_of xs)(k \<mapsto> v)"
  by (simp add: update_conv')

lemma command_vars [simp]:
  "map_of (cm_vars (command_env k v c)) = (map_of (cm_vars c))(k \<mapsto> Some v)"
  "\<not> cm_clear c \<Longrightarrow> map_of (cm_vars (command_env_remove k c)) = (map_of (cm_vars c))(k \<mapsto> None)"
  by (simp_all add: command_env_def command_env_remove_def)

lemma child_env_simps [simp]:
  "child_env e (command_env k v c) = (child_env e c)(k \<mapsto> v)"
  "\<not> cm_clear c \<Longrightarrow> child_env e (command_env_remove k c) = (child_env e c)(k := None)"
  "child_env e (command_args as c) = child_env e c"
  "child_env e (command_new p) = e"
  "child_env e (command_current_dir d c) = child_env e c"
  by (auto simp: child_env_def fun_eq_iff)

lemma distinct_vars:
  "distinct (map fst (cm_vars c)) \<Longrightarrow> distinct (map fst (cm_vars (command_env k v c)))"
  "distinct (map fst (cm_vars c)) \<Longrightarrow> distinct (map fst (cm_vars (command_env_remove k c)))"
  "distinct (map fst (cm_vars (command_new p)))"
  by (simp_all add: command_env_def command_env_remove_def distinct_update distinct_delete)

lemma unat_of_char: "unat (of_char c :: u8) = (of_char c :: nat)"
proof -
  have "(of_char c :: u8) = word_of_nat (of_char c)" by (rule of_nat_of_char [symmetric])
  also have "unat \<dots> = of_char c"
    using nat_of_char_less_256 [of c] by (simp add: unsigned_of_nat take_bit_nat_eq_self)
  finally show ?thesis .
qed

lemma env_string_bytes_of:
  assumes "\<forall>c\<in>set s. of_char c < (128 :: nat)"
  shows "env_string (Some (bytes_of s)) = Some s"
proof -
  have "utf8_valid (bytes_of s)"
    using assms by (intro utf8_valid_ascii) (auto simp: bytes_of_def word_less_nat_alt unat_of_char)
  then show ?thesis
    by (simp add: env_string_def bytes_of_def unat_of_char comp_def del: of_nat_of_char)
qed

lemma show_nat_ascii: "c \<in> set (show_nat n) \<Longrightarrow> of_char c < (128 :: nat)"
  using show_nat_digits [of c n] by (auto simp: digit_val_def Let_def split: if_splits)

lemma env_string_show [simp]: "env_string (Some (bytes_of (show_nat n))) = Some (show_nat n)"
  using show_nat_ascii by (intro env_string_bytes_of) blast

end
