(* ===== verification/Session.thy ===== *)
theory Session
  imports Process Daemon_Server Inode_Ident
begin

text \<open>
  Starting a session (\<open>pseudoroot/src/lib.rs\<close>, Linux branch): finding the library to preload,
  deciding whether a command is supervised, and running the supervised command on a fresh
  shared table or a private daemon.

  \<open>session_os\<close> holds the parameters over an abstract system state \<open>'f\<close>: the calls of the
  system, the library's bytes that the build embeds, and the hash of them that the standard
  library computes.  A panic is \<open>None\<close> where a command is built.
\<close>

section \<open>Names\<close>

definition DAEMON_SOCKET_ENV :: bytes where "DAEMON_SOCKET_ENV = bytes_of ''PSEUDOROOT_DAEMON_SOCKET''"
definition SHM_FD_ENV :: bytes where "SHM_FD_ENV = bytes_of ''PSEUDOROOT_SHM_FD''"
definition SHM_LEN_ENV :: bytes where "SHM_LEN_ENV = bytes_of ''PSEUDOROOT_SHM_LEN''"
definition SESSION_SHM_ENV :: bytes where "SESSION_SHM_ENV = bytes_of ''PSEUDOROOT_SESSION_SHM''"
definition SUPERVISE_VAR :: bytes where "SUPERVISE_VAR = bytes_of ''__PSEUDOROOT_SUPERVISE''"
definition STANDALONE_ENV :: bytes where "STANDALONE_ENV = bytes_of ''PSEUDOROOT_STANDALONE''"
definition LIB_PATH_ENV :: bytes where "LIB_PATH_ENV = bytes_of ''PSEUDOROOT_LIB''"
definition UID_ENV :: bytes where "UID_ENV = bytes_of ''PSEUDOROOT_UID''"
definition GID_ENV :: bytes where "GID_ENV = bytes_of ''PSEUDOROOT_GID''"
definition PRELOAD_ENV :: bytes where "PRELOAD_ENV = bytes_of ''LD_PRELOAD''"

lemmas env_names = DAEMON_SOCKET_ENV_def SHM_FD_ENV_def SHM_LEN_ENV_def SESSION_SHM_ENV_def
  SUPERVISE_VAR_def STANDALONE_ENV_def LIB_PATH_ENV_def UID_ENV_def GID_ENV_def PRELOAD_ENV_def

datatype session_error =
    NoProgram
  | NoLibrary
  | TempDirFailed io_error
  | ShmFailed shm_error
  | DaemonFailed io_error
  | ExecFailed io_error

record 'f session_os =
  ss_embedded :: bytes
  ss_hash :: "bytes \<Rightarrow> u64"
  ss_getuid :: "'f \<Rightarrow> u32"
  ss_pid :: u32
  ss_exists :: "bytes \<Rightarrow> 'f \<Rightarrow> bool"
  ss_create_dir_all :: "bytes \<Rightarrow> 'f \<Rightarrow> io_error option \<times> 'f"
  ss_write :: "bytes \<Rightarrow> bytes \<Rightarrow> 'f \<Rightarrow> io_error option \<times> 'f"
  ss_rename :: "bytes \<Rightarrow> bytes \<Rightarrow> 'f \<Rightarrow> io_error option \<times> 'f"
  ss_temp_dir :: "'f \<Rightarrow> (io_error + bytes) \<times> 'f"
  ss_remove_temp :: "bytes \<Rightarrow> 'f \<Rightarrow> 'f"
  ss_shm :: shm_os
  ss_server :: "'f server_os"
  ss_join :: "daemon \<Rightarrow> 'f \<Rightarrow> 'f option"
  ss_getfd :: "i32 \<Rightarrow> 'f \<Rightarrow> i32"
  ss_setfd :: "i32 \<Rightarrow> i32 \<Rightarrow> 'f \<Rightarrow> 'f"
  ss_status :: "command \<Rightarrow> 'f \<Rightarrow> (io_error + i32 option) \<times> 'f"

section \<open>The library file\<close>

text \<open>The format \<open>016x\<close> of a \<open>u64\<close>.\<close>

definition show_hex16 :: "u64 \<Rightarrow> string" where
  "show_hex16 w = map (\<lambda>i. hex_digit (unat (drop_bit (4 * i) w AND 15))) (rev [0..<16])"

text \<open>\<open>env::temp_dir\<close>.\<close>

definition temp_dir :: "environ \<Rightarrow> bytes" where
  "temp_dir e = (case e (bytes_of ''TMPDIR'') of Some d \<Rightarrow> d | None \<Rightarrow> bytes_of ''/tmp'')"

definition cache_root :: "environ \<Rightarrow> bytes" where
  "cache_root e =
     (case env_var e (bytes_of ''XDG_CACHE_HOME'') of
        Some xdg \<Rightarrow> if xdg \<noteq> [] then xdg else
          (case env_var e (bytes_of ''HOME'') of
             Some home_dir \<Rightarrow> path_join home_dir (bytes_of ''.cache'')
           | None \<Rightarrow> temp_dir e)
      | None \<Rightarrow>
          (case env_var e (bytes_of ''HOME'') of
             Some home_dir \<Rightarrow> path_join home_dir (bytes_of ''.cache'')
           | None \<Rightarrow> temp_dir e))"

text \<open>The directory of the extracted copy, the copy, and the file it is written to first.\<close>

definition embed_dir :: "'f session_os \<Rightarrow> environ \<Rightarrow> 'f \<Rightarrow> bytes" where
  "embed_dir S e f =
     (let dir = path_join (path_join (cache_root e) (bytes_of ''pseudoroot'')) (bytes_of ''embed'');
          dir = (if path_starts_with dir (temp_dir e)
                 then path_join dir (bytes_of (''uid-'' @ show_nat (unat (ss_getuid S f)))) else dir)
      in path_join dir (bytes_of (show_hex16 (ss_hash S (ss_embedded S)))))"

definition lib_name :: string where
  "lib_name = ''libpseudoroot_lib.so''"

definition embed_path :: "'f session_os \<Rightarrow> environ \<Rightarrow> 'f \<Rightarrow> bytes" where
  "embed_path S e f = path_join (embed_dir S e f) (bytes_of lib_name)"

definition embed_tmp_path :: "'f session_os \<Rightarrow> environ \<Rightarrow> 'f \<Rightarrow> bytes" where
  "embed_tmp_path S e f = path_join (embed_dir S e f)
     (bytes_of (''.'' @ lib_name @ ''.'' @ show_nat (unat (ss_pid S)) @ ''.tmp''))"

definition extract_embedded_lib :: "'f session_os \<Rightarrow> environ \<Rightarrow> 'f \<Rightarrow> (io_error + bytes) \<times> 'f" where
  "extract_embedded_lib S e f =
     (let dir = embed_dir S e f; path = embed_path S e f; tmp_path = embed_tmp_path S e f in
      if ss_exists S path f then (Inr path, f)
      else
        (case ss_create_dir_all S dir f of
           (Some err, f) \<Rightarrow> (Inl err, f)
         | (None, f) \<Rightarrow>
             (case ss_write S tmp_path (ss_embedded S) f of
                (Some err, f) \<Rightarrow> (Inl err, f)
              | (None, f) \<Rightarrow>
                  (case ss_rename S tmp_path path f of
                     (Some err, f) \<Rightarrow> (Inl err, f)
                   | (None, f) \<Rightarrow> (Inr path, f)))))"

definition library_path :: "'f session_os \<Rightarrow> environ \<Rightarrow> 'f \<Rightarrow> bytes option \<times> 'f" where
  "library_path S e f =
     (case env_var e LIB_PATH_ENV of
        Some path \<Rightarrow>
          if ss_exists S path f then (Some path, f)
          else (case extract_embedded_lib S e f of (Inr path, f) \<Rightarrow> (Some path, f) | (Inl err, f) \<Rightarrow> (None, f))
      | None \<Rightarrow>
          (case extract_embedded_lib S e f of (Inr path, f) \<Rightarrow> (Some path, f) | (Inl err, f) \<Rightarrow> (None, f)))"

section \<open>The environment of a command\<close>

definition command_has_env :: "command \<Rightarrow> bytes \<Rightarrow> bool" where
  "command_has_env cmd key \<longleftrightarrow> (\<exists>(k, v)\<in>set (cm_vars cmd). k = key \<and> v \<noteq> None)"

definition env_in_command :: "command \<Rightarrow> bytes \<Rightarrow> bytes option" where
  "env_in_command cmd key =
     (case find (\<lambda>(k, v). k = key \<and> v \<noteq> None) (cm_vars cmd) of Some (k, v) \<Rightarrow> v | None \<Rightarrow> None)"

definition ensure_default_env :: "environ \<Rightarrow> bytes \<Rightarrow> bytes \<Rightarrow> command \<Rightarrow> command" where
  "ensure_default_env e key dflt cmd =
     (if \<not> command_has_env cmd key \<and> e key = None then command_env key dflt cmd else cmd)"

definition apply_preload :: "environ \<Rightarrow> bytes \<Rightarrow> command \<Rightarrow> command" where
  "apply_preload e lib_path cmd =
     (let cmd = ensure_default_env e UID_ENV (bytes_of ''0'') cmd;
          cmd = ensure_default_env e GID_ENV (bytes_of ''0'') cmd;
          val = (case env_in_command cmd PRELOAD_ENV of
                   Some existing \<Rightarrow> existing @ bytes_of '':'' @ lib_path
                 | None \<Rightarrow>
                     (case e PRELOAD_ENV of
                        Some existing \<Rightarrow> existing @ bytes_of '':'' @ lib_path
                      | None \<Rightarrow> lib_path))
      in command_env PRELOAD_ENV val cmd)"

definition env_u32 :: "environ \<Rightarrow> bytes \<Rightarrow> u32 \<Rightarrow> u32" where
  "env_u32 e key dflt =
     (case Option.bind (env_string (e key)) parse_u32 of Some v \<Rightarrow> v | None \<Rightarrow> dflt)"

text \<open>The loop that carries the changes of one command over to another.\<close>

definition copy_envs :: "command \<Rightarrow> command \<Rightarrow> command" where
  "copy_envs base cmd =
     fold (\<lambda>(key, v) cmd. case v of Some v \<Rightarrow> command_env key v cmd | None \<Rightarrow> command_env_remove key cmd)
       (cm_vars base) cmd"

definition copy_dir :: "command \<Rightarrow> command \<Rightarrow> command" where
  "copy_dir base cmd = (case cm_dir base of Some dir \<Rightarrow> command_current_dir dir cmd | None \<Rightarrow> cmd)"

definition clone_command :: "command \<Rightarrow> command" where
  "clone_command base =
     copy_dir base (copy_envs base (command_args (cm_args base) (command_new (cm_program base))))"

section \<open>Supervision\<close>

definition session_supervision_enabled :: "environ \<Rightarrow> command \<Rightarrow> bool" where
  "session_supervision_enabled e cmd \<longleftrightarrow>
     e SUPERVISE_VAR = None \<and>
     \<not> (command_has_env cmd DAEMON_SOCKET_ENV \<or> env_var e DAEMON_SOCKET_ENV \<noteq> None) \<and>
     \<not> (command_has_env cmd STANDALONE_ENV \<or> env_var e STANDALONE_ENV \<noteq> None)"

definition supervisor_exe :: bytes where
  "supervisor_exe = bytes_of ''/proc/self/exe''"

definition build_supervise_command :: "command \<Rightarrow> command" where
  "build_supervise_command base =
     copy_dir base (copy_envs base
       (command_args (cm_program base # cm_args base)
         (command_env SUPERVISE_VAR (bytes_of ''1'') (command_new supervisor_exe))))"

definition fakeroot :: "'f session_os \<Rightarrow> environ \<Rightarrow> command \<Rightarrow> 'f \<Rightarrow> command option \<times> 'f" where
  "fakeroot S e cmd f =
     (if session_supervision_enabled e cmd then (Some (build_supervise_command cmd), f)
      else
        (case library_path S e f of
           (None, f) \<Rightarrow> (None, f)
         | (Some lib_path, f) \<Rightarrow> (Some (apply_preload e lib_path (clone_command cmd)), f)))"

section \<open>One session\<close>

definition ascii_lower :: "u8 \<Rightarrow> u8" where
  "ascii_lower b = (if 65 \<le> b \<and> b \<le> 90 then b + 32 else b)"

definition eq_ignore_ascii_case :: "bytes \<Rightarrow> bytes \<Rightarrow> bool" where
  "eq_ignore_ascii_case a b \<longleftrightarrow> map ascii_lower a = map ascii_lower b"

definition session_shm_enabled :: "environ \<Rightarrow> bool" where
  "session_shm_enabled e =
     (case env_var e SESSION_SHM_ENV of
        Some v \<Rightarrow> v \<noteq> bytes_of ''0'' \<and> \<not> eq_ignore_ascii_case v (bytes_of ''false'')
      | None \<Rightarrow> True)"

datatype session_backing = ShmBacking shm_map shm_mem | DaemonBacking session_daemon

definition start_backing ::
    "'f session_os \<Rightarrow> environ \<Rightarrow> bytes \<Rightarrow> u32 \<Rightarrow> u32 \<Rightarrow> 'f \<Rightarrow> (session_error + session_backing) \<times> 'f" where
  "start_backing S e socket_dir uid gid f =
     (if session_shm_enabled e then
        (case shm_create (ss_shm S) 0x10000 uid gid of
           Inl err \<Rightarrow> (Inl (ShmFailed err), f)
         | Inr (h, m) \<Rightarrow> (Inr (ShmBacking h m), f))
      else
        (case session_daemon_start (ss_server S) (path_join socket_dir (bytes_of ''pseudoroot.sock'')) uid gid f of
           (Inl err, f) \<Rightarrow> (Inl (DaemonFailed err), f)
         | (Inr sd, f) \<Rightarrow> (Inr (DaemonBacking sd), f)))"

definition session_command :: "environ \<Rightarrow> session_backing \<Rightarrow> bytes \<Rightarrow> bytes \<Rightarrow> bytes list \<Rightarrow> command" where
  "session_command e b lib_path program args =
     (let cmd = command_env_remove SUPERVISE_VAR (command_args args (command_new program));
          cmd = (case b of
                   ShmBacking h m \<Rightarrow>
                     command_env SHM_LEN_ENV (bytes_of (show_nat (sm_len h)))
                       (command_env SHM_FD_ENV (bytes_of (show_i32 (sm_fd h))) cmd)
                 | DaemonBacking sd \<Rightarrow> command_env DAEMON_SOCKET_ENV (sd_socket_path sd) cmd)
      in apply_preload e lib_path cmd)"

text \<open>The descriptor of the table is made inheritable; \<open>FD_CLOEXEC\<close> is 1.\<close>

definition clear_cloexec :: "'f session_os \<Rightarrow> session_backing \<Rightarrow> 'f \<Rightarrow> 'f" where
  "clear_cloexec S b f =
     (case b of
        ShmBacking h m \<Rightarrow>
          (let flags = ss_getfd S (sm_fd h) f
           in if 0 \<le> sint flags then ss_setfd S (sm_fd h) (flags AND NOT 1) f else f)
      | DaemonBacking sd \<Rightarrow> f)"

text \<open>
  The session's daemon and its directory go away when the function returns, also after a failure
  to start the command.  \<open>None\<close>: dropping the daemon waits for its thread, which may not end.
\<close>

definition end_session :: "'f session_os \<Rightarrow> bytes \<Rightarrow> session_backing \<Rightarrow> 'f \<Rightarrow> 'f option" where
  "end_session S socket_dir b f =
     map_option (ss_remove_temp S socket_dir)
       (case b of
          ShmBacking h m \<Rightarrow> Some f
        | DaemonBacking sd \<Rightarrow> session_daemon_drop (ss_server S) (ss_join S) sd f)"

definition run_session ::
    "'f session_os \<Rightarrow> environ \<Rightarrow> bytes list \<Rightarrow> 'f \<Rightarrow> ((session_error + i32 option) \<times> 'f) option" where
  "run_session S e target_args f =
     (case target_args of
        [] \<Rightarrow> Some (Inl NoProgram, f)
      | program # args \<Rightarrow>
          (case library_path S e f of
             (None, f) \<Rightarrow> Some (Inl NoLibrary, f)
           | (Some lib_path, f) \<Rightarrow>
               (let uid = env_u32 e UID_ENV 0; gid = env_u32 e GID_ENV 0 in
                case ss_temp_dir S f of
                  (Inl err, f) \<Rightarrow> Some (Inl (TempDirFailed err), f)
                | (Inr socket_dir, f) \<Rightarrow>
                    (case start_backing S e socket_dir uid gid f of
                       (Inl err, f) \<Rightarrow> Some (Inl err, ss_remove_temp S socket_dir f)
                     | (Inr b, f) \<Rightarrow>
                         (case ss_status S (session_command e b lib_path program args) (clear_cloexec S b f) of
                            (r, f) \<Rightarrow>
                              map_option (Pair (case r of Inl err \<Rightarrow> Inl (ExecFailed err) | Inr st \<Rightarrow> Inr st))
                                (end_session S socket_dir b f))))))"

text \<open>
  \<open>init\<close>: the exit code, or no code for a normal launch; \<open>argv\<close> is the whole argument list.
\<close>

definition session_init ::
    "'f session_os \<Rightarrow> environ \<Rightarrow> bytes list \<Rightarrow> 'f \<Rightarrow> (i32 option \<times> 'f) option" where
  "session_init S e argv f =
     (if e SUPERVISE_VAR = None then Some (None, f)
      else
        map_option (\<lambda>(r, f).
            (Some (case r of Inr (Some code) \<Rightarrow> code | Inr None \<Rightarrow> 1 | Inl err \<Rightarrow> 1), f))
          (run_session S e (drop 1 argv) f))"

end
