(* ===== verification/Cli.thy ===== *)
theory Cli
  imports Session
begin

text \<open>
  The command-line programs (\<open>pseudoroot/src/bin/pdr.rs\<close> and \<open>pseudoroot-daemon/src/main.rs\<close>).  The
  arguments arrive parsed, as the structures the argument parser fills; a run ends with an exit
  code.  \<open>pdr_os\<close> holds the parameters: those of the session, the stream operations and encodings
  of the client, what a daemon's accept loop does, and whether the Ctrl-C handler can be set.
  Messages on the terminal are left out.
\<close>

record run_args =
  ra_uid :: u32
  ra_gid :: u32
  ra_daemon :: bool
  ra_socket_path :: "bytes option"

datatype action =
    RunAction "bytes list" run_args
  | StartAction "bytes option" u32 u32 bool bool
  | StopAction "bytes option"
  | StatusAction "bytes option"
  | PrintLibraryPathAction

record cli =
  cl_run :: run_args
  cl_action :: "action option"
  cl_command :: "bytes list"

record 'f pdr_os =
  po_session :: "'f session_os"
  po_codecs :: codecs
  po_streams :: "'f stream_ops"
  po_loop :: "fake_root_state \<Rightarrow> 'f \<Rightarrow> (io_error option \<times> 'f) option"
  po_set_handler :: bool

definition SUBCOMMANDS :: "bytes list" where
  "SUBCOMMANDS = map bytes_of
     [''run'', ''start'', ''stop'', ''status'', ''print-library-path'', ''help'']"

text \<open>
  The first argument is compared after \<open>to_string_lossy\<close>, which leaves ASCII bytes alone and puts
  a character outside ASCII for whatever is not UTF-8, so it equals an ASCII name, or starts
  with a dash, exactly when the bytes do.
\<close>

definition adjust_args :: "bytes list \<Rightarrow> bytes list" where
  "adjust_args argv =
     (case argv of
        prog # first # rest \<Rightarrow>
          (if first = bytes_of ''run'' \<or> first \<in> set SUBCOMMANDS \<or>
              (first \<noteq> [] \<and> hd first = of_char CHR ''-'')
           then argv else prog # bytes_of ''run'' # first # rest)
      | _ \<Rightarrow> argv)"

definition socket_or_default :: "bytes option \<Rightarrow> bytes" where
  "socket_or_default p = (case p of Some path \<Rightarrow> path | None \<Rightarrow> DEFAULT_SOCKET_PATH)"

text \<open>The command \<open>run_command\<close> hands to \<open>fakeroot\<close>.\<close>

definition run_base :: "bytes \<Rightarrow> bytes list \<Rightarrow> bool \<Rightarrow> bytes option \<Rightarrow> u32 \<Rightarrow> u32 \<Rightarrow> command" where
  "run_base program args daemon socket_path uid gid =
     (let base = command_args args (command_new program);
          base = command_env UID_ENV (bytes_of (show_nat (unat uid))) base;
          base = command_env GID_ENV (bytes_of (show_nat (unat gid))) base
      in if daemon then command_env DAEMON_SOCKET_ENV (socket_or_default socket_path) base else base)"

text \<open>\<open>None\<close> is the panic of \<open>fakeroot\<close>.\<close>

definition run_command ::
    "'f session_os \<Rightarrow> environ \<Rightarrow> bytes list \<Rightarrow> bool \<Rightarrow> bytes option \<Rightarrow> u32 \<Rightarrow> u32 \<Rightarrow> 'f \<Rightarrow> (i32 \<times> 'f) option"
where
  "run_command S e cmd_args daemon socket_path uid gid f =
     (case cmd_args of
        [] \<Rightarrow> Some (1, f)
      | program # args \<Rightarrow>
          (case fakeroot S e (run_base program args daemon socket_path uid gid) f of
             (None, f) \<Rightarrow> None
           | (Some cmd, f) \<Rightarrow>
               (case ss_status S cmd f of
                  (Inl err, f) \<Rightarrow> Some (1, f)
                | (Inr st, f) \<Rightarrow> Some (case st of Some code \<Rightarrow> code | None \<Rightarrow> 1, f))))"

definition print_library_path :: "'f session_os \<Rightarrow> environ \<Rightarrow> 'f \<Rightarrow> i32 \<times> 'f" where
  "print_library_path S e f =
     (case library_path S e f of (Some path, f) \<Rightarrow> (0, f) | (None, f) \<Rightarrow> (1, f))"

text \<open>\<open>None\<close>: the daemon never stops.\<close>

definition start_daemon ::
    "'f pdr_os \<Rightarrow> bytes option \<Rightarrow> u32 \<Rightarrow> u32 \<Rightarrow> bool \<Rightarrow> bool \<Rightarrow> 'f \<Rightarrow> (i32 \<times> 'f) option" where
  "start_daemon O' socket_path uid gid verbose cleanup f =
     (let socket_path = socket_or_default socket_path in
      if \<not> po_set_handler O' then Some (1, f)
      else
        map_option (\<lambda>(r, f). (case r of None \<Rightarrow> 0 | Some err \<Rightarrow> 1, f))
          (run_blocking (ss_server (po_session O')) (po_loop O') socket_path uid gid cleanup f))"

text \<open>What the Ctrl-C handler does before it exits with code 0.\<close>

definition on_interrupt :: "'f pdr_os \<Rightarrow> bytes \<Rightarrow> bool \<Rightarrow> 'f \<Rightarrow> 'f" where
  "on_interrupt O' socket_path cleanup f =
     (if cleanup then remove_socket (ss_server (po_session O')) socket_path f else f)"

definition stop_daemon :: "'f pdr_os \<Rightarrow> bytes option \<Rightarrow> 'f \<Rightarrow> i32 \<times> 'f" where
  "stop_daemon O' socket_path f =
     (let socket_path = socket_or_default socket_path in
      case ipc_connect (po_streams O') (ipc_new socket_path, f) of
        (Some err, channel, f) \<Rightarrow> (0, snd (so_remove_file (ss_server (po_session O')) socket_path f))
      | (None, channel, f) \<Rightarrow>
          (case ipc_request (po_codecs O') (po_streams O') channel
                  (pm_new Shutdown [] (fst (next_request_id REQUEST_ID_init))) f of
             (Inr response, f) \<Rightarrow> (0, f)
           | (Inl err, f) \<Rightarrow> (1, f)))"

definition check_daemon_status :: "'f pdr_os \<Rightarrow> bytes option \<Rightarrow> 'f \<Rightarrow> i32 \<times> 'f" where
  "check_daemon_status O' socket_path f =
     (case st_connect (po_streams O') (socket_or_default socket_path) f of
        (None, f) \<Rightarrow> (0, f)
      | (Some err, f) \<Rightarrow> (1, f))"

text \<open>
  \<open>pdr\<close>: the supervisor branch first, then the parsed action; \<open>parse\<close> is the argument parser.
\<close>

definition pdr_main ::
    "'f pdr_os \<Rightarrow> (bytes list \<Rightarrow> cli) \<Rightarrow> environ \<Rightarrow> bytes list \<Rightarrow> 'f \<Rightarrow> (i32 \<times> 'f) option" where
  "pdr_main O' parse e argv f =
     (case session_init (po_session O') e argv f of
        None \<Rightarrow> None
      | Some (Some code, f) \<Rightarrow> Some (code, f)
      | Some (None, f) \<Rightarrow>
          (let parsed = parse (adjust_args argv) in
           case cl_action parsed of
             Some (RunAction cmd run) \<Rightarrow>
               run_command (po_session O') e cmd (ra_daemon run) (ra_socket_path run) (ra_uid run) (ra_gid run) f
           | Some (StartAction socket_path uid gid verbose cleanup) \<Rightarrow>
               start_daemon O' socket_path uid gid verbose cleanup f
           | Some (StopAction socket_path) \<Rightarrow> Some (stop_daemon O' socket_path f)
           | Some (StatusAction socket_path) \<Rightarrow> Some (check_daemon_status O' socket_path f)
           | Some PrintLibraryPathAction \<Rightarrow> Some (print_library_path (po_session O') e f)
           | None \<Rightarrow>
               run_command (po_session O') e (cl_command parsed) (ra_daemon (cl_run parsed))
                 (ra_socket_path (cl_run parsed)) (ra_uid (cl_run parsed)) (ra_gid (cl_run parsed)) f))"

text \<open>\<open>pdrd\<close>, whose socket path has been defaulted by the argument parser.\<close>

definition pdrd_main :: "'f pdr_os \<Rightarrow> bytes \<Rightarrow> u32 \<Rightarrow> u32 \<Rightarrow> bool \<Rightarrow> bool \<Rightarrow> 'f \<Rightarrow> (i32 \<times> 'f) option" where
  "pdrd_main O' socket_path uid gid verbose cleanup f =
     (if \<not> po_set_handler O' then Some (1, f)
      else
        map_option (\<lambda>(r, f). (case r of None \<Rightarrow> 0 | Some err \<Rightarrow> 1, f))
          (run_blocking (ss_server (po_session O')) (po_loop O') socket_path uid gid cleanup f))"

end
