(* ===== verification/Session_Laws.thy ===== *)
theory Session_Laws
  imports Cli Ownership_Laws Hooks Shm_Properties
begin

text \<open>
  Facts about commands and their environments, and the process a session starts: how it begins,
  and that it joins the table its environment names.
\<close>

section \<open>Environments\<close>

text \<open>The variables of a command are a map: names occur once.\<close>

definition command_wf :: "command \<Rightarrow> bool" where
  "command_wf cmd \<longleftrightarrow> distinct (map fst (cm_vars cmd))"

lemma command_wf_intros [simp]:
  "command_wf c \<Longrightarrow> command_wf (command_env k v c)"
  "command_wf c \<Longrightarrow> command_wf (command_env_remove k c)"
  "command_wf (command_args as c) = command_wf c"
  "command_wf (command_current_dir d c) = command_wf c"
  "command_wf (command_new p)"
  by (simp_all add: command_wf_def distinct_vars)

lemma command_has_env_iff:
  "command_wf c \<Longrightarrow> command_has_env c k \<longleftrightarrow> (\<exists>v. map_of (cm_vars c) k = Some (Some v))"
  by (auto simp: command_has_env_def command_wf_def)

lemma env_in_command_eq:
  assumes "command_wf c"
  shows "env_in_command c k = Option.bind (map_of (cm_vars c) k) id"
proof -
  have "find (\<lambda>(k', v). k' = k \<and> v \<noteq> None) xs =
      (case map_of xs k of Some (Some v) \<Rightarrow> Some (k, Some v) | _ \<Rightarrow> None)"
    if "distinct (map fst xs)" for xs :: "(bytes \<times> bytes option) list"
    using that
  proof (induction xs)
    case (Cons x xs)
    moreover have "fst x \<notin> set (map fst xs)" using Cons.prems by simp
    then have "map_of xs (fst x) = None" by (simp add: map_of_eq_None_iff)
    ultimately show ?case by (cases x) (auto split: option.splits)
  qed simp
  then show ?thesis
    using assms by (simp add: env_in_command_def command_wf_def split: option.split)
qed

lemma ensure_default_env_simps:
  assumes "command_wf c"
  shows "command_wf (ensure_default_env e k d c)"
    and "cm_program (ensure_default_env e k d c) = cm_program c"
    and "cm_args (ensure_default_env e k d c) = cm_args c"
    and "cm_dir (ensure_default_env e k d c) = cm_dir c"
    and "cm_clear (ensure_default_env e k d c) = cm_clear c"
    and "map_of (cm_vars (ensure_default_env e k d c)) = (map_of (cm_vars c))
      (k := if (\<exists>v. map_of (cm_vars c) k = Some (Some v)) \<or> e k \<noteq> None then map_of (cm_vars c) k
            else Some (Some d))"
  using assms by (auto simp: ensure_default_env_def command_has_env_iff fun_eq_iff)

lemma names_distinct [simp]:
  "UID_ENV \<noteq> GID_ENV" "GID_ENV \<noteq> UID_ENV" "PRELOAD_ENV \<noteq> UID_ENV" "UID_ENV \<noteq> PRELOAD_ENV"
  "PRELOAD_ENV \<noteq> GID_ENV" "GID_ENV \<noteq> PRELOAD_ENV" "SUPERVISE_VAR \<noteq> UID_ENV" "UID_ENV \<noteq> SUPERVISE_VAR"
  "SUPERVISE_VAR \<noteq> GID_ENV" "GID_ENV \<noteq> SUPERVISE_VAR" "SUPERVISE_VAR \<noteq> PRELOAD_ENV"
  "PRELOAD_ENV \<noteq> SUPERVISE_VAR" "SHM_FD_ENV \<noteq> UID_ENV" "UID_ENV \<noteq> SHM_FD_ENV" "SHM_FD_ENV \<noteq> GID_ENV"
  "GID_ENV \<noteq> SHM_FD_ENV" "SHM_FD_ENV \<noteq> PRELOAD_ENV" "PRELOAD_ENV \<noteq> SHM_FD_ENV" "SHM_LEN_ENV \<noteq> UID_ENV"
  "UID_ENV \<noteq> SHM_LEN_ENV" "SHM_LEN_ENV \<noteq> GID_ENV" "GID_ENV \<noteq> SHM_LEN_ENV" "SHM_LEN_ENV \<noteq> PRELOAD_ENV"
  "PRELOAD_ENV \<noteq> SHM_LEN_ENV" "SHM_LEN_ENV \<noteq> SHM_FD_ENV" "SHM_FD_ENV \<noteq> SHM_LEN_ENV"
  "SHM_LEN_ENV \<noteq> SUPERVISE_VAR" "SUPERVISE_VAR \<noteq> SHM_LEN_ENV" "SHM_FD_ENV \<noteq> SUPERVISE_VAR"
  "SUPERVISE_VAR \<noteq> SHM_FD_ENV" "DAEMON_SOCKET_ENV \<noteq> UID_ENV" "UID_ENV \<noteq> DAEMON_SOCKET_ENV"
  "DAEMON_SOCKET_ENV \<noteq> GID_ENV" "GID_ENV \<noteq> DAEMON_SOCKET_ENV" "DAEMON_SOCKET_ENV \<noteq> PRELOAD_ENV"
  "PRELOAD_ENV \<noteq> DAEMON_SOCKET_ENV" "DAEMON_SOCKET_ENV \<noteq> SUPERVISE_VAR" "SUPERVISE_VAR \<noteq> DAEMON_SOCKET_ENV"
  "DAEMON_SOCKET_ENV \<noteq> SHM_FD_ENV" "SHM_FD_ENV \<noteq> DAEMON_SOCKET_ENV" "DAEMON_SOCKET_ENV \<noteq> SHM_LEN_ENV"
  "SHM_LEN_ENV \<noteq> DAEMON_SOCKET_ENV" "STANDALONE_ENV \<noteq> UID_ENV" "STANDALONE_ENV \<noteq> GID_ENV"
  "UID_ENV \<noteq> STANDALONE_ENV" "GID_ENV \<noteq> STANDALONE_ENV" "SESSION_SHM_ENV \<noteq> UID_ENV" "SESSION_SHM_ENV \<noteq> GID_ENV"
  "SESSION_SHM_ENV \<noteq> SUPERVISE_VAR" "STANDALONE_ENV \<noteq> DAEMON_SOCKET_ENV" "DAEMON_SOCKET_ENV \<noteq> STANDALONE_ENV"
  by (simp_all add: env_names bytes_of_def)

text \<open>What preloading leaves in the environment of the command it is applied to.\<close>

definition preload_value :: "environ \<Rightarrow> command \<Rightarrow> bytes \<Rightarrow> bytes" where
  "preload_value e cmd lib =
     (case Option.bind (map_of (cm_vars cmd) PRELOAD_ENV) id of
        Some x \<Rightarrow> x @ bytes_of '':'' @ lib
      | None \<Rightarrow> (case e PRELOAD_ENV of Some x \<Rightarrow> x @ bytes_of '':'' @ lib | None \<Rightarrow> lib))"

lemma apply_preload_env:
  assumes "command_wf c" and "\<not> cm_clear c"
  shows "child_env e (apply_preload e lib c) k =
    (if k = PRELOAD_ENV then Some (preload_value e c lib)
     else if (k = UID_ENV \<or> k = GID_ENV) \<and> e k = None \<and> child_env e c k = None then Some (bytes_of ''0'')
     else child_env e c k)"
    and "cm_program (apply_preload e lib c) = cm_program c" and "cm_args (apply_preload e lib c) = cm_args c"
    and "cm_dir (apply_preload e lib c) = cm_dir c"
proof -
  let ?c1 = "ensure_default_env e UID_ENV (bytes_of ''0'') c"
  let ?c2 = "ensure_default_env e GID_ENV (bytes_of ''0'') ?c1"
  note D1 = ensure_default_env_simps [OF assms(1), of e UID_ENV "bytes_of ''0''"]
  note D2 = ensure_default_env_simps [OF D1(1), of e GID_ENV "bytes_of ''0''"]
  have "env_in_command ?c2 PRELOAD_ENV = Option.bind (map_of (cm_vars c) PRELOAD_ENV) id"
    by (simp add: env_in_command_eq [OF D2(1)] D1 D2)
  then have eq: "apply_preload e lib c = command_env PRELOAD_ENV (preload_value e c lib) ?c2"
    by (simp add: apply_preload_def preload_value_def Let_def cong: option.case_cong)
  show "cm_program (apply_preload e lib c) = cm_program c" "cm_args (apply_preload e lib c) = cm_args c"
    "cm_dir (apply_preload e lib c) = cm_dir c"
    by (simp_all add: eq D1 D2)
  show "child_env e (apply_preload e lib c) k =
    (if k = PRELOAD_ENV then Some (preload_value e c lib)
     else if (k = UID_ENV \<or> k = GID_ENV) \<and> e k = None \<and> child_env e c k = None then Some (bytes_of ''0'')
     else child_env e c k)"
    using assms(2) by (simp add: eq) (auto simp: child_env_def D1 D2 split: option.split)
qed

lemma copy_envs_simps:
  assumes "command_wf base" and "\<not> cm_clear c" and "command_wf c"
  shows "map_of (cm_vars (copy_envs base c)) = map_of (cm_vars c) ++ map_of (cm_vars base)"
    and "cm_program (copy_envs base c) = cm_program c" and "cm_args (copy_envs base c) = cm_args c"
    and "cm_dir (copy_envs base c) = cm_dir c" and "\<not> cm_clear (copy_envs base c)"
    and "command_wf (copy_envs base c)"
proof -
  let ?f = "\<lambda>(key, v) cmd. case v of Some v \<Rightarrow> command_env key v cmd | None \<Rightarrow> command_env_remove key cmd"
  have "distinct (map fst xs) \<Longrightarrow> \<not> cm_clear c \<Longrightarrow> command_wf c \<Longrightarrow>
      map_of (cm_vars (fold ?f xs c)) = map_of (cm_vars c) ++ map_of xs \<and>
      cm_program (fold ?f xs c) = cm_program c \<and> cm_args (fold ?f xs c) = cm_args c \<and>
      cm_dir (fold ?f xs c) = cm_dir c \<and> \<not> cm_clear (fold ?f xs c) \<and> command_wf (fold ?f xs c)" for xs c
  proof (induction xs arbitrary: c)
    case (Cons x xs)
    obtain k v where x: "x = (k, v)" by (cases x)
    have "map_of xs k = None" using Cons.prems(1) by (simp add: x map_of_eq_None_iff)
    with Cons show ?case by (cases v) (simp_all add: x map_add_upd_left map_add_def fun_eq_iff split: option.split)
  qed simp
  from this [of "cm_vars base" c] assms
  show "map_of (cm_vars (copy_envs base c)) = map_of (cm_vars c) ++ map_of (cm_vars base)"
    "cm_program (copy_envs base c) = cm_program c" "cm_args (copy_envs base c) = cm_args c"
    "cm_dir (copy_envs base c) = cm_dir c" "\<not> cm_clear (copy_envs base c)" "command_wf (copy_envs base c)"
    by (simp_all add: copy_envs_def command_wf_def)
qed

lemma child_env_vars: "\<not> cm_clear c \<Longrightarrow> child_env e c k = (case map_of (cm_vars c) k of Some v \<Rightarrow> v | None \<Rightarrow> e k)"
  by (simp add: child_env_def)

lemma command_dir_wf [simp]:
  "command_wf (copy_dir b c) = command_wf c" "cm_program (copy_dir b c) = cm_program c"
  "cm_args (copy_dir b c) = cm_args c" "cm_clear (copy_dir b c) = cm_clear c"
  "cm_vars (copy_dir b c) = cm_vars c"
  by (simp_all add: copy_dir_def split: option.split)

lemma child_env_copy_dir [simp]: "child_env e (copy_dir b c) = child_env e c"
  by (simp add: child_env_def fun_eq_iff)

text \<open>The two commands \<open>fakeroot\<close> builds.\<close>

lemma supervise_command:
  assumes "command_wf base"
  shows "cm_program (build_supervise_command base) = supervisor_exe"
    and "cm_args (build_supervise_command base) = cm_program base # cm_args base"
    and "\<not> cm_clear base \<Longrightarrow> map_of (cm_vars base) SUPERVISE_VAR = None \<Longrightarrow>
      child_env e (build_supervise_command base) = (child_env e base)(SUPERVISE_VAR \<mapsto> bytes_of ''1'')"
  using copy_envs_simps [OF assms, of "command_args (cm_program base # cm_args base)
      (command_env SUPERVISE_VAR (bytes_of ''1'') (command_new supervisor_exe))"]
  by (auto simp: build_supervise_command_def child_env_def fun_eq_iff map_add_def split: option.split)

lemma clone_command:
  assumes "command_wf base" and "\<not> cm_clear base"
  shows "cm_program (clone_command base) = cm_program base" and "cm_args (clone_command base) = cm_args base"
    and "command_wf (clone_command base)" and "\<not> cm_clear (clone_command base)"
    and "child_env e (clone_command base) = child_env e base"
    and "map_of (cm_vars (clone_command base)) = map_of (cm_vars base)"
  using copy_envs_simps [OF assms(1), of "command_args (cm_args base) (command_new (cm_program base))"] assms(2)
  by (simp_all add: clone_command_def child_env_def fun_eq_iff)

lemma run_base_simps:
  "command_wf (run_base p as d sp u g)" "\<not> cm_clear (run_base p as d sp u g)"
  "cm_program (run_base p as d sp u g) = p" "cm_args (run_base p as d sp u g) = as"
  "map_of (cm_vars (run_base p as d sp u g)) =
     (if d then [UID_ENV \<mapsto> Some (bytes_of (show_nat (unat u))), GID_ENV \<mapsto> Some (bytes_of (show_nat (unat g))),
        DAEMON_SOCKET_ENV \<mapsto> Some (socket_or_default sp)]
      else [UID_ENV \<mapsto> Some (bytes_of (show_nat (unat u))), GID_ENV \<mapsto> Some (bytes_of (show_nat (unat g)))])"
  by (simp_all add: run_base_def Let_def)

lemma env_u32_show: "e k = Some (bytes_of (show_nat (unat u))) \<Longrightarrow> env_u32 e k d = u"
  by (simp add: env_u32_def parse_u32_show)

lemma parse_id_show: "parse_id (Some (bytes_of (show_nat (unat u)))) = u"
  by (simp add: parse_id_def parse_u32_show)

section \<open>The process a session starts\<close>

text \<open>
  A process right after it was loaded with the interposed library under an environment: the
  statics as they are initialised, the shared memory \<open>m\<close> behind the inherited descriptor, and
  the constructor run.
\<close>

definition process_start :: "environ \<Rightarrow> shm_mem \<Rightarrow> 'w \<Rightarrow> 'k \<Rightarrow> ('w, 'k) interpose" where
  "process_start e m net k =
     h_init (e UID_ENV) (e GID_ENV)
       \<lparr>ip_init_done = False, ip_initializing = False, ip_ctor_done = False, ip_init_once = False,
        ip_session_once = False, ip_boot_uid = 0, ip_boot_gid = 0, ip_fs_uid = 0xFFFFFFFF,
        ip_fs_gid = 0xFFFFFFFF, ip_global = None,
        ip_shm = \<lparr>sc_env_fd = e SHM_FD_ENV, sc_env_len = e SHM_LEN_ENV, sc_map = None,
          sc_active = False, sc_mem = m\<rparr>,
        ip_link = \<lparr>dl_env = e DAEMON_SOCKET_ENV, dl_channel = None, dl_connected = False,
          dl_next_id = REQUEST_ID_init, dl_net = net\<rparr>,
        ip_kernel = k\<rparr>"

lemma process_start_sel [simp]:
  "ip_shm (process_start e m net k) = \<lparr>sc_env_fd = e SHM_FD_ENV, sc_env_len = e SHM_LEN_ENV,
     sc_map = None, sc_active = False, sc_mem = m\<rparr>"
  "ip_link (process_start e m net k) = \<lparr>dl_env = e DAEMON_SOCKET_ENV, dl_channel = None,
     dl_connected = False, dl_next_id = REQUEST_ID_init, dl_net = net\<rparr>"
  "ip_boot_uid (process_start e m net k) = parse_id (e UID_ENV)"
  "ip_boot_gid (process_start e m net k) = parse_id (e GID_ENV)"
  "ip_init_done (process_start e m net k) = False"
  by (simp_all add: process_start_def h_init_def store_bootstrap_ids_def)

lemma process_start_loaded [simp]: "loaded (process_start e m net k)"
  by (simp add: process_start_def h_init_def store_bootstrap_ids_def loaded_def)

lemma parse_i32_show:
  assumes "0 \<le> sint fd"
  shows "env_string (Some (bytes_of (show_i32 fd))) = Some (show_i32 fd) \<and> parse_i32 (show_i32 fd) = Some fd"
proof -
  have signed: "sint fd = signed_take_bit 31 (uint fd)" by (simp add: sint_uint)
  with assms have "\<not> bit (uint fd) 31" by (simp add: signed_take_bit_nonnegative_iff)
  moreover have "take_bit (Suc 31) (uint fd) = uint fd"
    using uint_lt2p [of fd] by (intro take_bit_int_eq_self) simp_all
  ultimately have low: "take_bit 31 (uint fd) = uint fd"
    using take_bit_Suc_from_most [of 31 "uint fd"] by simp
  then have sint: "sint fd = uint fd"
    using \<open>\<not> bit (uint fd) 31\<close> by (simp add: signed signed_take_bit_eq_if_positive)
  have "uint fd < 2 ^ 31" using take_bit_int_less_exp [of 31 "uint fd"] by (simp only: low)
  then have "int (unat fd) < int (2 ^ 31)" by simp
  then have fd: "unat fd < 2 ^ 31" "show_i32 fd = show_nat (unat fd)"
    by (simp_all only: of_nat_less_iff show_i32_def sint) (simp flip: unat_eq_nat_uint)
  obtain c cs where s: "show_nat (unat fd) = c # cs" by (cases "show_nat (unat fd)") auto
  then have "c \<noteq> CHR ''-''" using show_nat_digits [of c "unat fd"] by (auto simp: digit_val_def)
  with s fd show ?thesis using parse_unsigned_show [of "unat fd" "2 ^ 31"] env_string_show [of "unat fd"]
    by (simp add: parse_i32_def)
qed

lemma attach_inherited:
  assumes "shm_create os sc uid gid = Inr (h, m)" and "shm_inv c h m'" and "sh_header m' = sh_header m"
    and "0 \<le> sint (os_dup (osf (sm_fd h)))" and "os_mmap_ok (osf (sm_fd h))"
    and "s = \<lparr>sc_env_fd = Some (bytes_of (show_i32 (sm_fd h))),
      sc_env_len = Some (bytes_of (show_nat (sm_len h))), sc_map = None, sc_active = False, sc_mem = m'\<rparr>"
  obtains s' where "init_shm_from_env osf s = (True, s')" "shm_attached c s'" "sc_mem s' = m'"
    "\<And>k. sc_get_inode c k s' = shm_get_inode c h m' k"
proof -
  let ?h = "\<lparr>sm_len = sm_len h, sm_slot_count = sm_slot_count h, sm_fd = os_dup (osf (sm_fd h))\<rparr>"
  have "0 \<le> sint (sm_fd h)"
    using assms(1) by (auto simp: shm_create_def Let_def split: option.splits if_splits)
  then have "init_shm_from_env osf s = (True, s\<lparr>sc_map := Some ?h, sc_active := True\<rparr>)"
    using parse_i32_show [of "sm_fd h"] from_fd_created [OF assms(1,3-5)]
    by (simp add: init_shm_from_env_def assms(6))
  then show thesis
    using that from_fd_same [OF assms(2)]
    by (simp add: assms(6) shm_attached_def sc_get_inode_def sc_the_map_def shm_mode_active_def)
qed

text \<open>A process started with the variables of a table joins it on its first use.\<close>

lemma start_joins_table:
  assumes "shm_create os sc uid gid = Inr (h, m)" and "shm_inv (se_xattrs P) h m'" and "sh_header m' = sh_header m"
    and "0 \<le> sint (os_dup (se_shm_os P (sm_fd h)))" and "os_mmap_ok (se_shm_os P (sm_fd h))"
    and "e SHM_FD_ENV = Some (bytes_of (show_i32 (sm_fd h)))" and "e SHM_LEN_ENV = Some (bytes_of (show_nat (sm_len h)))"
  shows "shm_session P (ensure_library_init P (process_start e m' net k))"
    and "session_ids (ensure_library_init P (process_start e m' net k)) = (uid, gid)"
    and "session_view P (ensure_library_init P (process_start e m' net k)) = shm_get_inode (se_xattrs P) h m'"
    and "ip_link (ensure_library_init P (process_start e m' net k)) = ip_link (process_start e m' net k)"
proof -
  let ?w = "process_start e m' net k"
  have start: "ip_shm ?w = \<lparr>sc_env_fd = Some (bytes_of (show_i32 (sm_fd h))),
      sc_env_len = Some (bytes_of (show_nat (sm_len h))), sc_map = None, sc_active = False, sc_mem = m'\<rparr>"
    by (simp add: assms(6,7))
  obtain s where s: "init_shm_from_env (se_shm_os P) (ip_shm ?w) = (True, s)" "shm_attached (se_xattrs P) s"
      "sc_mem s = m'" "\<And>k. sc_get_inode (se_xattrs P) k s = shm_get_inode (se_xattrs P) h m' k"
    by (rule attach_inherited [where osf = "se_shm_os P", OF assms(1-5) start]) blast
  note J = join_shm [OF process_start_loaded s(1,2)]
  note V = shm_session_view [OF J(2)]
  show "shm_session P (ensure_library_init P ?w)" using J by simp
  have "shm_current_uid m' = uid" "shm_current_gid m' = gid"
    by (simp_all add: shm_current_uid_def shm_current_gid_def assms(3) shm_create_success(4) [OF assms(1)])
  then show "session_ids (ensure_library_init P ?w) = (uid, gid)" using V s(3) by (simp add: J(1))
  show "session_view P (ensure_library_init P ?w) = shm_get_inode (se_xattrs P) h m'"
    using V s(4) by (simp add: J(1) fun_eq_iff)
  show "ip_link (ensure_library_init P ?w) = ip_link ?w" by (simp add: J(1))
qed

text \<open>Before that, the ids are those of its environment.\<close>

lemma start_ids:
  assumes "e UID_ENV = Some (bytes_of (show_nat (unat uid)))" and "e GID_ENV = Some (bytes_of (show_nat (unat gid)))"
  shows "h_getuid P (process_start e m net k) = (uid, process_start e m net k)"
    and "h_getgid P (process_start e m net k) = (gid, process_start e m net k)"
  using assms by (simp_all add: h_getuid_def h_getgid_def current_fake_uid_def current_fake_gid_def parse_id_show)

text \<open>The command \<open>pdr\<close> runs and the environment of its supervisor.\<close>

lemma supervisor_environment:
  assumes "base = run_base program args False None uid gid"
  shows "child_env e (build_supervise_command base) =
    e(UID_ENV \<mapsto> bytes_of (show_nat (unat uid)), GID_ENV \<mapsto> bytes_of (show_nat (unat gid)),
      SUPERVISE_VAR \<mapsto> bytes_of ''1'')"
    and "cm_args (build_supervise_command base) = program # args"
    and "session_supervision_enabled e base \<longleftrightarrow> e SUPERVISE_VAR = None \<and>
      env_var e DAEMON_SOCKET_ENV = None \<and> env_var e STANDALONE_ENV = None"
proof -
  have base: "command_wf base" "\<not> cm_clear base" "cm_program base = program" "cm_args base = args"
      "map_of (cm_vars base) = [UID_ENV \<mapsto> Some (bytes_of (show_nat (unat uid))), GID_ENV \<mapsto> Some (bytes_of (show_nat (unat gid)))]"
    by (simp_all add: assms run_base_simps)
  have "child_env e base = e(UID_ENV \<mapsto> bytes_of (show_nat (unat uid)), GID_ENV \<mapsto> bytes_of (show_nat (unat gid)))"
    using base(2,5) by (simp add: child_env_def fun_eq_iff)
  then show "child_env e (build_supervise_command base) =
    e(UID_ENV \<mapsto> bytes_of (show_nat (unat uid)), GID_ENV \<mapsto> bytes_of (show_nat (unat gid)),
      SUPERVISE_VAR \<mapsto> bytes_of ''1'')"
    using supervise_command(3) [OF base(1,2), of e] base(5) by simp
  show "cm_args (build_supervise_command base) = program # args"
    using base(3,4) by (simp add: supervise_command(2) [OF base(1)])
  show "session_supervision_enabled e base \<longleftrightarrow> e SUPERVISE_VAR = None \<and>
      env_var e DAEMON_SOCKET_ENV = None \<and> env_var e STANDALONE_ENV = None"
    using base(5) by (simp add: session_supervision_enabled_def command_has_env_iff [OF base(1)])
qed

end
