(* ===== verification/Library_Init.thy ===== *)
theory Library_Init
  imports Library_Race Session_Laws
begin

text \<open>
  Several threads of one process that use the library for the first time at once
  (\<open>ensure_library_init\<close>, \<open>finish_library_init\<close> and \<open>ensure_session_backing_init\<close> in
  \<open>pseudoroot/interpose/src/ownership.rs\<close>).  The threads share the statics of \<open>interpose\<close>; one
  step is one load or store of an atomic, one call made under a lock, or entering or leaving
  the body of a \<open>Once\<close>.  A thread that comes to a \<open>Once\<close> whose body a thread runs waits, also
  when it is that thread itself: the documentation of \<open>Once\<close> has a deadlock or a panic there.

  That happens.  The body of the second \<open>Once\<close> maps the table, and \<open>from_fd\<close>
  (\<open>pseudoroot-core/src/shm_map.rs\<close>) calls \<open>libc::fstat\<close> when \<open>PSEUDOROOT_SHM_LEN\<close> is missing
  or unusable.  In the library that is the exported hook \<open>fstat\<close>, whose \<open>modify_stat_buf\<close>
  leaves early only while \<open>LIBRARY_INITIALIZING\<close> is set and otherwise comes back to the same
  \<open>Once\<close>; the steps \<open>HookStat\<close>, \<open>HookDone\<close> and \<open>HookSession\<close> are this way back.
\<close>

section \<open>The steps of a thread\<close>

datatype init_pc =
    CheckDone
  | CheckCtor
  | CheckInitializing
  | EnterInit
  | MarkInitializing
  | LoadUid
  | LoadGid u32
  | StoreIds u32 u32
  | MarkDone
  | ClearInitializing
  | LeaveInit
  | EnterSession
  | MapTable
  | HookStat
  | HookDone
  | HookSession
  | CheckMode
  | LoadSessionUid
  | LoadSessionGid u32
  | ConnectDaemon u32 u32
  | InitDaemon u32 u32
  | LeaveSession
  | Returned_Early
  | Returned

text \<open>
  \<open>ip_init_once\<close> and \<open>ip_session_once\<close> are set once a body is begun; the owners are the threads
  that run one now.
\<close>

record ('w, 'k) init_threads =
  lt_world :: "('w, 'k) interpose"
  lt_pc :: "nat \<Rightarrow> init_pc"
  lt_init_owner :: "nat option"
  lt_session_owner :: "nat option"

definition go :: "nat \<Rightarrow> init_pc \<Rightarrow> ('w, 'k) init_threads \<Rightarrow> ('w, 'k) init_threads" where
  "go t pc s = s\<lparr>lt_pc := (lt_pc s)(t := pc)\<rparr>"

definition in_world ::
    "(('w, 'k) interpose \<Rightarrow> ('w, 'k) interpose) \<Rightarrow> ('w, 'k) init_threads \<Rightarrow> ('w, 'k) init_threads" where
  "in_world f s = s\<lparr>lt_world := f (lt_world s)\<rparr>"

text \<open>What mapping the table leaves, once \<open>from_fd\<close> has its length.\<close>

definition map_table :: "('w, 'k) params \<Rightarrow> ('w, 'k) interpose \<Rightarrow> ('w, 'k) interpose" where
  "map_table P w = w\<lparr>ip_shm := snd (init_shm_from_env (se_shm_os P) (ip_shm w))\<rparr>"

definition init_step ::
    "('w, 'k) params \<Rightarrow> nat \<Rightarrow> ('w, 'k) init_threads \<Rightarrow> ('w, 'k) init_threads" where
  "init_step P t s =
     (let w = lt_world s in
      case lt_pc s t of
        CheckDone \<Rightarrow> go t (if ip_init_done w then EnterSession else CheckCtor) s
      | CheckCtor \<Rightarrow> go t (if ip_ctor_done w then CheckInitializing else Returned_Early) s
      | CheckInitializing \<Rightarrow> go t (if ip_initializing w then Returned_Early else EnterInit) s
      | EnterInit \<Rightarrow>
          if \<not> ip_init_once w then
            go t MarkInitializing (in_world (\<lambda>w. w\<lparr>ip_init_once := True\<rparr>) (s\<lparr>lt_init_owner := Some t\<rparr>))
          else if lt_init_owner s = None then go t EnterSession s
          else s
      | MarkInitializing \<Rightarrow> go t LoadUid (in_world (\<lambda>w. w\<lparr>ip_initializing := True\<rparr>) s)
      | LoadUid \<Rightarrow> go t (LoadGid (ip_boot_uid w)) s
      | LoadGid uid \<Rightarrow> go t (StoreIds uid (ip_boot_gid w)) s
      | StoreIds uid gid \<Rightarrow> go t MarkDone (in_world (global_update (frs_set_current uid gid)) s)
      | MarkDone \<Rightarrow> go t ClearInitializing (in_world (\<lambda>w. w\<lparr>ip_init_done := True\<rparr>) s)
      | ClearInitializing \<Rightarrow> go t LeaveInit (in_world (\<lambda>w. w\<lparr>ip_initializing := False\<rparr>) s)
      | LeaveInit \<Rightarrow> go t EnterSession (s\<lparr>lt_init_owner := None\<rparr>)
      | EnterSession \<Rightarrow>
          if \<not> ip_session_once w then
            go t MapTable (in_world (\<lambda>w. w\<lparr>ip_session_once := True\<rparr>) (s\<lparr>lt_session_owner := Some t\<rparr>))
          else if lt_session_owner s = None then go t Returned s
          else s
      | MapTable \<Rightarrow>
          if init_shm_stats (se_shm_os P) (ip_shm w) then go t HookStat s
          else go t CheckMode (in_world (map_table P) s)
      | HookStat \<Rightarrow>
          if ip_initializing w then go t CheckMode (in_world (map_table P) s) else go t HookDone s
      | HookDone \<Rightarrow> if ip_init_done w then go t HookSession s else s
      | HookSession \<Rightarrow>
          if lt_session_owner s = None then go t CheckMode (in_world (map_table P) s) else s
      | CheckMode \<Rightarrow>
          go t (if shm_mode_active (ip_shm w) \<or> \<not> daemon_mode_enabled (ip_link w) then LeaveSession
                else LoadSessionUid) s
      | LoadSessionUid \<Rightarrow> go t (LoadSessionGid (ip_boot_uid w)) s
      | LoadSessionGid uid \<Rightarrow> go t (ConnectDaemon uid (ip_boot_gid w)) s
      | ConnectDaemon uid gid \<Rightarrow>
          go t (InitDaemon uid gid)
            (in_world (\<lambda>w. w\<lparr>ip_link := snd (init_daemon_connection (se_ops P) (ip_link w))\<rparr>) s)
      | InitDaemon uid gid \<Rightarrow>
          go t LeaveSession
            (in_world (\<lambda>w. w\<lparr>ip_link := snd (daemon_init (se_codecs P) (se_ops P) uid gid (ip_link w))\<rparr>) s)
      | LeaveSession \<Rightarrow> go t Returned (s\<lparr>lt_session_owner := None\<rparr>)
      | Returned_Early \<Rightarrow> s
      | Returned \<Rightarrow> s)"

definition run_init ::
    "('w, 'k) params \<Rightarrow> nat list \<Rightarrow> ('w, 'k) init_threads \<Rightarrow> ('w, 'k) init_threads" where
  "run_init P schedule s = fold (init_step P) schedule s"

text \<open>
  (At \<open>HookDone\<close> the first initialisation is over, \<open>init_inv\<close> below, so that its other branch is
  never taken.)  All threads before their call:
\<close>

definition init_start :: "('w, 'k) interpose \<Rightarrow> ('w, 'k) init_threads" where
  "init_start w = \<lparr>lt_world = w, lt_pc = (\<lambda>_. CheckDone), lt_init_owner = None, lt_session_owner = None\<rparr>"

section \<open>What holds at every step\<close>

text \<open>
  The state after the constructor, after the first body, with the table mapped, with the daemon
  connected and at the end; \<open>ip_initializing\<close> is left out, since the session may be joined by
  another thread before the first one clears it.
\<close>

definition marked :: "('w, 'k) interpose \<Rightarrow> ('w, 'k) interpose" where
  "marked w = w\<lparr>ip_init_once := True, ip_initializing := True\<rparr>"

definition with_ids :: "('w, 'k) interpose \<Rightarrow> ('w, 'k) interpose" where
  "with_ids w = global_update (frs_set_current (ip_boot_uid w) (ip_boot_gid w)) (marked w)"

definition settled :: "('w, 'k) interpose \<Rightarrow> ('w, 'k) interpose" where
  "settled w = w\<lparr>ip_initializing := False\<rparr>"

definition first_done :: "('w, 'k) interpose \<Rightarrow> ('w, 'k) interpose" where
  "first_done w = (with_ids w)\<lparr>ip_init_done := True, ip_initializing := False\<rparr>"

definition table_mapped :: "('w, 'k) params \<Rightarrow> ('w, 'k) interpose \<Rightarrow> ('w, 'k) interpose" where
  "table_mapped P w = (first_done w)\<lparr>ip_session_once := True,
     ip_shm := snd (init_shm_from_env (se_shm_os P) (ip_shm w))\<rparr>"

definition daemon_connected :: "('w, 'k) params \<Rightarrow> ('w, 'k) interpose \<Rightarrow> ('w, 'k) interpose" where
  "daemon_connected P w = (table_mapped P w)\<lparr>ip_link := snd (init_daemon_connection (se_ops P) (ip_link w))\<rparr>"


fun session_owner_ok ::
    "('w, 'k) params \<Rightarrow> ('w, 'k) interpose \<Rightarrow> init_pc \<Rightarrow> ('w, 'k) interpose \<Rightarrow> bool" where
  "session_owner_ok P w0 MapTable w = (settled w = (first_done w0)\<lparr>ip_session_once := True\<rparr>)"
| "session_owner_ok P w0 HookStat w = (settled w = (first_done w0)\<lparr>ip_session_once := True\<rparr> \<and>
     init_shm_stats (se_shm_os P) (ip_shm w0))"
| "session_owner_ok P w0 HookDone w = (settled w = (first_done w0)\<lparr>ip_session_once := True\<rparr> \<and>
     init_shm_stats (se_shm_os P) (ip_shm w0))"
| "session_owner_ok P w0 HookSession w = (settled w = (first_done w0)\<lparr>ip_session_once := True\<rparr> \<and>
     init_shm_stats (se_shm_os P) (ip_shm w0))"
| "session_owner_ok P w0 CheckMode w = (settled w = table_mapped P w0)"
| "session_owner_ok P w0 LoadSessionUid w = (settled w = table_mapped P w0 \<and>
     \<not> (shm_mode_active (ip_shm w) \<or> \<not> daemon_mode_enabled (ip_link w)))"
| "session_owner_ok P w0 (LoadSessionGid uid) w = (settled w = table_mapped P w0 \<and> uid = ip_boot_uid w0 \<and>
     \<not> (shm_mode_active (ip_shm w) \<or> \<not> daemon_mode_enabled (ip_link w)))"
| "session_owner_ok P w0 (ConnectDaemon uid gid) w = (settled w = table_mapped P w0 \<and> uid = ip_boot_uid w0 \<and>
     gid = ip_boot_gid w0 \<and> \<not> (shm_mode_active (ip_shm w) \<or> \<not> daemon_mode_enabled (ip_link w)))"
| "session_owner_ok P w0 (InitDaemon uid gid) w = (settled w = daemon_connected P w0 \<and> uid = ip_boot_uid w0 \<and>
     gid = ip_boot_gid w0 \<and> \<not> (shm_mode_active (ip_shm (table_mapped P w0)) \<or> \<not> daemon_mode_enabled (ip_link w0)))"
| "session_owner_ok P w0 LeaveSession w = (settled w = ensure_library_init P w0)"
| "session_owner_ok P w0 pc w = False"




section \<open>Every step keeps it\<close>

lemma settled_sel [simp]:
  "ip_init_done (settled w) = ip_init_done w" "ip_session_once (settled w) = ip_session_once w"
  "ip_shm (settled w) = ip_shm w" "ip_link (settled w) = ip_link w" "ip_boot_uid (settled w) = ip_boot_uid w"
  "ip_boot_gid (settled w) = ip_boot_gid w" "ip_init_once (settled w) = ip_init_once w"
  "settled (w\<lparr>ip_initializing := b\<rparr>) = settled w" "settled (w\<lparr>ip_shm := x\<rparr>) = (settled w)\<lparr>ip_shm := x\<rparr>"
  "settled (w\<lparr>ip_link := l\<rparr>) = (settled w)\<lparr>ip_link := l\<rparr>"
  "settled (w\<lparr>ip_session_once := b\<rparr>) = (settled w)\<lparr>ip_session_once := b\<rparr>"
  by (simp_all add: settled_def)

lemma stage_sel [simp]:
  "ip_init_done (first_done w)" "ip_session_once (first_done w) = ip_session_once w"
  "ip_shm (first_done w) = ip_shm w" "ip_link (first_done w) = ip_link w"
  "ip_boot_uid (first_done w) = ip_boot_uid w" "ip_boot_gid (first_done w) = ip_boot_gid w"
  "ip_link (table_mapped P w) = ip_link w" "ip_boot_uid (table_mapped P w) = ip_boot_uid w"
  "ip_boot_gid (table_mapped P w) = ip_boot_gid w"
  "ip_shm (table_mapped P w) = snd (init_shm_from_env (se_shm_os P) (ip_shm w))"
  "ip_init_done (marked w) = ip_init_done w" "ip_init_once (marked w)" "ip_initializing (marked w)"
  "ip_init_done (with_ids w) = ip_init_done w" "ip_init_once (with_ids w)" "ip_initializing (with_ids w)"
  "ip_boot_uid (marked w) = ip_boot_uid w" "ip_boot_gid (marked w) = ip_boot_gid w"
  "ip_session_once (with_ids w) = ip_session_once w"
  "settled ((with_ids w)\<lparr>ip_init_done := True\<rparr>) = first_done w"
  by (simp_all add: first_done_def table_mapped_def with_ids_def marked_def global_update_def settled_def)





lemma session_owner_initializing [simp]:
  "session_owner_ok P w0 pc (w\<lparr>ip_initializing := b\<rparr>) = session_owner_ok P w0 pc w"
  by (cases pc) simp_all






section \<open>Runs\<close>





text \<open>The thread in the session's body has come back to its \<open>Once\<close> through the hook.\<close>

definition self_locked :: "('w, 'k) params \<Rightarrow> ('w, 'k) init_threads \<Rightarrow> bool" where
  "self_locked P s \<longleftrightarrow> (\<exists>t. lt_session_owner s = Some t \<and> lt_pc s t = HookSession)"






text \<open>An inherited table comes with a length that needs no such call.\<close>

lemma inherited_not_stat:
  assumes "shm_create os sc uid gid = Inr (h, m)"
    and "sc_env_len s = Some (bytes_of (show_nat (sm_len h)))"
  shows "\<not> init_shm_stats osf s"
  using shm_create_success(2,3) [OF assms(1)] assms(2)
  by (simp add: init_shm_stats_def from_fd_stats_def parse_usize_show split: option.split)

section \<open>Properties\<close>



text \<open>One thread up to the load of the ids, and from there to its return.\<close>

lemma init_begun:
  assumes "loaded w"
  shows "lt_world (run_init P (replicate 5 t) (init_start w)) = marked w"
    and "lt_pc (run_init P (replicate 5 t) (init_start w)) = (\<lambda>_. CheckDone)(t := LoadUid)"
    and "lt_init_owner (run_init P (replicate 5 t) (init_start w)) = Some t"
    and "lt_session_owner (run_init P (replicate 5 t) (init_start w)) = None"
  using assms by (simp_all add: run_init_def init_start_def loaded_def init_step_def go_def in_world_def
      marked_def eval_nat_numeral)

lemma init_rest:
  assumes "lt_pc s t = LoadUid" and "\<not> ip_session_once (lt_world s)" and "lt_session_owner s = None"
    and "\<not> daemon_mode_enabled (ip_link (lt_world s))"
    and "\<not> init_shm_stats (se_shm_os P) (ip_shm (lt_world s))"
    and "w = global_update (frs_set_current (ip_boot_uid (lt_world s)) (ip_boot_gid (lt_world s))) (lt_world s)"
  shows "lt_pc (run_init P (replicate 10 t) s) t = Returned"
    and "lt_world (run_init P (replicate 10 t) s) = w\<lparr>ip_init_done := True, ip_initializing := False,
      ip_session_once := True, ip_shm := snd (init_shm_from_env (se_shm_os P) (ip_shm w))\<rparr>"
  using assms by (simp_all add: run_init_def init_step_def go_def in_world_def global_update_def
      map_table_def eval_nat_numeral)

text \<open>One thread whose environment names a table but not its length.\<close>

lemma missing_length_locks:
  assumes "loaded w" and "init_shm_stats (se_shm_os P) (ip_shm w)"
  shows "self_locked P (run_init P (replicate 15 t) (init_start w))"
  using assms by (simp add: self_locked_def run_init_def init_start_def loaded_def init_step_def go_def
      in_world_def global_update_def eval_nat_numeral)

lemma missing_length_example:
  "init_shm_stats (\<lambda>fd. \<lparr>os_memfd = 3, os_ftruncate = 0, os_mmap_ok = True, os_dup = 4, os_fstat_size = Some 4096\<rparr>)
     \<lparr>sc_env_fd = Some (bytes_of (show_i32 3)), sc_env_len = None, sc_map = None, sc_active = False, sc_mem = m\<rparr>"
  using parse_i32_show [of 3] by (simp add: init_shm_stats_def from_fd_stats_def env_string_def)

lemma early_chown:
  assumes "loaded w" and "\<not> daemon_mode_enabled (ip_link w)"
    and "real_stat (se_kernel P) (Some path) True (ip_kernel w) = (0, st)"
  shows "h_chown P (Some path) uid gid (marked w) = (0, global_update
    (frs_upsert_chown (key_from_stat st) uid gid (ip_boot_uid w) (ip_boot_gid w)) (marked w))"
proof -
  have "ensure_library_init P (marked w) = marked w"
    using assms(1) by (simp add: ensure_library_init_def marked_def loaded_def)
  then show ?thesis
    using assms by (simp add: h_chown_def record_chown_path_def record_chown_def real_stat_source
        record_chown_key_def current_fake_uid_def current_fake_gid_def loaded_def marked_def
        shm_mode_active_def daemon_mode_active_def global_update_def Let_def)
qed

text \<open>
  C32: A thread that uses the library while another one initialises it is taken for a call from
  inside the initialisation and goes on without it: its \<open>chown\<close> succeeds, but into the process's own
  table, although the environment names a session's table (and gives its length, so that mapping
  it does not come back into the library).  Once the initialisation is done the
  process is on that table, as it was: the change is in the own table, which nothing reads again.
\<close>

theorem early_return_loses_chown:
  assumes "loaded w" and "\<not> init_shm_stats (se_shm_os P) (ip_shm w)"
    and "init_shm_from_env (se_shm_os P) (ip_shm w) = (True, s)" and "shm_attached (se_xattrs P) s" and "\<not> daemon_mode_enabled (ip_link w)"
    and "real_stat (se_kernel P) (Some path) True (ip_kernel w) = (0, st)"
    and "begun = run_init P (replicate 5 0) (init_start w)"
    and "chown = h_chown P (Some path) uid gid (lt_world begun)"
    and "ended = run_init P (replicate 10 0) (begun\<lparr>lt_world := snd chown\<rparr>)"
  shows "lt_pc (run_init P [1, 1, 1] begun) 1 = Returned_Early \<and>
    lt_world (run_init P [1, 1, 1] begun) = lt_world begun \<and>
    fst chown = 0 \<and> lt_pc ended 0 = Returned \<and> shm_session P (lt_world ended) \<and>
    session_view P (lt_world ended) = (\<lambda>k. sc_get_inode (se_xattrs P) k s) \<and>
    frs_get_inode (local_state (lt_world ended)) (key_from_stat st) =
      Some (merge_ids uid gid (fake_inode_new (ip_boot_uid w) (ip_boot_gid w)))"
proof -
  note B = init_begun [OF assms(1), where P = P and t = 0, folded assms(7)]
  have c: "chown = (0, global_update
      (frs_upsert_chown (key_from_stat st) uid gid (ip_boot_uid w) (ip_boot_gid w)) (marked w))"
    using early_chown [OF assms(1,5,6)] by (simp add: assms(8) B(1))
  let ?s = "begun\<lparr>lt_world := snd chown\<rparr>"
  let ?w = "global_update (frs_set_current (ip_boot_uid w) (ip_boot_gid w)) (snd chown)"
  have kept: "ip_link (snd chown) = ip_link w" "ip_shm (snd chown) = ip_shm w"
      "ip_session_once (snd chown) = ip_session_once w" "ip_boot_uid (snd chown) = ip_boot_uid w"
      "ip_boot_gid (snd chown) = ip_boot_gid w" "ip_ctor_done (snd chown) = ip_ctor_done w"
    by (simp_all add: c global_update_def marked_def)
  have R: "lt_pc ended 0 = Returned" "lt_world ended = ?w\<lparr>ip_init_done := True, ip_initializing := False,
      ip_session_once := True, ip_shm := snd (init_shm_from_env (se_shm_os P) (ip_shm ?w))\<rparr>"
    unfolding assms(9) using init_rest [of ?s 0 P ?w] assms(1,2,5) B kept
    by (simp_all add: loaded_def global_update_def)
  have shm: "ip_shm (lt_world ended) = s"
    using assms(3) by (simp add: R(2) global_update_def kept)
  have "lt_pc (run_init P [1, 1, 1] begun) 1 = Returned_Early"
    "lt_world (run_init P [1, 1, 1] begun) = lt_world begun"
    using assms(1) B by (simp_all add: run_init_def init_step_def go_def Let_def marked_def loaded_def)
  moreover have "ready (lt_world ended)"
    using assms(1) by (simp add: R(2) ready_def loaded_def global_update_def)
  then have "shm_session P (lt_world ended)"
    using assms(4) by (simp add: shm_session_def shm)
  moreover have "session_view P (lt_world ended) = (\<lambda>k. sc_get_inode (se_xattrs P) k s)"
    using assms(4) by (simp add: session_view_def shm shm_attached_def)
  moreover have "frs_get_inode (local_state (lt_world ended)) (key_from_stat st) =
      Some (merge_ids uid gid (fake_inode_new (ip_boot_uid w) (ip_boot_gid w)))"
    using assms(1) by (simp add: R(2) c local_state_def global_update_def global_get_or_init_def marked_def
        loaded_def frs_get_inode_def frs_set_current_def frs_upsert_chown_def fake_root_state_new_def)
  ultimately show ?thesis using R(1) c by simp
qed

theorem early_return_loses_chown_witness:
  "\<exists>w begun ended. begun = run_init example_params (replicate 5 0) (init_start w) \<and>
     ended = run_init example_params (replicate 10 0)
       (begun\<lparr>lt_world := snd (h_chown example_params (Some (bytes_of ''/f'')) 5 6 (lt_world begun))\<rparr>) \<and>
     fst (h_chown example_params (Some (bytes_of ''/f'')) 5 6 (lt_world begun)) = 0 \<and>
     lt_pc ended 0 = Returned \<and> shm_session example_params (lt_world ended) \<and>
     session_view example_params (lt_world ended) (9, 42) = None"
proof -
  obtain h m where hm: "shm_create os_all_ok 0x10000 1000 100 = Inr (h, m)"
    using shm_create_ok [of os_all_ok "0x10000" 1000 100] by auto
  let ?e = "(\<lambda>_. None)(SHM_FD_ENV \<mapsto> bytes_of (show_i32 (sm_fd h)), SHM_LEN_ENV \<mapsto> bytes_of (show_nat (sm_len h)))"
  let ?w = "process_start ?e m (dl_net no_link) ()"
  note inv = created_inv [OF xattrs_serde_ok hm]
  have client: "ip_shm ?w = \<lparr>sc_env_fd = Some (bytes_of (show_i32 (sm_fd h))),
      sc_env_len = Some (bytes_of (show_nat (sm_len h))), sc_map = None, sc_active = False, sc_mem = m\<rparr>"
    by (simp add: env_names bytes_of_def)
  have ok: "shm_inv (se_xattrs example_params) h m" "0 \<le> sint (os_dup (se_shm_os example_params (sm_fd h)))"
      "os_mmap_ok (se_shm_os example_params (sm_fd h))"
    using inv by (simp_all add: example_params_def)
  obtain s where s: "init_shm_from_env (se_shm_os example_params) (ip_shm ?w) = (True, s)"
      "shm_attached (se_xattrs example_params) s" "sc_mem s = m"
      "\<And>k. sc_get_inode (se_xattrs example_params) k s = shm_get_inode (se_xattrs example_params) h m k"
    by (rule attach_inherited [where osf = "se_shm_os example_params", OF hm ok(1) refl ok(2,3) client]) blast
  have "?e DAEMON_SOCKET_ENV = None" by (simp add: env_names bytes_of_def)
  then have off: "\<not> daemon_mode_enabled (ip_link ?w)"
    by (simp add: daemon_mode_enabled_def get_daemon_socket_path_def env_string_def del: fun_upd_apply)
  have none: "shm_get_inode (se_xattrs example_params) h m (9, 42) = None"
    using created_empty [OF hm] by (simp add: example_params_def)
  note T = early_return_loses_chown [where P = example_params and path = "bytes_of ''/f''" and uid = 5 and gid = 6,
      OF process_start_loaded inherited_not_stat [OF hm] s(1,2) off _ refl refl refl]
  show ?thesis
    by (rule exI [of _ ?w], intro exI conjI, rule refl, rule refl) (use T s(4) none in \<open>simp_all\<close>)
qed

end
