(* ===== verification/Session_World.thy ===== *)
theory Session_World
  imports Library_Race
begin

text \<open>
  The processes of one session together (\<open>pseudoroot/interpose/src/ownership.rs\<close> over
  \<open>shm_client.rs\<close> or \<open>daemon_client.rs\<close>): what they share is the system, the mapped table
  and the daemon; everything else each process has for itself, the local table included, and a
  child that a process forks starts with a copy of it.  A process that runs takes the shared
  parts as the others left them; its calls are not interrupted (\<open>Shm_Race\<close>, \<open>Shm_Readers\<close>,
  \<open>Library_Race\<close> and \<open>Channel_Fork\<close> have what interleaving adds).
\<close>

section \<open>The world of a session\<close>

record 'k session_share =
  ss_kernel :: 'k
  ss_mem :: shm_mem
  ss_daemon :: daemon

record 'k session_world =
  sw_procs :: "(rpc_world, 'k) interpose list"
  sw_share :: "'k session_share"

definition share_of :: "(rpc_world, 'k) interpose \<Rightarrow> 'k session_share" where
  "share_of w = \<lparr>ss_kernel = ip_kernel w, ss_mem = sc_mem (ip_shm w),
     ss_daemon = rp_daemon (dl_net (ip_link w))\<rparr>"

definition join_share :: "'k session_share \<Rightarrow> (rpc_world, 'k) interpose \<Rightarrow> (rpc_world, 'k) interpose" where
  "join_share s w = w\<lparr>ip_kernel := ss_kernel s, ip_shm := (ip_shm w)\<lparr>sc_mem := ss_mem s\<rparr>,
     ip_link := (ip_link w)\<lparr>dl_net := (dl_net (ip_link w))\<lparr>rp_daemon := ss_daemon s\<rparr>\<rparr>\<rparr>"

definition proc_at :: "'k session_world \<Rightarrow> nat \<Rightarrow> (rpc_world, 'k) interpose" where
  "proc_at W p = join_share (sw_share W) (sw_procs W ! p)"

text \<open>Process \<open>p\<close> runs \<open>f\<close>.\<close>

definition in_process ::
    "nat \<Rightarrow> ((rpc_world, 'k) interpose \<Rightarrow> 'r \<times> (rpc_world, 'k) interpose) \<Rightarrow> 'k session_world \<Rightarrow>
       'r \<times> 'k session_world" where
  "in_process p f W =
     (case f (proc_at W p) of
        (r, w) \<Rightarrow> (r, W\<lparr>sw_procs := (sw_procs W)[p := w], sw_share := share_of w\<rparr>))"

definition fork_process :: "nat \<Rightarrow> 'k session_world \<Rightarrow> 'k session_world" where
  "fork_process p W = W\<lparr>sw_procs := sw_procs W @ [sw_procs W ! p]\<rparr>"

datatype session_event =
    Change_Owner nat inode_key u32 u32
  | Change_Entry nat inode_key "fake_inode \<Rightarrow> fake_inode"
  | Drop_Entry nat inode_key
  | Change_Ids nat u32 u32
  | Fork_Process nat

fun run_event ::
    "(rpc_world, 'k) params \<Rightarrow> session_event \<Rightarrow> 'k session_world \<Rightarrow> 'k session_world" where
  "run_event P (Change_Owner p k u g) W =
     snd (in_process p (\<lambda>w. ((), record_chown_key P k u g w)) W)"
| "run_event P (Change_Entry p k f) W = snd (in_process p (\<lambda>w. ((), update_inode P k f w)) W)"
| "run_event P (Drop_Entry p k) W = snd (in_process p (\<lambda>w. ((), remove_inode P k w)) W)"
| "run_event P (Change_Ids p u g) W = snd (in_process p (set_current_ids P u g) W)"
| "run_event P (Fork_Process p) W = fork_process p W"

text \<open>What the session promises: one table and one pair of ids, for whichever process asks.\<close>

type_synonym session_spec = "(inode_key \<Rightarrow> fake_inode option) \<times> u32 \<times> u32"

definition spec_entry :: "session_spec \<Rightarrow> inode_key \<Rightarrow> fake_inode" where
  "spec_entry s k = (case fst s k of
     Some i \<Rightarrow> i | None \<Rightarrow> fake_inode_new (fst (snd s)) (snd (snd s)))"

fun spec_event :: "(fake_inode \<Rightarrow> fake_inode) \<Rightarrow> session_event \<Rightarrow> session_spec \<Rightarrow> session_spec" where
  "spec_event canon (Change_Owner p k u g) s = ((fst s)(k \<mapsto> merge_ids u g (spec_entry s k)), snd s)"
| "spec_event canon (Change_Entry p k f) s = ((fst s)(k \<mapsto> canon (f (spec_entry s k))), snd s)"
| "spec_event canon (Drop_Entry p k) s = ((fst s)(k := None), snd s)"
| "spec_event canon (Change_Ids p u g) s = (fst s, u, g)"
| "spec_event canon (Fork_Process p) s = s"

text \<open>
  When an event is in the session's means: the table has room or the message fits; and with a
  daemon, no other process has an own copy of an entry that is dropped.
\<close>

fun event_fits :: "(rpc_world, 'k) params \<Rightarrow> session_event \<Rightarrow> 'k session_world \<Rightarrow> bool" where
  "event_fits P (Change_Owner p k u g) W \<longleftrightarrow> p < length (sw_procs W) \<and> session_can_chown P (proc_at W p) k u g"
| "event_fits P (Change_Entry p k f) W \<longleftrightarrow> p < length (sw_procs W) \<and>
     session_can_set P (proc_at W p) k (f (entry_or_new P (proc_at W p) k))"
| "event_fits P (Drop_Entry p k) W \<longleftrightarrow> p < length (sw_procs W) \<and>
     (sc_active (ip_shm (proc_at W p)) \<or>
      (\<forall>q<length (sw_procs W). q \<noteq> p \<longrightarrow> frs_get_inode (local_state (sw_procs W ! q)) k = None))"
| "event_fits P (Change_Ids p u g) W \<longleftrightarrow> p < length (sw_procs W)"
| "event_fits P (Fork_Process p) W \<longleftrightarrow> p < length (sw_procs W)"

fun events_fit :: "(rpc_world, 'k) params \<Rightarrow> session_event list \<Rightarrow> 'k session_world \<Rightarrow> bool" where
  "events_fit P [] W = True"
| "events_fit P (e # es) W = (event_fits P e W \<and> events_fit P es (run_event P e W))"

text \<open>All processes are attached to the same table, or all connected to the same daemon.\<close>

definition session_shared :: "(rpc_world, 'k) params \<Rightarrow> 'k session_world \<Rightarrow> bool" where
  "session_shared P W \<longleftrightarrow> sw_procs W \<noteq> [] \<and>
     ((\<exists>n. \<forall>w\<in>set (sw_procs W). shm_session P (join_share (sw_share W) w) \<and>
         map_option sm_slot_count (sc_map (ip_shm w)) = Some n) \<or>
      (\<forall>w\<in>set (sw_procs W). daemon_session P (join_share (sw_share W) w)))"

section \<open>What a call leaves alone\<close>

text \<open>The mode of a process is settled once it is initialised.\<close>

definition mode_of :: "('w, 'k) interpose \<Rightarrow> bool \<times> bool \<times> shm_map option \<times> bytes option" where
  "mode_of w = (ready w, sc_active (ip_shm w), sc_map (ip_shm w), dl_env (ip_link w))"

lemma daemon_env [simp]:
  "dl_env (snd (daemon_request_ok c ops t p l)) = dl_env l"
  "dl_env (snd (daemon_get_current_uid_gid c ops l)) = dl_env l"
  "dl_env (snd (daemon_get_inode c ops k l)) = dl_env l"
  by (simp_all add: daemon_request_ok_def daemon_get_current_uid_gid_def daemon_get_inode_def
      daemon_request_def case_prod_beta split: option.split)

lemma daemon_calls_env [simp]:
  "dl_env (snd (daemon_set_current_uid_gid c ops u g l)) = dl_env l"
  "dl_env (snd (daemon_upsert_chown c ops k u g du dg l)) = dl_env l"
  "dl_env (snd (daemon_set_inode c ops k i l)) = dl_env l"
  "dl_env (snd (daemon_remove_inode c ops k l)) = dl_env l"
  by (simp_all add: daemon_set_current_uid_gid_def daemon_upsert_chown_def daemon_set_inode_def
      daemon_remove_inode_def)

lemma sc_map_frame [simp]:
  "sc_map (sc_upsert_inode c k i s) = sc_map s"
  "sc_map (sc_upsert_chown c k u g du dg s) = sc_map s"
  "sc_map (snd (sc_remove_inode c k s)) = sc_map s"
  "sc_map (shm_set_current_uid_gid u g s) = sc_map s"
  by (simp_all add: sc_upsert_inode_def sc_upsert_chown_def sc_remove_inode_def case_prod_beta
      shm_set_current_uid_gid_def split: option.split)

lemma mode_global [simp]: "ready w \<Longrightarrow> mode_of (global_update f w) = mode_of w"
  by (simp add: mode_of_def global_update_def ready_def)

lemma mode_ready: "mode_of w' = mode_of w \<Longrightarrow> ready w' = ready w"
  by (simp add: mode_of_def)

lemma mode_link [simp]: "dl_env l = dl_env (ip_link w) \<Longrightarrow> mode_of (w\<lparr>ip_link := l\<rparr>) = mode_of w"
  by (simp add: mode_of_def ready_def)

lemma mode_get: "ready w \<Longrightarrow> mode_of (snd (get_inode P k w)) = mode_of w"
  by (auto simp: get_inode_def global_state_def mode_of_def ready_def Let_def case_prod_beta
      split: option.split)

lemma mode_ids:
  assumes "ready w"
  shows "mode_of (snd (current_fake_uid P w)) = mode_of w"
    and "mode_of (snd (current_fake_gid P w)) = mode_of w"
proof -
  have "mode_of (snd (backend_ids P w)) = mode_of w"
    by (auto simp: backend_ids_def case_prod_beta split: option.split)
  with assms show "mode_of (snd (current_fake_uid P w)) = mode_of w"
    "mode_of (snd (current_fake_gid P w)) = mode_of w"
    by (auto simp: current_fake_uid_def current_fake_gid_def global_state_def mode_of_def ready_def
        Let_def case_prod_beta split: option.split)
qed

lemma mode_shm [simp]:
  "sc_active s = sc_active (ip_shm w) \<Longrightarrow> sc_map s = sc_map (ip_shm w) \<Longrightarrow>
     mode_of (w\<lparr>ip_shm := s\<rparr>) = mode_of w"
  by (simp add: mode_of_def ready_def)

lemma mode_set: "ready w \<Longrightarrow> mode_of (set_inode P k i w) = mode_of w"
  using mode_global [of w] by (simp add: set_inode_def Let_def frame_simps)

lemma mode_remove: "ready w \<Longrightarrow> mode_of (remove_inode P k w) = mode_of w"
  using mode_global [of w] by (simp add: remove_inode_def Let_def frame_simps)

lemma mode_update:
  assumes "ready w"
  shows "mode_of (update_inode P k f w) = mode_of w"
proof (cases "get_inode P k w")
  case (Pair r w1)
  with assms mode_get [OF assms, of P k] have w1: "mode_of w1 = mode_of w" "ready w1"
    by (simp_all add: mode_of_def)
  obtain u w2 where w2: "current_fake_uid P w1 = (u, w2)" by (cases "current_fake_uid P w1")
  with w1 mode_ids(1) [OF w1(2), of P] have m2: "mode_of w2 = mode_of w" "ready w2"
    by (simp_all add: mode_of_def)
  obtain g w3 where w3: "current_fake_gid P w2 = (g, w3)" by (cases "current_fake_gid P w2")
  with m2 mode_ids(2) [OF m2(2), of P] have "mode_of w3 = mode_of w" "ready w3"
    by (simp_all add: mode_of_def)
  with w1 show ?thesis by (simp add: update_inode_def Pair w2 w3 mode_set split: option.split)
qed

lemma mode_chown:
  assumes "ready w"
  shows "mode_of (record_chown_key P k u g w) = mode_of w"
proof -
  obtain a w2 where w2: "current_fake_uid P w = (a, w2)" by (cases "current_fake_uid P w")
  with assms mode_ids(1) [OF assms, of P] have m2: "mode_of w2 = mode_of w" "ready w2"
    by (simp_all add: mode_of_def)
  obtain b w3 where w3: "current_fake_gid P w2 = (b, w3)" by (cases "current_fake_gid P w2")
  with m2 mode_ids(2) [OF m2(2), of P] have "mode_of w3 = mode_of w" "ready w3"
    by (simp_all add: mode_of_def)
  then show ?thesis
    using mode_global [of w3] by (simp add: record_chown_key_def w2 w3 Let_def frame_simps)
qed

lemma mode_set_ids: "ready w \<Longrightarrow> mode_of (snd (set_current_ids P u g w)) = mode_of w"
  by (auto simp: set_current_ids_def global_update_def mode_of_def ready_def Let_def frame_simps
      ensure_library_init_def ensure_session_backing_init_def)

lemmas mode_calls = mode_chown mode_update mode_remove mode_set_ids

section \<open>Handing over the shared parts\<close>

lemma join_share_sel [simp]:
  "ready (join_share s w) = ready w" "local_state (join_share s w) = local_state w"
  "ip_kernel (join_share s w) = ss_kernel s" "sc_mem (ip_shm (join_share s w)) = ss_mem s"
  "sc_active (ip_shm (join_share s w)) = sc_active (ip_shm w)"
  "sc_map (ip_shm (join_share s w)) = sc_map (ip_shm w)"
  "rp_daemon (dl_net (ip_link (join_share s w))) = ss_daemon s"
  "linked (ip_link (join_share s w)) = linked (ip_link w)"
  "dl_env (ip_link (join_share s w)) = dl_env (ip_link w)"
  "link_table (ip_link (join_share s w)) = frs_get_inode (d_state (ss_daemon s))"
  by (simp_all add: join_share_def ready_def local_state_def linked_def rpc_idle_def link_table_def
      daemon_mode_active_def daemon_mode_enabled_def get_daemon_socket_path_def)

lemma mode_join [simp]: "mode_of (join_share s w) = mode_of w"
  by (simp add: mode_of_def)

lemma join_share_own [simp]: "join_share (share_of w) w = w"
  by (simp add: join_share_def share_of_def)

lemma share_of_sel [simp]:
  "ss_mem (share_of w) = sc_mem (ip_shm w)" "ss_daemon (share_of w) = rp_daemon (dl_net (ip_link w))"
  "ss_kernel (share_of w) = ip_kernel w"
  by (simp_all add: share_of_def)

text \<open>On shared memory only the number of slots in a handle matters.\<close>

lemma same_slots:
  assumes "sm_slot_count h' = sm_slot_count h"
  shows "shm_inv c h' m = shm_inv c h m" and "shm_get_inode c h' m = shm_get_inode c h m"
proof -
  show "shm_get_inode c h' m = shm_get_inode c h m"
    by (simp add: fun_eq_iff shm_get_inode_def shm_probe_cong [OF assms])
  show "shm_inv c h' m = shm_inv c h m"
    by (simp add: shm_inv_def table_wf_def reachable_at_def path_pos_def home_def shm_hash_def assms)
qed

lemma shm_session_same:
  assumes "shm_session P v" and "ready w" and "sc_active (ip_shm w)"
    and "map_option sm_slot_count (sc_map (ip_shm w)) = map_option sm_slot_count (sc_map (ip_shm v))"
    and "sc_mem (ip_shm w) = sc_mem (ip_shm v)"
  shows "shm_session P w" and "session_view P w = session_view P v" and "session_ids w = session_ids v"
proof -
  obtain h where h: "sc_map (ip_shm v) = Some h" "shm_inv (se_xattrs P) h (sc_mem (ip_shm v))"
    using assms(1) by (auto simp: shm_session_def shm_attached_def)
  then obtain h' where h': "sc_map (ip_shm w) = Some h'" "sm_slot_count h' = sm_slot_count h"
    using assms(4) by auto
  show ok: "shm_session P w"
    using assms(2,3,5) h h' same_slots(1) [OF h'(2)] by (simp add: shm_session_def shm_attached_def)
  note act = shm_session_view(3) [OF assms(1)]
  show "session_view P w = session_view P v"
    using assms(3,5) act h(1) h'(1) same_slots(2) [OF h'(2)]
    by (simp add: session_view_def sc_get_inode_def sc_the_map_def shm_mode_active_def)
  show "session_ids w = session_ids v"
    using shm_session_view(2) [OF ok] shm_session_view(2) [OF assms(1)] assms(5) by simp
qed

lemma session_ok_modes:
  assumes "session_ok P w'" and "mode_of w' = mode_of w"
  shows "shm_session P w \<Longrightarrow> shm_session P w'" and "daemon_session P w \<Longrightarrow> daemon_session P w'"
  using assms
  by (auto simp: session_ok_def shm_session_def shm_attached_def daemon_session_def local_session_def
      mode_of_def linked_def daemon_mode_active_def daemon_mode_enabled_def get_daemon_socket_path_def
      simp del: split_paired_All)

lemma daemon_session_same:
  assumes "daemon_session P v" and "daemon_session P (join_share s w)"
    and "ss_daemon s' = rp_daemon (dl_net (ip_link v))"
    and "\<And>k. dtable v k = None \<Longrightarrow> frs_get_inode (local_state w) k = None"
  shows "daemon_session P (join_share s' w)"
  using assms by (simp add: daemon_session_def link_table_def)

section \<open>All processes see the same session\<close>

lemma shared_cases:
  assumes "session_shared P W"
  obtains (Shm) n where "\<And>w. w \<in> set (sw_procs W) \<Longrightarrow> shm_session P (join_share (sw_share W) w) \<and>
      map_option sm_slot_count (sc_map (ip_shm w)) = Some n \<and> sc_active (ip_shm w)"
  | (Daemon) "\<And>w. w \<in> set (sw_procs W) \<Longrightarrow> daemon_session P (join_share (sw_share W) w) \<and>
      \<not> sc_active (ip_shm w)"
proof -
  have "sc_active (ip_shm w)" if "shm_session P (join_share (sw_share W) w)" for w
    using shm_session_view(3) [OF that] by simp
  moreover have "\<not> sc_active (ip_shm w)" if "daemon_session P (join_share (sw_share W) w)" for w
    using daemon_sessionD(3) [OF that] by simp
  ultimately show thesis
    using assms that unfolding session_shared_def by blast
qed

lemma shared_ok:
  assumes "session_shared P W" and "p < length (sw_procs W)"
  shows "session_ok P (proc_at W p)"
  using assms nth_mem [OF assms(2)]
  by (auto simp: session_ok_def proc_at_def elim!: shared_cases)

lemma shared_same:
  assumes "session_shared P W" and "p < length (sw_procs W)" and "q < length (sw_procs W)"
  shows "session_view P (proc_at W p) = session_view P (proc_at W q)"
    and "session_ids (proc_at W p) = session_ids (proc_at W q)"
    and "session_canon P (proc_at W p) = session_canon P (proc_at W q)"
proof -
  let ?v = "join_share (sw_share W) (sw_procs W ! q)" and ?w = "join_share (sw_share W) (sw_procs W ! p)"
  note mem = nth_mem [OF assms(2)] nth_mem [OF assms(3)]
  have "session_view P ?w = session_view P ?v \<and> session_ids ?w = session_ids ?v \<and>
      session_canon P ?w = session_canon P ?v"
    using assms(1)
  proof (cases rule: shared_cases)
    case (Shm n)
    note S = Shm [OF mem(1)] Shm [OF mem(2)]
    have "ready ?w" using S shm_session_view(5) by blast
    then show ?thesis using shm_session_same [of P ?v ?w] S by (simp add: session_canon_def)
  next
    case Daemon
    then show ?thesis
      using mem daemon_session_view [of P ?v] daemon_session_view [of P ?w] by (simp add: session_canon_def)
  qed
  then show "session_view P (proc_at W p) = session_view P (proc_at W q)"
    "session_ids (proc_at W p) = session_ids (proc_at W q)"
    "session_canon P (proc_at W p) = session_canon P (proc_at W q)"
    by (simp_all add: proc_at_def)
qed

lemma shared_local:
  assumes "session_shared P W" and "p < length (sw_procs W)" and "q < length (sw_procs W)"
    and "session_view P (proc_at W p) k = None" and "\<not> sc_active (ip_shm (proc_at W p))"
  shows "frs_get_inode (local_state (sw_procs W ! q)) k = None"
  using assms(1)
proof (cases rule: shared_cases)
  case (Shm n)
  then show ?thesis using nth_mem [OF assms(2)] assms(5) by (simp add: proc_at_def)
next
  case Daemon
  then have "daemon_session P (proc_at W q)" using nth_mem [OF assms(3)] by (simp add: proc_at_def)
  from daemon_sessionD(11) [OF this, of k] daemon_session_view(1) [OF this]
    shared_same(1) [OF assms(1-3)] assms(4)
  show ?thesis by (simp add: proc_at_def)
qed

text \<open>
  A call of one process keeps all of them in the session, when it keeps the process in it and
  removes no entry another process has a copy of.
\<close>

lemma shared_step:
  assumes "session_shared P W" and "p < length (sw_procs W)" and "f (proc_at W p) = (r, w')"
    and "session_ok P w'" and "mode_of w' = mode_of (proc_at W p)"
    and "\<forall>k q. \<not> sc_active (ip_shm (proc_at W p)) \<longrightarrow> q < length (sw_procs W) \<longrightarrow> q \<noteq> p \<longrightarrow>
      session_view P w' k = None \<longrightarrow> frs_get_inode (local_state (sw_procs W ! q)) k = None"
  shows "session_shared P (snd (in_process p f W))" and "proc_at (snd (in_process p f W)) p = w'"
    and "fst (in_process p f W) = r"
    and "length (sw_procs (snd (in_process p f W))) = length (sw_procs W)"
proof -
  let ?W = "snd (in_process p f W)"
  have W': "?W = W\<lparr>sw_procs := (sw_procs W)[p := w'], sw_share := share_of w'\<rparr>"
    by (simp add: in_process_def assms(3))
  then show "fst (in_process p f W) = r" "length (sw_procs ?W) = length (sw_procs W)"
    "proc_at ?W p = w'"
    using assms(2,3) by (simp_all add: in_process_def proc_at_def)
  have procs: "w = w' \<or> (\<exists>q<length (sw_procs W). q \<noteq> p \<and> w = sw_procs W ! q)"
    if "w \<in> set (sw_procs ?W)" for w
    using that assms(2) by (auto simp: W' in_set_conv_nth nth_list_update split: if_splits)
  note self = nth_mem [OF assms(2)]
  have "(\<exists>n. \<forall>w\<in>set (sw_procs ?W). shm_session P (join_share (share_of w') w) \<and>
         map_option sm_slot_count (sc_map (ip_shm w)) = Some n) \<or>
      (\<forall>w\<in>set (sw_procs ?W). daemon_session P (join_share (share_of w') w))"
    using assms(1)
  proof (cases rule: shared_cases)
    case (Shm n)
    have w': "shm_session P w'"
      using session_ok_modes(1) [OF assms(4,5)] Shm [OF self] by (simp add: proc_at_def)
    have slots: "map_option sm_slot_count (sc_map (ip_shm w')) = Some n"
      using assms(5) Shm [OF self] by (simp add: mode_of_def proc_at_def)
    have "shm_session P (join_share (share_of w') w) \<and> map_option sm_slot_count (sc_map (ip_shm w)) = Some n"
      if "w \<in> set (sw_procs ?W)" for w
      using procs [OF that]
    proof (elim disjE exE conjE)
      fix q assume q: "q < length (sw_procs W)" "w = sw_procs W ! q"
      have "ready w" using Shm [OF nth_mem [OF q(1)]] shm_session_view(5) q(2) by fastforce
      then show ?thesis
        using shm_session_same(1) [OF w', of "join_share (share_of w') w"] Shm [OF nth_mem [OF q(1)]] slots q(2)
        by simp
    qed (simp add: w' slots)
    then show ?thesis by blast
  next
    case Daemon
    have w': "daemon_session P w'"
      using session_ok_modes(2) [OF assms(4,5)] Daemon [OF self] by (simp add: proc_at_def)
    have "daemon_session P (join_share (share_of w') w)" if "w \<in> set (sw_procs ?W)" for w
      using procs [OF that]
    proof (elim disjE exE conjE)
      fix q assume q: "q < length (sw_procs W)" "q \<noteq> p" "w = sw_procs W ! q"
      have "\<not> sc_active (ip_shm (proc_at W p))" using Daemon [OF self] by (simp add: proc_at_def)
      with assms(6) q have "frs_get_inode (local_state w) k = None" if "dtable w' k = None" for k
        using that unfolding daemon_session_view(1) [OF w', symmetric] q(3) by blast
      then show ?thesis
        using daemon_session_same [OF w', of "sw_share W" w "share_of w'"] Daemon [OF nth_mem [OF q(1)]] q(3)
        by simp
    qed (simp add: w')
    then show ?thesis by blast
  qed
  moreover have "sw_procs ?W \<noteq> []" using assms(2) by (auto simp: W')
  ultimately show "session_shared P ?W" by (simp add: session_shared_def W')
qed

text \<open>The table and the ids of the session, as any of its processes sees them.\<close>

definition session_state :: "(rpc_world, 'k) params \<Rightarrow> 'k session_world \<Rightarrow> session_spec" where
  "session_state P W = (session_view P (proc_at W 0), session_ids (proc_at W 0))"

definition world_canon :: "(rpc_world, 'k) params \<Rightarrow> 'k session_world \<Rightarrow> fake_inode \<Rightarrow> fake_inode" where
  "world_canon P W = session_canon P (proc_at W 0)"

lemma shared_state:
  assumes "session_shared P W" and "p < length (sw_procs W)"
  shows "session_view P (proc_at W p) = fst (session_state P W)"
    and "session_ids (proc_at W p) = snd (session_state P W)"
    and "session_canon P (proc_at W p) = world_canon P W"
    and "entry_or_new P (proc_at W p) = spec_entry (session_state P W)"
proof -
  have "0 < length (sw_procs W)" using assms(2) by (cases "sw_procs W") simp_all
  note same = shared_same [OF assms this]
  then show "session_view P (proc_at W p) = fst (session_state P W)"
    "session_ids (proc_at W p) = snd (session_state P W)"
    "session_canon P (proc_at W p) = world_canon P W"
    by (simp_all add: session_state_def world_canon_def)
  show "entry_or_new P (proc_at W p) = spec_entry (session_state P W)"
    by (rule ext) (simp add: entry_or_new_def spec_entry_def session_state_def same cong: option.case_cong)
qed

lemma shared_step_state:
  assumes "session_shared P W" and "p < length (sw_procs W)" and "f (proc_at W p) = (r, w')"
    and "session_ok P w'" and "mode_of w' = mode_of (proc_at W p)"
    and "\<And>k. session_view P w' k = None \<Longrightarrow> session_view P (proc_at W p) k = None \<or>
      sc_active (ip_shm (proc_at W p)) \<or>
      (\<forall>q<length (sw_procs W). q \<noteq> p \<longrightarrow> frs_get_inode (local_state (sw_procs W ! q)) k = None)"
  shows "session_shared P (snd (in_process p f W))"
    and "session_state P (snd (in_process p f W)) = (session_view P w', session_ids w')"
    and "world_canon P (snd (in_process p f W)) = world_canon P W"
proof -
  have "frs_get_inode (local_state (sw_procs W ! q)) k = None"
    if "\<not> sc_active (ip_shm (proc_at W p))" "q < length (sw_procs W)" "q \<noteq> p" "session_view P w' k = None" for k q
    using assms(6) [OF that(4)]
  proof (elim disjE)
    assume "session_view P (proc_at W p) k = None"
    then show ?thesis by (rule shared_local [OF assms(1,2) that(2) _ that(1)])
  next
    assume "sc_active (ip_shm (proc_at W p))"
    with that(1) show ?thesis ..
  next
    assume "\<forall>q<length (sw_procs W). q \<noteq> p \<longrightarrow> frs_get_inode (local_state (sw_procs W ! q)) k = None"
    with that(2,3) show ?thesis by blast
  qed
  then have "\<forall>k q. \<not> sc_active (ip_shm (proc_at W p)) \<longrightarrow> q < length (sw_procs W) \<longrightarrow> q \<noteq> p \<longrightarrow>
      session_view P w' k = None \<longrightarrow> frs_get_inode (local_state (sw_procs W ! q)) k = None" by blast
  note S = shared_step [where f = f, OF assms(1-5) this]
  have p: "p < length (sw_procs (snd (in_process p f W)))" unfolding S(4) by (rule assms(2))
  show "session_shared P (snd (in_process p f W))" by (rule S(1))
  show "session_state P (snd (in_process p f W)) = (session_view P w', session_ids w')"
    using shared_state(1,2) [OF S(1) p] S(2) by simp
  have "session_canon P w' = session_canon P (proc_at W p)"
    using assms(5) by (simp add: session_canon_def mode_of_def)
  then show "world_canon P (snd (in_process p f W)) = world_canon P W"
    using shared_state(3) [OF S(1) p] shared_state(3) [OF assms(1,2)] S(2) by simp
qed

lemma fork_shared:
  assumes "session_shared P W" and "p < length (sw_procs W)"
  shows "session_shared P (fork_process p W)" and "session_state P (fork_process p W) = session_state P W"
    and "world_canon P (fork_process p W) = world_canon P W"
proof -
  have procs: "set (sw_procs (fork_process p W)) = set (sw_procs W)"
    using nth_mem [OF assms(2)] by (auto simp: fork_process_def)
  have ne: "sw_procs (fork_process p W) \<noteq> []" by (simp add: fork_process_def)
  have share: "sw_share (fork_process p W) = sw_share W" by (simp add: fork_process_def)
  show "session_shared P (fork_process p W)"
    using assms(1) ne unfolding session_shared_def share procs by blast
  have "sw_procs W ! 0 = sw_procs (fork_process p W) ! 0"
    using assms(2) by (auto simp: fork_process_def nth_append)
  then show "session_state P (fork_process p W) = session_state P W"
    "world_canon P (fork_process p W) = world_canon P W"
    by (simp_all add: session_state_def world_canon_def proc_at_def fork_process_def)
qed

lemma run_event_effect:
  assumes "session_shared P W" and "event_fits P e W"
  shows "session_shared P (run_event P e W) \<and>
    session_state P (run_event P e W) = spec_event (world_canon P W) e (session_state P W) \<and>
    world_canon P (run_event P e W) = world_canon P W"
proof (cases e)
  case (Change_Owner p k u g)
  then have p: "p < length (sw_procs W)" and can: "session_can_chown P (proc_at W p) k u g"
    using assms(2) by simp_all
  note ok = shared_ok [OF assms(1) p] and S = shared_state [OF assms(1) p]
  note C = session_chown [OF ok can, folded entry_or_new_def] mode_chown [OF session_ready [OF ok]]
  let ?f = "\<lambda>w. ((), record_chown_key P k u g w)"
  have "session_view P (proc_at W p) k' = None"
    if "session_view P (record_chown_key P k u g (proc_at W p)) k' = None" for k'
    using that C(1) by (simp split: if_splits)
  then show ?thesis
    using shared_step_state [where f = ?f, OF assms(1) p refl _ C(2)] C(1) S by (simp add: Change_Owner)
next
  case (Change_Entry p k f)
  then have p: "p < length (sw_procs W)"
    and can: "session_can_set P (proc_at W p) k (f (entry_or_new P (proc_at W p) k))"
    using assms(2) by simp_all
  note ok = shared_ok [OF assms(1) p] and S = shared_state [OF assms(1) p]
  note U = session_update [where f = f, OF ok can] mode_update [OF session_ready [OF ok]]
  let ?f = "\<lambda>w. ((), update_inode P k f w)"
  have "session_view P (proc_at W p) k' = None"
    if "session_view P (update_inode P k f (proc_at W p)) k' = None" for k'
    using that U(2) by (simp split: if_splits)
  then show ?thesis
    using shared_step_state [where f = ?f, OF assms(1) p refl U(1,5)] U(2,3) S by (simp add: Change_Entry)
next
  case (Drop_Entry p k)
  then have p: "p < length (sw_procs W)" using assms(2) by simp
  note ok = shared_ok [OF assms(1) p] and S = shared_state [OF assms(1) p]
  note R = session_remove [OF ok, of k] mode_remove [OF session_ready [OF ok]]
  let ?f = "\<lambda>w. ((), remove_inode P k w)"
  have "session_view P (proc_at W p) k' = None \<or> sc_active (ip_shm (proc_at W p)) \<or>
      (\<forall>q<length (sw_procs W). q \<noteq> p \<longrightarrow> frs_get_inode (local_state (sw_procs W ! q)) k' = None)"
    if "session_view P (remove_inode P k (proc_at W p)) k' = None" for k'
    using that R(1) assms(2) Drop_Entry by (cases "k' = k") simp_all
  then show ?thesis
    using shared_step_state [where f = ?f, OF assms(1) p refl _ R(2)] R(1) S by (simp add: Drop_Entry)
next
  case (Change_Ids p u g)
  then have p: "p < length (sw_procs W)" using assms(2) by simp
  note ok = shared_ok [OF assms(1) p] and S = shared_state [OF assms(1) p]
  obtain w' where w': "set_current_ids P u g (proc_at W p) = (0, w')" "session_ok P w'"
    "session_view P w' = session_view P (proc_at W p)" "session_ids w' = (u, g)"
    by (rule session_set_ids [OF ok])
  have mode: "mode_of w' = mode_of (proc_at W p)"
    using mode_set_ids [OF session_ready [OF ok], of P u g] w'(1) by simp
  show ?thesis
    using shared_step_state [where f = "set_current_ids P u g", OF assms(1) p w'(1,2) mode] w'(3,4) S by (simp add: Change_Ids)
next
  case (Fork_Process p)
  then show ?thesis using fork_shared [OF assms(1), of p] assms(2) by simp
qed

lemma run_events_effect:
  assumes "session_shared P W" and "events_fit P es W"
  shows "session_shared P (fold (run_event P) es W) \<and>
    session_state P (fold (run_event P) es W) = fold (spec_event (world_canon P W)) es (session_state P W)"
  using assms
proof (induction es arbitrary: W)
  case (Cons e es)
  then show ?case using run_event_effect [of P W e] by simp
qed simp

end
