(* ===== verification/Session_Shared.thy ===== *)
theory Session_Shared
  imports Session_World
begin

text \<open>
  What the processes of one session see of each other's changes: the properties of the world of
  \<open>Session_World\<close>, and how long a shared table has room for them.
\<close>

section \<open>Room on shared memory\<close>

text \<open>Process numbers that exist when their event comes, and the events that may take a slot.\<close>

fun event_process :: "session_event \<Rightarrow> nat" where
  "event_process (Change_Owner p k u g) = p"
| "event_process (Change_Entry p k f) = p"
| "event_process (Drop_Entry p k) = p"
| "event_process (Change_Ids p u g) = p"
| "event_process (Fork_Process p) = p"

fun event_enters :: "session_event \<Rightarrow> bool" where
  "event_enters (Change_Owner p k u g) = True"
| "event_enters (Change_Entry p k f) = True"
| "event_enters e = False"


definition free_slots :: "'k session_world \<Rightarrow> nat" where
  "free_slots W = card (empties (the (sc_map (ip_shm (proc_at W 0)))) (ss_mem (sw_share W)))"

text \<open>A session whose processes are attached to a shared table.\<close>

definition shm_shared :: "(rpc_world, 'k) params \<Rightarrow> 'k session_world \<Rightarrow> bool" where
  "shm_shared P W \<longleftrightarrow> session_shared P W \<and> sc_active (ip_shm (proc_at W 0))"

lemma shm_sharedD:
  assumes "shm_shared P W" and "p < length (sw_procs W)"
  obtains h where "session_shared P W" "shm_session P (proc_at W p)" "sc_map (ip_shm (proc_at W p)) = Some h"
    "shm_inv (se_xattrs P) h (ss_mem (sw_share W))" "free_slots W = card (empties h (ss_mem (sw_share W)))"
    "sc_active (ip_shm (proc_at W p))"
proof -
  have sh: "session_shared P W" and act: "sc_active (ip_shm (proc_at W 0))"
    using assms(1) by (simp_all add: shm_shared_def)
  have "0 < length (sw_procs W)" using assms(2) by (cases "sw_procs W") simp_all
  note mem = nth_mem [OF assms(2)] nth_mem [OF this]
  from sh show thesis
  proof (cases rule: shared_cases)
    case (Shm n)
    have "map_option sm_slot_count (sc_map (ip_shm (proc_at W q))) = Some n" if "sw_procs W ! q \<in> set (sw_procs W)" for q
      using Shm [OF that] by (simp add: proc_at_def)
    from this [OF mem(1)] this [OF mem(2)]
    obtain h h0 where h: "sc_map (ip_shm (proc_at W p)) = Some h" "sm_slot_count h = n"
        "sc_map (ip_shm (proc_at W 0)) = Some h0" "sm_slot_count h0 = n"
      unfolding map_option_eq_Some by blast
    have s: "shm_session P (proc_at W p)" using Shm [OF mem(1)] by (simp add: proc_at_def)
    then have inv: "shm_inv (se_xattrs P) h (ss_mem (sw_share W))"
      using h(1) by (simp add: shm_session_def shm_attached_def proc_at_def)
    have "free_slots W = card (empties h (ss_mem (sw_share W)))"
      using h by (simp add: free_slots_def empties_def)
    from that [OF sh s h(1) inv this shm_session_view(3) [OF s]] show thesis .
  next
    case Daemon
    then show thesis using mem(2) act by (simp add: proc_at_def)
  qed
qed


text \<open>What an event does to the number of empty slots.\<close>

lemma empties_header [simp]: "empties h (shm_set_current u g m) = empties h m"
  by (simp add: empties_def shm_set_current_def slot_state_defs)

lemma event_fits_shm:
  assumes "shm_shared P W" and "event_process e < length (sw_procs W)"
    and "event_enters e \<Longrightarrow> 0 < free_slots W"
  shows "event_fits P e W"
proof -
  obtain h where h: "sc_map (ip_shm (proc_at W (event_process e))) = Some h"
      "shm_inv (se_xattrs P) h (ss_mem (sw_share W))" "free_slots W = card (empties h (ss_mem (sw_share W)))"
      "sc_active (ip_shm (proc_at W (event_process e)))"
    by (rule shm_sharedD [OF assms(1,2)])
  have "sc_room (ip_shm (proc_at W (event_process e))) k" if "event_enters e" for k
  proof -
    have "empties h (ss_mem (sw_share W)) \<noteq> {}" using assms(3) [OF that] h(3) by auto
    then show ?thesis using h(1) shm_room_iff [OF h(2)] by (simp add: sc_room_def proc_at_def)
  qed
  then show ?thesis
    using assms(2) h(4) by (cases e) (simp_all add: session_can_chown_def session_can_set_def)
qed




lemma length_calls [simp]:
  "length (sw_procs (snd (in_process p f W))) = length (sw_procs W)"
  "length (sw_procs (fork_process p W)) = Suc (length (sw_procs W))"
  by (simp_all add: in_process_def fork_process_def case_prod_beta)


text \<open>A process that joined a table other processes share, for the witnesses.\<close>

definition two_processes :: "shm_map \<Rightarrow> shm_mem \<Rightarrow> unit session_world" where
  "two_processes h m = \<lparr>sw_procs = [shm_world h m, shm_world h m], sw_share = share_of (shm_world h m)\<rparr>"

lemma two_processes_shared:
  assumes "shm_inv xattrs_serde h m"
  shows "shm_shared example_params (two_processes h m)"
    and "free_slots (two_processes h m) = card (empties h m)"
    and "session_state example_params (two_processes h m) =
      (shm_get_inode xattrs_serde h m, shm_current_uid m, shm_current_gid m)"
proof -
  note S = shm_world_session [OF assms]
  have sel: "sc_map (ip_shm (shm_world h m)) = Some h" "sc_mem (ip_shm (shm_world h m)) = m"
      "sc_active (ip_shm (shm_world h m))"
    by (simp_all add: shm_world_def)
  show "shm_shared example_params (two_processes h m)"
    using S sel by (simp add: shm_shared_def session_shared_def two_processes_def proc_at_def)
  show "free_slots (two_processes h m) = card (empties h m)"
    by (simp add: free_slots_def two_processes_def proc_at_def sel)
  show "session_state example_params (two_processes h m) =
      (shm_get_inode xattrs_serde h m, shm_current_uid m, shm_current_gid m)"
    using shm_session_view(1,2) [OF S] sel
    by (simp add: session_state_def two_processes_def proc_at_def sc_get_inode_def sc_the_map_def
        shm_mode_active_def example_params_def)
qed

section \<open>Properties\<close>



text \<open>A process that does nothing leaves the session as it is.\<close>

lemma idle_process:
  fixes W :: "'k session_world"
  assumes "p < length (sw_procs W)"
  defines "W' \<equiv> W\<lparr>sw_procs := (sw_procs W)[p := proc_at W p], sw_share := share_of (proc_at W p)\<rparr>"
  shows "q < length (sw_procs W) \<Longrightarrow> proc_at W' q = proc_at W q"
    and "session_shared P W \<Longrightarrow> session_shared P W'"
proof -
  have share': "share_of (join_share s w) = s" for s and w :: "(rpc_world, 'k) interpose"
    by (simp add: share_of_def join_share_def)
  then have share: "share_of (proc_at W p) = sw_share W" by (simp add: proc_at_def)
  have join: "join_share s (join_share s w) = join_share s w" for s and w :: "(rpc_world, 'k) interpose"
    by (simp add: join_share_def)
  then show "q < length (sw_procs W) \<Longrightarrow> proc_at W' q = proc_at W q"
    using assms(1) by (cases "q = p") (simp_all add: W'_def proc_at_def share')
  assume sh: "session_shared P W"
  have map: "sc_map (ip_shm (proc_at W p)) = sc_map (ip_shm (sw_procs W ! p))"
    by (simp add: proc_at_def join_share_def)
  have upd: "w \<in> set (sw_procs W) \<or> w = proc_at W p" if "w \<in> set (sw_procs W')" for w
    using that set_update_subset_insert [of "sw_procs W" p "proc_at W p"] by (auto simp: W'_def)
  have mem: "sw_procs W ! p \<in> set (sw_procs W)" by (rule nth_mem [OF assms(1)])
  have "sw_procs W' \<noteq> []" using sh by (simp add: W'_def session_shared_def)
  moreover have "sw_share W' = sw_share W" by (simp add: W'_def share)
  moreover have "join_share (sw_share W) (proc_at W p) = join_share (sw_share W) (sw_procs W ! p)"
    by (simp add: proc_at_def join)
  ultimately show "session_shared P W'"
    using sh upd mem map unfolding session_shared_def by metis
qed

text \<open>
  C23: A chown of an existing file in one process of a session returns 0, and no process stops
  being in the session.  What it gave is what a stat in any of its processes, the same one or
  another, reports next, unless the shared table has no entry for the file and no place for
  one: then every process reports what it did before.  (With a daemon, the entry has to fit the
  protocol's frames.)
\<close>

theorem chown_seen_by_other_process:
  assumes "session_shared P W" and "p < length (sw_procs W)" and "q < length (sw_procs W)"
    and "real_stat (se_kernel P) (Some path) True (ss_kernel (sw_share W)) = (0, st)"
    and "session_can_chown P (proc_at W p) (key_from_stat st) u g \<or> table_full (proc_at W p) (key_from_stat st)"
  shows "\<exists>W' st'. in_process p (h_chown P (Some path) u g) W = (0, W') \<and> session_shared P W' \<and>
    fst (in_process q (h_stat P (Some path) True) W') = (0, st') \<and>
    (if table_full (proc_at W p) (key_from_stat st) then
       (0, st') = fst (in_process q (h_stat P (Some path) True) W)
     else
       st_uid st' = (if u = ID_UNCHANGED then i_uid (spec_entry (session_state P W) (key_from_stat st)) else u) \<and>
       st_gid st' = (if g = ID_UNCHANGED then i_gid (spec_entry (session_state P W) (key_from_stat st)) else g))"
proof (cases "table_full (proc_at W p) (key_from_stat st)")
  case True
  let ?w = "proc_at W p"
  let ?W = "W\<lparr>sw_procs := (sw_procs W)[p := ?w], sw_share := share_of ?w\<rparr>"
  note ok = shared_ok [OF assms(1,2)]
  have kernel: "ip_kernel (proc_at W r) = ss_kernel (sw_share W)" for r by (simp add: proc_at_def)
  have "h_chown P (Some path) u g ?w = (0, ?w)"
    using session_record_chown_full [OF ok real_stat_source True] assms(4)
    by (simp add: h_chown_def record_chown_path_def kernel)
  then have chown: "in_process p (h_chown P (Some path) u g) W = (0, ?W)" by (simp add: in_process_def)
  note idle = idle_process [OF assms(2)]
  have "fst (in_process q (h_stat P (Some path) True) ?W) = fst (in_process q (h_stat P (Some path) True) W)"
    by (simp add: in_process_def case_prod_beta idle(1) [OF assms(3)])
  moreover have "fst (in_process q (h_stat P (Some path) True) W) = (0, reported P (proc_at W q) st)"
    using hook_stat [OF shared_ok [OF assms(1,3)], of "Some path" st] assms(4)
    by (simp add: in_process_def case_prod_beta kernel)
  ultimately show ?thesis using chown idle(2) [OF assms(1)] True by simp
next
  case False
  let ?k = "key_from_stat st" and ?w = "proc_at W p"
  let ?e = "Change_Owner p ?k u g"
  let ?W = "run_event P ?e W"
  have can: "session_can_chown P ?w ?k u g" using assms(5) False by simp
  then have fits: "event_fits P ?e W" using assms(2) by simp
  note ok = shared_ok [OF assms(1,2)]
  have kernel: "ip_kernel ?w = ss_kernel (sw_share W)" by (simp add: proc_at_def)
  have "h_chown P (Some path) u g ?w = (0, record_chown_key P ?k u g ?w)"
    using real_stat_source [of "se_kernel P" path "ip_kernel ?w" st] assms(4) session_ready [OF ok]
    by (simp add: h_chown_def record_chown_path_def record_chown_def kernel)
  then have chown: "in_process p (h_chown P (Some path) u g) W = (0, ?W)" by (simp add: in_process_def)
  note run = run_event_effect [OF assms(1) fits]
  have q: "q < length (sw_procs ?W)" using assms(3) by simp
  note ok' = shared_ok [OF conjunct1 [OF run] q]
  have "ss_kernel (sw_share ?W) = ss_kernel (sw_share W)"
    using session_chown [OF ok can] kernel by (simp add: in_process_def session_rest_def)
  then have "fst (h_stat P (Some path) True (proc_at ?W q)) = (0, reported P (proc_at ?W q) st)"
    using hook_stat [OF ok'] assms(4) by (simp add: proc_at_def)
  moreover have "session_view P (proc_at ?W q) ?k = Some (merge_ids u g (spec_entry (session_state P W) ?k))"
    using shared_state(1) [OF conjunct1 [OF run] q] run by simp
  ultimately show ?thesis
    using chown run False by (intro exI [of _ ?W] exI [of _ "reported P (proc_at ?W q) st"])
      (simp add: in_process_def case_prod_beta reported_def)
qed

theorem chown_seen_by_other_process_witness:
  "\<exists>h m W' st'. in_process 0 (h_chown example_params (Some (bytes_of ''/f'')) 33 ID_UNCHANGED) (two_processes h m) = (0, W') \<and>
     fst (in_process 1 (h_stat example_params (Some (bytes_of ''/f'')) True) W') = (0, st') \<and>
     st_uid st' = 33 \<and> st_gid st' = 0"
proof -
  obtain h m where hm: "shm_create os_all_ok 65536 0 0 = Inr (h, m)" "nslots h = 65536"
    by (rule created_example)
  let ?W = "two_processes h m" and ?k = "key_from_stat (example_stat 42 0x81A4)"
  note W = two_processes_shared [OF created_inv [OF xattrs_serde_ok hm(1)]]
  have procs: "length (sw_procs ?W) = 2" by (simp add: two_processes_def)
  have "event_fits example_params (Change_Owner 0 ?k 33 ID_UNCHANGED) ?W"
    by (rule event_fits_shm [OF W(1)]) (simp_all add: procs W(2) card_empties_created [OF hm(1)] hm(2))
  then have can: "session_can_chown example_params (proc_at ?W 0) ?k 33 ID_UNCHANGED" by simp
  then have room: "\<not> table_full (proc_at ?W 0) ?k" by (rule can_not_full(2))
  have state: "session_state example_params ?W = (Map.empty, 0, 0)"
    using created_empty [OF hm(1)] W(3) shm_create_success(4) [OF hm(1)]
    by (simp add: fun_eq_iff shm_current_uid_def shm_current_gid_def)
  have "session_shared example_params ?W" using W(1) by (simp add: shm_shared_def)
  from chown_seen_by_other_process [OF this, of 0 1 "bytes_of ''/f''", OF _ _ _ disjI1 [OF can]] procs room
  obtain W' st' where "in_process 0 (h_chown example_params (Some (bytes_of ''/f'')) 33 ID_UNCHANGED) ?W = (0, W')"
      "fst (in_process 1 (h_stat example_params (Some (bytes_of ''/f'')) True) W') = (0, st')"
      "st_uid st' = 33" "st_gid st' = 0"
    by (auto simp: state spec_entry_def ID_UNCHANGED_def fake_inode_new_def)
  then show ?thesis by blast
qed

end
