(* ===== verification/Session_Properties.thy ===== *)
theory Session_Properties
  imports Session_Laws Hook_Properties Daemon_Properties
begin

text \<open>
  The properties of starting a session: what the supervised command finds in its environment,
  that \<open>pdr\<close> gives it the session it asks for, the extracted library file, stopping a daemon.
\<close>

section \<open>A file system and a system for the witnesses\<close>






definition example_session_os :: "unit session_os" where
  "example_session_os =
     \<lparr>ss_embedded = [1], ss_hash = (\<lambda>_. 7), ss_getuid = (\<lambda>_. 0), ss_pid = 1,
      ss_exists = (\<lambda>_ _. True), ss_create_dir_all = (\<lambda>_ f. (None, f)), ss_write = (\<lambda>_ _ f. (None, f)),
      ss_rename = (\<lambda>_ _ f. (None, f)), ss_temp_dir = (\<lambda>f. (Inr (bytes_of ''/tmp/x''), f)),
      ss_remove_temp = (\<lambda>_ f. f), ss_shm = os_all_ok,
      ss_server = \<lparr>so_remove_file = (\<lambda>_ f. (None, f)), so_bind = (\<lambda>_ f. (None, f)),
        so_listener_nonblocking = (\<lambda>f. (None, f)), so_set_permissions = (\<lambda>_ _ f. (None, f))\<rparr>,
      ss_join = (\<lambda>_ f. Some f), ss_getfd = (\<lambda>_ _. 1), ss_setfd = (\<lambda>_ _ f. f),
      ss_status = (\<lambda>_ f. (Inr (Some 3), f))\<rparr>"

lemma session_environment:
  "child_env e (session_command e b lib program args) key =
     (if key = SUPERVISE_VAR then None
      else if key = PRELOAD_ENV then
        Some (case e PRELOAD_ENV of Some x \<Rightarrow> x @ bytes_of '':'' @ lib | None \<Rightarrow> lib)
      else if key = UID_ENV \<or> key = GID_ENV then
        (case e key of Some v \<Rightarrow> Some v | None \<Rightarrow> Some (bytes_of ''0''))
      else
        (case b of
           ShmBacking h m \<Rightarrow>
             if key = SHM_FD_ENV then Some (bytes_of (show_i32 (sm_fd h)))
             else if key = SHM_LEN_ENV then Some (bytes_of (show_nat (sm_len h))) else e key
         | DaemonBacking sd \<Rightarrow> if key = DAEMON_SOCKET_ENV then Some (sd_socket_path sd) else e key))"
  "cm_program (session_command e b lib program args) = program"
  "cm_args (session_command e b lib program args) = args"
  "cm_dir (session_command e b lib program args) = None"
  by (cases b; auto simp: session_command_def apply_preload_env preload_value_def Let_def split: option.split)+

section \<open>Properties\<close>

text \<open>
  C33: The environment of a supervised command is the supervisor's except for the supervision
  marker, which is gone, the library to preload, which is appended to what was preloaded, the
  two ids, which default to 0, and the variables that name the session's table or its daemon.
  The program and its arguments are the ones asked for.
\<close>

theorem session_command_environment:
  "child_env e (session_command e b lib program args) key =
     (if key = SUPERVISE_VAR then None
      else if key = PRELOAD_ENV then
        Some (case e PRELOAD_ENV of Some x \<Rightarrow> x @ bytes_of '':'' @ lib | None \<Rightarrow> lib)
      else if key = UID_ENV \<or> key = GID_ENV then
        (case e key of Some v \<Rightarrow> Some v | None \<Rightarrow> Some (bytes_of ''0''))
      else
        (case b of
           ShmBacking h m \<Rightarrow>
             if key = SHM_FD_ENV then Some (bytes_of (show_i32 (sm_fd h)))
             else if key = SHM_LEN_ENV then Some (bytes_of (show_nat (sm_len h))) else e key
         | DaemonBacking sd \<Rightarrow> if key = DAEMON_SOCKET_ENV then Some (sd_socket_path sd) else e key)) \<and>
   cm_program (session_command e b lib program args) = program \<and>
   cm_args (session_command e b lib program args) = args \<and>
   cm_dir (session_command e b lib program args) = None"
  by (simp add: session_environment)

text \<open>
  C34: Running \<open>pdr --uid U --gid G -- command\<close> outside any session re-executes \<open>pdr\<close> as the
  supervisor, which creates a table and exits with the command's status.  The command starts
  as user \<open>U\<close> and group \<open>G\<close>, and its first file operation joins it to that table, which is
  empty and holds the same ids.
\<close>

theorem pdr_run_joins_fresh_session:
  assumes "e SUPERVISE_VAR = None" and "env_var e DAEMON_SOCKET_ENV = None" and "env_var e STANDALONE_ENV = None"
    and "session_shm_enabled e"
    and "base = run_base program args False None uid gid"
    and "supervisor_env = child_env e (build_supervise_command base)"
    and "library_path S supervisor_env f = (Some lib, f_lib)" and "ss_temp_dir S f_lib = (Inr dir, f_dir)"
    and "shm_create (ss_shm S) 0x10000 uid gid = Inr (h, m)"
    and "target = session_command supervisor_env (ShmBacking h m) lib program args"
    and "ss_status S target (clear_cloexec S (ShmBacking h m) f_dir) = (Inr status, f_end)"
    and "serde_ok (se_xattrs P)" and "0 \<le> sint (os_dup (se_shm_os P (sm_fd h)))"
    and "os_mmap_ok (se_shm_os P (sm_fd h))"
  shows "fakeroot S e base f = (Some (build_supervise_command base), f) \<and>
    session_init S supervisor_env (supervisor_exe # cm_args (build_supervise_command base)) f =
      Some (Some (case status of Some code \<Rightarrow> code | None \<Rightarrow> 1), ss_remove_temp S dir f_end) \<and>
    (let w = process_start (child_env supervisor_env target) m net k; w' = ensure_library_init P w in
      fst (h_getuid P w) = uid \<and> fst (h_getgid P w) = gid \<and>
      shm_session P w' \<and> session_ids w' = (uid, gid) \<and> session_view P w' = Map.empty)"
proof (intro conjI)
  let ?e = supervisor_env and ?t = "child_env supervisor_env target"
  note sup = supervisor_environment [OF assms(5)]
  have e: "?e UID_ENV = Some (bytes_of (show_nat (unat uid)))" "?e GID_ENV = Some (bytes_of (show_nat (unat gid)))"
      "?e SESSION_SHM_ENV = e SESSION_SHM_ENV" "?e SUPERVISE_VAR = Some (bytes_of ''1'')"
    by (simp_all add: assms(6) sup(1))
  show "fakeroot S e base f = (Some (build_supervise_command base), f)"
    using assms(1-3) sup(3) by (simp add: fakeroot_def)
  have "session_shm_enabled ?e" using assms(4) e(3) by (simp add: session_shm_enabled_def env_var_def)
  then have "run_session S ?e (program # args) f = Some (Inr status, ss_remove_temp S dir f_end)"
    using assms(7-11) env_u32_show [of ?e, OF e(1)] env_u32_show [of ?e, OF e(2)]
    by (simp add: run_session_def start_backing_def end_session_def Let_def)
  then show "session_init S ?e (supervisor_exe # cm_args (build_supervise_command base)) f =
      Some (Some (case status of Some code \<Rightarrow> code | None \<Rightarrow> 1), ss_remove_temp S dir f_end)"
    by (simp add: session_init_def sup(2) e(4))
  have t: "?t UID_ENV = ?e UID_ENV" "?t GID_ENV = ?e GID_ENV"
      "?t SHM_FD_ENV = Some (bytes_of (show_i32 (sm_fd h)))" "?t SHM_LEN_ENV = Some (bytes_of (show_nat (sm_len h)))"
    using e by (simp_all add: assms(10) session_environment)
  note J = start_joins_table [where P = P, OF assms(9) created_inv [OF assms(12,9)] refl assms(13,14) t(3,4)]
  show "let w = process_start ?t m net k; w' = ensure_library_init P w in
      fst (h_getuid P w) = uid \<and> fst (h_getgid P w) = gid \<and>
      shm_session P w' \<and> session_ids w' = (uid, gid) \<and> session_view P w' = Map.empty"
    using J(1-3) start_ids [where P = P, of ?t uid gid] t(1,2) e(1,2) created_empty [OF assms(9)]
    by (simp add: Let_def fun_eq_iff)
qed

theorem pdr_run_joins_fresh_session_witness:
  "\<exists>target m w. (let S = example_session_os; e = child_env (\<lambda>_. None)
        (build_supervise_command (run_base (bytes_of ''id'') [] False None 1000 100)) in
     session_init S e (supervisor_exe # [bytes_of ''id'']) () = Some (Some 3, ()) \<and>
     w = ensure_library_init example_params (process_start (child_env e target) m (dl_net no_link) ()) \<and>
     shm_session example_params w \<and> session_ids w = (1000, 100))"
proof -
  let ?base = "run_base (bytes_of ''id'') [] False None 1000 100"
  let ?e = "child_env (\<lambda>_. None) (build_supervise_command ?base)"
  obtain h m where hm: "shm_create os_all_ok 0x10000 1000 100 = Inr (h, m)"
    using shm_create_ok [of os_all_ok "0x10000" 1000 100] by auto
  have lib: "library_path example_session_os ?e () = (Some (embed_path example_session_os ?e ()), ())"
    using supervisor_environment(1) [OF refl, where e = "\<lambda>_. None"]
    by (simp add: library_path_def env_var_def extract_embedded_lib_def example_session_os_def Let_def env_names bytes_of_def)
  have os: "ss_temp_dir example_session_os f = (Inr (bytes_of ''/tmp/x''), f)" "ss_shm example_session_os = os_all_ok"
      "ss_status example_session_os c f = (Inr (Some 3), f)" "ss_remove_temp example_session_os d f = f" for c d f
    by (simp_all add: example_session_os_def)
  have par: "se_shm_os example_params fd = os_all_ok" "serde_ok (se_xattrs example_params)" for fd
    using xattrs_serde_ok by (simp_all add: example_params_def)
  note T = pdr_run_joins_fresh_session [where S = example_session_os and P = example_params and e = "\<lambda>_. None" and
      program = "bytes_of ''id''" and args = "[]" and uid = 1000 and gid = 100 and f = "()" and h = h and m = m,
      OF _ _ _ _ refl refl lib os(1) _ refl os(3)]
  show ?thesis
    using T hm par supervisor_environment(2) [OF refl, of "bytes_of ''id''" "[]" 1000 100]
    by (auto simp: Let_def os env_var_def session_shm_enabled_def)
qed

text \<open>
  A command run with \<open>pdr --daemon\<close> inside a session on shared memory does not use the
  daemon: it inherits the variables of the session's table and joins that, under the table's
  ids instead of those on the command line, and never connects to the daemon it was given.
\<close>

lemma outer_table_shadows_daemon:
  assumes "shm_create os sc outer_uid outer_gid = Inr (h, m)" and "shm_inv (se_xattrs P) h mem"
    and "sh_header mem = sh_header m"
    and "0 \<le> sint (os_dup (se_shm_os P (sm_fd h)))" and "os_mmap_ok (se_shm_os P (sm_fd h))"
    and "e SHM_FD_ENV = Some (bytes_of (show_i32 (sm_fd h)))" and "e SHM_LEN_ENV = Some (bytes_of (show_nat (sm_len h)))"
    and "library_path S e f = (Some lib, f_lib)"
  shows "\<exists>cmd. fakeroot S e (run_base program args True socket_path uid gid) f = (Some cmd, f_lib) \<and>
    cm_program cmd = program \<and> cm_args cmd = args \<and>
    child_env e cmd DAEMON_SOCKET_ENV = Some (socket_or_default socket_path) \<and>
    (let w = process_start (child_env e cmd) mem net k; w' = ensure_library_init P w in
      fst (h_getuid P w) = uid \<and> shm_session P w' \<and> session_ids w' = (outer_uid, outer_gid) \<and>
      fst (h_getuid P w') = outer_uid \<and> session_view P w' = shm_get_inode (se_xattrs P) h mem \<and>
      ip_link w' = ip_link w)"
proof -
  let ?base = "run_base program args True socket_path uid gid"
  let ?cmd = "apply_preload e lib (clone_command ?base)"
  note base = run_base_simps [of program args True socket_path uid gid]
  note C = clone_command [OF base(1,2)]
  note A = apply_preload_env [OF C(3,4), of e lib]
  have "\<not> session_supervision_enabled e ?base"
    by (simp add: session_supervision_enabled_def command_has_env_iff [OF base(1)] base(5))
  then have "fakeroot S e ?base f = (Some ?cmd, f_lib)" by (simp add: fakeroot_def assms(8))
  moreover have env: "child_env e ?cmd UID_ENV = Some (bytes_of (show_nat (unat uid)))"
      "child_env e ?cmd GID_ENV = Some (bytes_of (show_nat (unat gid)))"
      "child_env e ?cmd SHM_FD_ENV = e SHM_FD_ENV" "child_env e ?cmd SHM_LEN_ENV = e SHM_LEN_ENV"
      "child_env e ?cmd DAEMON_SOCKET_ENV = Some (socket_or_default socket_path)"
    by (simp_all add: A(1) C(5) child_env_vars [OF base(2)] base(5))
  note J = start_joins_table [where P = P and e = "child_env e ?cmd", OF assms(1-5), unfolded env(3,4), OF assms(6,7)]
  have "session_ok P (ensure_library_init P (process_start (child_env e ?cmd) mem net k))"
    using J(1) by (simp add: session_ok_def)
  from session_reads(8) [OF this] have
    "fst (h_getuid P (ensure_library_init P (process_start (child_env e ?cmd) mem net k))) = outer_uid"
    using J(2) by (simp add: h_getuid_def)
  ultimately show ?thesis
    using J start_ids [where P = P, OF env(1,2)] A(2,3) C(1,2) base(3,4) env(5)
    by (intro exI [of _ ?cmd]) (simp add: Let_def)
qed





text \<open>
  C36: \<open>pdr stop\<close> ends with code 0 in both cases: with a daemon behind the socket it raises the
  daemon's shutdown flag and changes nothing else of its state, without one it only removes the
  socket file; \<open>pdr status\<close> tells the two apart.
\<close>

theorem stop_daemon_outcome:
  assumes "codecs_ok (po_codecs S)" and "po_streams S = rpc_ops (po_codecs S)"
    and "rp_tx w = []" and "rp_rx w = []"
    and "fits_frame (po_codecs S) (pm_new Shutdown [] 1)" and "fits_frame (po_codecs S) (pm_response 1 [])"
  shows "stop_daemon S socket_path w =
      (0, if rp_up w then w\<lparr>rp_daemon := (rp_daemon w)\<lparr>d_shutdown := True\<rparr>\<rparr>
          else snd (so_remove_file (ss_server (po_session S)) (socket_or_default socket_path) w)) \<and>
    check_daemon_status S socket_path w = (if rp_up w then 0 else 1, w)"
proof (cases "rp_up w")
  case True
  let ?ch = "(ipc_new (socket_or_default socket_path))\<lparr>ch_stream := True\<rparr>"
  have reply: "dispatch_message (po_codecs S) (pm_new Shutdown [] 1) (rp_daemon w) =
      (pm_response 1 [], (rp_daemon w)\<lparr>d_shutdown := True\<rparr>)"
    by (simp add: dispatch_message_def)
  have "ipc_connect (po_streams S) (ipc_new (socket_or_default socket_path), w) = (None, ?ch, w)"
    using True by (simp add: ipc_connect_def ipc_new_def assms(2) rpc_ops_def)
  moreover have "ipc_request (po_codecs S) (po_streams S) ?ch (pm_new Shutdown [] 1) w =
      (Inr (pm_response 1 []), w\<lparr>rp_daemon := (rp_daemon w)\<lparr>d_shutdown := True\<rparr>\<rparr>)"
    using rpc_request [OF assms(1), of w ?ch "pm_new Shutdown [] 1"] True assms(2-6) reply
    by (simp add: rpc_idle_def)
  ultimately show ?thesis
    using True by (simp add: stop_daemon_def next_request_id_def REQUEST_ID_init_def
        check_daemon_status_def assms(2) rpc_ops_def Let_def)
next
  case False
  then show ?thesis
    by (simp add: stop_daemon_def check_daemon_status_def ipc_connect_def ipc_new_def assms(2) rpc_ops_def
        case_prod_beta Let_def)
qed

theorem stop_daemon_outcome_witness:
  "stop_daemon \<lparr>po_session = undefined, po_codecs = example_codecs, po_streams = rpc_ops example_codecs,
       po_loop = undefined, po_set_handler = True\<rparr> None
     \<lparr>rp_daemon = \<lparr>d_state = fake_root_state_new, d_shutdown = False\<rparr>, rp_tx = [], rp_rx = [], rp_up = True\<rparr> =
   (0, \<lparr>rp_daemon = \<lparr>d_state = fake_root_state_new, d_shutdown = True\<rparr>, rp_tx = [], rp_rx = [], rp_up = True\<rparr>)"
proof -
  have "fits_frame example_codecs (pm_new Shutdown [] 1)" "fits_frame example_codecs (pm_response 1 [])"
    by (simp_all add: pm_response_def pm_new_def fits_small)
  then show ?thesis
    by (subst stop_daemon_outcome [THEN conjunct1]) (simp_all add: example_codecs_ok)
qed

end
