(* ===== verification/Darwin.thy ===== *)
theory Darwin
  imports Hooks
begin

text \<open>
  The macOS side of the interposed library (\<open>pseudoroot/interpose/src/platform/macos.rs\<close>) and of the
  shared table (\<open>create_anon_shm_fd\<close> of \<open>pseudoroot-core/src/shm_map.rs\<close>): the direct calls of the
  C library, the attribute hooks with their \<open>options\<close>, the interposition table, and the names of
  shared-memory objects.  Where they go on to shared code, it is that of \<open>Ownership\<close> and
  \<open>Xattr_Ops\<close>, over the parameters \<open>P\<close>.
\<close>

type_synonym isize = "64 word"

definition XATTR_NOFOLLOW :: i32 where "XATTR_NOFOLLOW = 1"

text \<open>
  The C library of macOS over a system state \<open>'k\<close> and its \<open>struct stat\<close> \<open>'st\<close>; \<open>mode_t\<close> has 16 bits
  and \<open>dev_t\<close> 32.  The attribute calls take the resource-fork position and the options.
\<close>

record ('st, 'k) darwin =
  dw_stat :: "cstr \<Rightarrow> bool \<Rightarrow> 'k \<Rightarrow> i32 \<times> 'st"
  dw_fstat :: "i32 \<Rightarrow> bool \<Rightarrow> 'k \<Rightarrow> i32 \<times> 'st"
  dw_lstat :: "cstr \<Rightarrow> bool \<Rightarrow> 'k \<Rightarrow> i32 \<times> 'st"
  dw_fstatat :: "i32 \<Rightarrow> cstr \<Rightarrow> bool \<Rightarrow> i32 \<Rightarrow> 'k \<Rightarrow> i32 \<times> 'st"
  dw_chmod :: "cstr \<Rightarrow> u16 \<Rightarrow> 'k \<Rightarrow> i32 \<times> 'k"
  dw_fchmod :: "i32 \<Rightarrow> u16 \<Rightarrow> 'k \<Rightarrow> i32 \<times> 'k"
  dw_fchmodat :: "i32 \<Rightarrow> cstr \<Rightarrow> u16 \<Rightarrow> i32 \<Rightarrow> 'k \<Rightarrow> i32 \<times> 'k"
  dw_unlink :: "cstr \<Rightarrow> 'k \<Rightarrow> i32 \<times> 'k"
  dw_unlinkat :: "i32 \<Rightarrow> cstr \<Rightarrow> i32 \<Rightarrow> 'k \<Rightarrow> i32 \<times> 'k"
  dw_rmdir :: "cstr \<Rightarrow> 'k \<Rightarrow> i32 \<times> 'k"
  dw_rename :: "cstr \<Rightarrow> cstr \<Rightarrow> 'k \<Rightarrow> i32 \<times> 'k"
  dw_renameat :: "i32 \<Rightarrow> cstr \<Rightarrow> i32 \<Rightarrow> cstr \<Rightarrow> 'k \<Rightarrow> i32 \<times> 'k"
  dw_mknod :: "cstr \<Rightarrow> u16 \<Rightarrow> i32 \<Rightarrow> 'k \<Rightarrow> i32 \<times> 'k"
  dw_mknodat :: "i32 \<Rightarrow> cstr \<Rightarrow> u16 \<Rightarrow> i32 \<Rightarrow> 'k \<Rightarrow> i32 \<times> 'k"
  dw_getxattr :: "cstr \<Rightarrow> cstr \<Rightarrow> bytes option \<Rightarrow> nat \<Rightarrow> u32 \<Rightarrow> i32 \<Rightarrow> 'k \<Rightarrow> isize \<times> bytes option"
  dw_fgetxattr :: "i32 \<Rightarrow> cstr \<Rightarrow> bytes option \<Rightarrow> nat \<Rightarrow> u32 \<Rightarrow> i32 \<Rightarrow> 'k \<Rightarrow> isize \<times> bytes option"
  dw_listxattr :: "cstr \<Rightarrow> bytes option \<Rightarrow> nat \<Rightarrow> i32 \<Rightarrow> 'k \<Rightarrow> isize \<times> bytes option"
  dw_flistxattr :: "i32 \<Rightarrow> bytes option \<Rightarrow> nat \<Rightarrow> i32 \<Rightarrow> 'k \<Rightarrow> isize \<times> bytes option"

section \<open>The real calls\<close>

definition mac_real_stat :: "('st, 'k) darwin \<Rightarrow> cstr \<Rightarrow> bool \<Rightarrow> 'k \<Rightarrow> i32 \<times> 'st" where
  "mac_real_stat D path buf k = dw_stat D path buf k"

definition mac_real_fstat :: "('st, 'k) darwin \<Rightarrow> i32 \<Rightarrow> bool \<Rightarrow> 'k \<Rightarrow> i32 \<times> 'st" where
  "mac_real_fstat D fd buf k = dw_fstat D fd buf k"

definition mac_real_lstat :: "('st, 'k) darwin \<Rightarrow> cstr \<Rightarrow> bool \<Rightarrow> 'k \<Rightarrow> i32 \<times> 'st" where
  "mac_real_lstat D path buf k = dw_lstat D path buf k"

definition mac_real_fstatat :: "('st, 'k) darwin \<Rightarrow> i32 \<Rightarrow> cstr \<Rightarrow> bool \<Rightarrow> i32 \<Rightarrow> 'k \<Rightarrow> i32 \<times> 'st" where
  "mac_real_fstatat D dirfd pathname buf flags k = dw_fstatat D dirfd pathname buf flags k"

definition mac_real_chmod :: "('st, 'k) darwin \<Rightarrow> cstr \<Rightarrow> u16 \<Rightarrow> 'k \<Rightarrow> i32 \<times> 'k" where
  "mac_real_chmod D path mode k = dw_chmod D path mode k"

definition mac_real_fchmod :: "('st, 'k) darwin \<Rightarrow> i32 \<Rightarrow> u16 \<Rightarrow> 'k \<Rightarrow> i32 \<times> 'k" where
  "mac_real_fchmod D fd mode k = dw_fchmod D fd mode k"

definition mac_real_fchmodat :: "('st, 'k) darwin \<Rightarrow> i32 \<Rightarrow> cstr \<Rightarrow> u16 \<Rightarrow> i32 \<Rightarrow> 'k \<Rightarrow> i32 \<times> 'k" where
  "mac_real_fchmodat D dirfd path mode flags k = dw_fchmodat D dirfd path mode flags k"

definition mac_real_unlink :: "('st, 'k) darwin \<Rightarrow> cstr \<Rightarrow> 'k \<Rightarrow> i32 \<times> 'k" where
  "mac_real_unlink D path k = dw_unlink D path k"

definition mac_real_unlinkat :: "('st, 'k) darwin \<Rightarrow> i32 \<Rightarrow> cstr \<Rightarrow> i32 \<Rightarrow> 'k \<Rightarrow> i32 \<times> 'k" where
  "mac_real_unlinkat D dirfd path flags k = dw_unlinkat D dirfd path flags k"

definition mac_real_rmdir :: "('st, 'k) darwin \<Rightarrow> cstr \<Rightarrow> 'k \<Rightarrow> i32 \<times> 'k" where
  "mac_real_rmdir D path k = dw_rmdir D path k"

definition mac_real_rename :: "('st, 'k) darwin \<Rightarrow> cstr \<Rightarrow> cstr \<Rightarrow> 'k \<Rightarrow> i32 \<times> 'k" where
  "mac_real_rename D oldpath newpath k = dw_rename D oldpath newpath k"

definition mac_real_renameat :: "('st, 'k) darwin \<Rightarrow> i32 \<Rightarrow> cstr \<Rightarrow> i32 \<Rightarrow> cstr \<Rightarrow> 'k \<Rightarrow> i32 \<times> 'k" where
  "mac_real_renameat D olddirfd oldpath newdirfd newpath k = dw_renameat D olddirfd oldpath newdirfd newpath k"

definition mac_real_mknod :: "('st, 'k) darwin \<Rightarrow> cstr \<Rightarrow> u16 \<Rightarrow> i32 \<Rightarrow> 'k \<Rightarrow> i32 \<times> 'k" where
  "mac_real_mknod D pathname mode dev k = dw_mknod D pathname mode dev k"

definition mac_real_mknodat :: "('st, 'k) darwin \<Rightarrow> i32 \<Rightarrow> cstr \<Rightarrow> u16 \<Rightarrow> i32 \<Rightarrow> 'k \<Rightarrow> i32 \<times> 'k" where
  "mac_real_mknodat D dirfd pathname mode dev k = dw_mknodat D dirfd pathname mode dev k"

text \<open>\<open>ret.try_into().unwrap_or(-1)\<close> from \<open>isize\<close> to \<open>i32\<close>.\<close>

definition i32_or_failure :: "isize \<Rightarrow> i32" where
  "i32_or_failure ret =
     (if - (2 ^ 31) \<le> sint ret \<and> sint ret < 2 ^ 31 then word_of_int (sint ret) else - 1)"

definition mac_getxattr_impl ::
    "('st, 'k) darwin \<Rightarrow> cstr \<Rightarrow> cstr \<Rightarrow> bytes option \<Rightarrow> nat \<Rightarrow> i32 \<Rightarrow> 'k \<Rightarrow> i32 \<times> bytes option" where
  "mac_getxattr_impl D path name v sz options k =
     (case dw_getxattr D path name v sz 0 options k of (ret, b) \<Rightarrow> (i32_or_failure ret, b))"

definition mac_real_getxattr ::
    "('st, 'k) darwin \<Rightarrow> cstr \<Rightarrow> cstr \<Rightarrow> bytes option \<Rightarrow> nat \<Rightarrow> 'k \<Rightarrow> i32 \<times> bytes option" where
  "mac_real_getxattr D path name v sz k = mac_getxattr_impl D path name v sz 0 k"

definition mac_real_lgetxattr ::
    "('st, 'k) darwin \<Rightarrow> cstr \<Rightarrow> cstr \<Rightarrow> bytes option \<Rightarrow> nat \<Rightarrow> 'k \<Rightarrow> i32 \<times> bytes option" where
  "mac_real_lgetxattr D path name v sz k = mac_getxattr_impl D path name v sz XATTR_NOFOLLOW k"

definition mac_real_fgetxattr ::
    "('st, 'k) darwin \<Rightarrow> i32 \<Rightarrow> cstr \<Rightarrow> bytes option \<Rightarrow> nat \<Rightarrow> 'k \<Rightarrow> i32 \<times> bytes option" where
  "mac_real_fgetxattr D fd name v sz k =
     (case dw_fgetxattr D fd name v sz 0 0 k of (ret, b) \<Rightarrow> (i32_or_failure ret, b))"

definition mac_listxattr_impl ::
    "('st, 'k) darwin \<Rightarrow> cstr \<Rightarrow> bytes option \<Rightarrow> nat \<Rightarrow> i32 \<Rightarrow> 'k \<Rightarrow> i32 \<times> bytes option" where
  "mac_listxattr_impl D path lst sz options k =
     (case dw_listxattr D path lst sz options k of (ret, b) \<Rightarrow> (i32_or_failure ret, b))"

definition mac_real_listxattr ::
    "('st, 'k) darwin \<Rightarrow> cstr \<Rightarrow> bytes option \<Rightarrow> nat \<Rightarrow> 'k \<Rightarrow> i32 \<times> bytes option" where
  "mac_real_listxattr D path lst sz k = mac_listxattr_impl D path lst sz 0 k"

definition mac_real_llistxattr ::
    "('st, 'k) darwin \<Rightarrow> cstr \<Rightarrow> bytes option \<Rightarrow> nat \<Rightarrow> 'k \<Rightarrow> i32 \<times> bytes option" where
  "mac_real_llistxattr D path lst sz k = mac_listxattr_impl D path lst sz XATTR_NOFOLLOW k"

definition mac_real_flistxattr ::
    "('st, 'k) darwin \<Rightarrow> i32 \<Rightarrow> bytes option \<Rightarrow> nat \<Rightarrow> 'k \<Rightarrow> i32 \<times> bytes option" where
  "mac_real_flistxattr D fd lst sz k =
     (case dw_flistxattr D fd lst sz 0 k of (ret, b) \<Rightarrow> (i32_or_failure ret, b))"

section \<open>The attribute hooks\<close>

definition nofollow :: "i32 \<Rightarrow> bool" where
  "nofollow options \<longleftrightarrow> options AND XATTR_NOFOLLOW \<noteq> 0"

text \<open>The results of the get and list hooks are widened (\<open>as isize\<close>).\<close>

definition widened :: "((i32 \<times> 'b) \<times> 'w) option \<Rightarrow> ((isize \<times> 'b) \<times> 'w) option" where
  "widened r = map_option (\<lambda>((rc, b), w). ((scast rc, b), w)) r"

definition mac_setxattr ::
    "('w, 'k) params \<Rightarrow> cstr \<Rightarrow> cstr \<Rightarrow> bytes option \<Rightarrow> nat \<Rightarrow> u32 \<Rightarrow> i32 \<Rightarrow> ('w, 'k) interpose \<Rightarrow>
       i32 \<times> ('w, 'k) interpose" where
  "mac_setxattr P path name v sz position options w = fake_setxattr_path P path name v sz (nofollow options) w"

definition mac_fsetxattr ::
    "('w, 'k) params \<Rightarrow> i32 \<Rightarrow> cstr \<Rightarrow> bytes option \<Rightarrow> nat \<Rightarrow> u32 \<Rightarrow> i32 \<Rightarrow> ('w, 'k) interpose \<Rightarrow>
       i32 \<times> ('w, 'k) interpose" where
  "mac_fsetxattr P fd name v sz position options w = fake_setxattr_fd P fd name v sz w"

definition mac_getxattr ::
    "('w, 'k) params \<Rightarrow> cstr \<Rightarrow> cstr \<Rightarrow> bytes option \<Rightarrow> nat \<Rightarrow> u32 \<Rightarrow> i32 \<Rightarrow> ('w, 'k) interpose \<Rightarrow>
       ((isize \<times> bytes option) \<times> ('w, 'k) interpose) option" where
  "mac_getxattr P path name v sz position options w = widened (fake_getxattr_path P path name v sz (nofollow options) w)"

definition mac_fgetxattr ::
    "('w, 'k) params \<Rightarrow> i32 \<Rightarrow> cstr \<Rightarrow> bytes option \<Rightarrow> nat \<Rightarrow> u32 \<Rightarrow> i32 \<Rightarrow> ('w, 'k) interpose \<Rightarrow>
       ((isize \<times> bytes option) \<times> ('w, 'k) interpose) option" where
  "mac_fgetxattr P fd name v sz position options w = widened (fake_getxattr_fd P fd name v sz w)"

definition mac_listxattr ::
    "('w, 'k) params \<Rightarrow> cstr \<Rightarrow> bytes option \<Rightarrow> nat \<Rightarrow> i32 \<Rightarrow> ('w, 'k) interpose \<Rightarrow>
       ((isize \<times> bytes option) \<times> ('w, 'k) interpose) option" where
  "mac_listxattr P path lst sz options w = widened (fake_listxattr_path P path lst sz (nofollow options) w)"

definition mac_flistxattr ::
    "('w, 'k) params \<Rightarrow> i32 \<Rightarrow> bytes option \<Rightarrow> nat \<Rightarrow> i32 \<Rightarrow> ('w, 'k) interpose \<Rightarrow>
       ((isize \<times> bytes option) \<times> ('w, 'k) interpose) option" where
  "mac_flistxattr P fd lst sz options w = widened (fake_listxattr_fd P fd lst sz w)"

definition mac_removexattr ::
    "('w, 'k) params \<Rightarrow> cstr \<Rightarrow> cstr \<Rightarrow> i32 \<Rightarrow> ('w, 'k) interpose \<Rightarrow>
       i32 \<times> ('w, 'k) interpose" where
  "mac_removexattr P path name options w = fake_removexattr_path P path name (nofollow options) w"

definition mac_fremovexattr ::
    "('w, 'k) params \<Rightarrow> i32 \<Rightarrow> cstr \<Rightarrow> i32 \<Rightarrow> ('w, 'k) interpose \<Rightarrow>
       i32 \<times> ('w, 'k) interpose" where
  "mac_fremovexattr P fd name options w = fake_removexattr_fd P fd name w"

section \<open>The interposition table\<close>

text \<open>The entries of \<open>__DATA,__interpose\<close>: the function of the C library and what replaces it.\<close>

datatype replacement = Shared_Hook string | Xattr_Hook string

definition interpose_table :: "(string \<times> replacement) list" where
  "interpose_table =
     [(''getuid'', Shared_Hook ''getuid''), (''geteuid'', Shared_Hook ''geteuid''),
      (''getgid'', Shared_Hook ''getgid''), (''getegid'', Shared_Hook ''getegid''),
      (''setuid'', Shared_Hook ''setuid''), (''setgid'', Shared_Hook ''setgid''),
      (''setreuid'', Shared_Hook ''setreuid''), (''setregid'', Shared_Hook ''setregid''),
      (''setgroups'', Shared_Hook ''setgroups''), (''chown'', Shared_Hook ''chown''),
      (''lchown'', Shared_Hook ''lchown''), (''fchown'', Shared_Hook ''fchown''),
      (''fchownat'', Shared_Hook ''fchownat''), (''stat'', Shared_Hook ''stat''),
      (''fstat'', Shared_Hook ''fstat''), (''lstat'', Shared_Hook ''lstat''),
      (''fstatat'', Shared_Hook ''fstatat''), (''chmod'', Shared_Hook ''chmod''),
      (''fchmod'', Shared_Hook ''fchmod''), (''fchmodat'', Shared_Hook ''fchmodat''),
      (''unlink'', Shared_Hook ''unlink''), (''unlinkat'', Shared_Hook ''unlinkat''),
      (''rmdir'', Shared_Hook ''rmdir''), (''rename'', Shared_Hook ''rename''),
      (''renameat'', Shared_Hook ''renameat''), (''mknod'', Shared_Hook ''mknod''),
      (''mknodat'', Shared_Hook ''mknodat''), (''setxattr'', Xattr_Hook ''setxattr''),
      (''fsetxattr'', Xattr_Hook ''fsetxattr''), (''getxattr'', Xattr_Hook ''getxattr''),
      (''fgetxattr'', Xattr_Hook ''fgetxattr''), (''listxattr'', Xattr_Hook ''listxattr''),
      (''flistxattr'', Xattr_Hook ''flistxattr''),
      (''removexattr'', Xattr_Hook ''removexattr''),
      (''fremovexattr'', Xattr_Hook ''fremovexattr'')]"

text \<open>
  The hooks of \<open>lib.rs\<close> that are compiled on macOS, and those of them for which the comment on the
  table says that libSystem has no such function.
\<close>

definition shared_hooks :: "string list" where
  "shared_hooks =
     [''getuid'', ''geteuid'', ''getgid'', ''getegid'', ''getresuid'', ''getresgid'',
      ''setuid'', ''setgid'', ''setreuid'', ''setregid'', ''setresuid'', ''setresgid'',
      ''setfsuid'', ''setfsgid'', ''chown'', ''stat'', ''fstat'', ''lstat'', ''fstatat'',
      ''chmod'', ''fchmod'', ''fchmodat'', ''lchown'', ''fchown'', ''fchownat'', ''unlink'',
      ''unlinkat'', ''rmdir'', ''rename'', ''renameat'', ''mknod'', ''mknodat'', ''setgroups'']"

definition without_counterpart :: "string list" where
  "without_counterpart =
     [''getresuid'', ''getresgid'', ''setresuid'', ''setresgid'', ''setfsuid'', ''setfsgid'']"

definition xattr_hooks :: "string list" where
  "xattr_hooks =
     [''setxattr'', ''fsetxattr'', ''getxattr'', ''fgetxattr'', ''listxattr'', ''flistxattr'',
      ''removexattr'', ''fremovexattr'']"

section \<open>Shared-memory objects\<close>

definition anon_shm_name :: "u32 \<Rightarrow> u32 \<Rightarrow> string" where
  "anon_shm_name pid seq = ''/psr.'' @ show_nat (unat pid) @ ''.'' @ show_nat (unat seq)"

text \<open>
  \<open>shm_open\<close> (for reading and writing, to be created, exclusively) and \<open>shm_unlink\<close> are parameters;
  the result is the descriptor, if any, with the process's counter and the system state after it.
\<close>

definition mac_create_anon_shm_fd ::
    "u32 \<Rightarrow> (string \<Rightarrow> 'k \<Rightarrow> i32 \<times> 'k) \<Rightarrow> (string \<Rightarrow> 'k \<Rightarrow> 'k) \<Rightarrow> u32 \<times> 'k \<Rightarrow> i32 option \<times> u32 \<times> 'k"
where
  "mac_create_anon_shm_fd pid shm_open shm_unlink s =
     (case s of (seq, k) \<Rightarrow>
      let name = anon_shm_name pid seq in
      case shm_open name k of (fd, k) \<Rightarrow>
        if sint fd < 0 then (None, seq + 1, k) else (Some fd, seq + 1, shm_unlink name k))"

section \<open>The hooks beside those of Linux\<close>

text \<open>
  The option bit chooses between the two hooks that Linux has for it; widening keeps the result;
  a length that does not fit is a failure and never another length.
\<close>

lemma mac_path_hooks:
  "mac_setxattr P path name v sz position options w =
     (if nofollow options then h_lsetxattr else h_setxattr) P path name v sz options w"
  "mac_getxattr P path name v sz position options w =
     widened ((if nofollow options then h_lgetxattr else h_getxattr) P path name v sz w)"
  "mac_listxattr P path lst sz options w =
     widened ((if nofollow options then h_llistxattr else h_listxattr) P path lst sz w)"
  "mac_removexattr P path name options w =
     (if nofollow options then h_lremovexattr else h_removexattr) P path name w"
  by (simp_all add: mac_setxattr_def mac_getxattr_def mac_listxattr_def mac_removexattr_def
      h_setxattr_def h_lsetxattr_def h_getxattr_def h_lgetxattr_def h_listxattr_def h_llistxattr_def
      h_removexattr_def h_lremovexattr_def)

lemma sint_widened: "sint (scast (rc :: i32) :: isize) = sint rc"
  by (simp add: sint_up_scast is_up)

lemma sint_i32_or_failure:
  "sint (i32_or_failure ret) = (if - (2 ^ 31) \<le> sint ret \<and> sint ret < 2 ^ 31 then sint ret else - 1)"
proof -
  have "sint (word_of_int x :: i32) = x" if "- (2 ^ 31) \<le> x" "x < 2 ^ 31" for x
    using that by (simp add: int_word_sint)
  from this [of "sint ret"] show ?thesis by (simp add: i32_or_failure_def)
qed

section \<open>Facts on names\<close>

lemma length_show_nat: "n < 10 ^ k \<Longrightarrow> 0 < k \<Longrightarrow> length (show_nat n) \<le> k"
proof (induction k arbitrary: n)
  case (Suc k)
  show ?case
  proof (cases "n < 10")
    case False
    then have "0 < k" using Suc.prems(1) by (cases k) auto
    moreover have "n div 10 < 10 ^ k" using Suc.prems(1) by (simp add: less_mult_imp_div_less mult.commute)
    ultimately show ?thesis using Suc.IH [of "n div 10"] False by (subst show_nat.simps) simp
  qed (simp add: show_nat.simps)
qed simp

lemma show_u32_inj: "show_nat (unat a) = show_nat (unat b) \<longleftrightarrow> a = (b :: u32)"
  by (metis parse_u32_show option.inject)

text \<open>Two digit strings with a point between them can be told apart.\<close>

lemma append_sep_eq:
  "x \<notin> set as \<Longrightarrow> x \<notin> set bs \<Longrightarrow> as @ x # cs = bs @ x # ds \<longleftrightarrow> as = bs \<and> cs = ds"
proof (induction as arbitrary: bs)
  case Nil
  then show ?case by (cases bs) auto
next
  case (Cons a as)
  then show ?case by (cases bs) auto
qed

lemma no_point: "CHR ''.'' \<notin> set (show_nat n)"
  using show_nat_digits [of "CHR ''.''" n] by (auto simp: digit_val_def)

lemma anon_shm_name_eq: "anon_shm_name pid seq = anon_shm_name pid' seq' \<longleftrightarrow> pid = pid' \<and> seq = seq'"
  by (simp add: anon_shm_name_def append_sep_eq no_point show_u32_inj)

lemma anon_shm_name_length: "length (anon_shm_name pid seq) \<le> 26"
proof -
  have "length (show_nat (unat w)) \<le> 10" for w :: u32
    using unat_less_u32 [of w] by (intro length_show_nat) simp_all
  from this [of pid] this [of seq] show ?thesis by (simp add: anon_shm_name_def)
qed

section \<open>Properties\<close>

text \<open>
  C39: On macOS the shared object of a session has a name within the limit of 31 bytes that no other
  process and, for \<open>2 ^ 32\<close> calls, no other call of the same process uses, and whether the call
  succeeds or not, no name is left behind.
\<close>

theorem mac_shm_name_not_left:
  assumes "\<And>name k. names (snd (shm_open name k)) =
        (if sint (fst (shm_open name k)) < 0 then names k else insert name (names k))"
    and "\<And>name k. name \<in> names k \<Longrightarrow> sint (fst (shm_open name k)) < 0"
    and "\<And>name k. names (shm_unlink name k) = names k - {name}"
    and "mac_create_anon_shm_fd pid shm_open shm_unlink (seq, k) = (r, seq', k')"
  shows "names k' = names k \<and> seq' = seq + 1 \<and> length (anon_shm_name pid seq) \<le> 31 \<and>
    (\<forall>pid2 seq2. anon_shm_name pid2 seq2 = anon_shm_name pid seq \<longleftrightarrow> pid2 = pid \<and> seq2 = seq)"
proof -
  have "names k' = names k"
    using assms(4) assms(1,2) [where name = "anon_shm_name pid seq" and k = k]
      assms(3) [where name = "anon_shm_name pid seq"]
    by (auto simp: mac_create_anon_shm_fd_def Let_def case_prod_beta split: if_splits)
  then show ?thesis
    using assms(4) anon_shm_name_length [of pid seq]
    by (auto simp: mac_create_anon_shm_fd_def Let_def case_prod_beta anon_shm_name_eq split: if_splits)
qed

theorem mac_shm_name_not_left_witness:
  "\<exists>r k'. mac_create_anon_shm_fd 77 (\<lambda>name k. if name \<in> k then (- 1, k) else (3, insert name k))
      (\<lambda>name k. k - {name}) (5, {''/psr.77.4''}) = (r, 6, k') \<and> k' = {''/psr.77.4''}"
proof -
  obtain r seq' k' where run: "mac_create_anon_shm_fd 77
      (\<lambda>name k. if name \<in> k then (- 1, k) else (3, insert name k)) (\<lambda>name k. k - {name})
      (5, {''/psr.77.4''}) = (r, seq', k')"
    by (rule prod_cases3)
  have "k' = {''/psr.77.4''} \<and> seq' = 6"
    using mac_shm_name_not_left [where names = id, OF _ _ _ run] by (simp split: if_splits)
  with run show ?thesis by blast
qed

text \<open>
  The interposition table replaces every function once, exactly those of the shared hooks that
  macOS has and the attribute functions, each by the hook of its own name.
\<close>

lemma interpose_table_wired:
  "distinct (map fst interpose_table) \<and>
   set (map fst interpose_table) = set (filter (\<lambda>f. f \<notin> set without_counterpart) shared_hooks @ xattr_hooks) \<and>
   list_all (\<lambda>(f, r). r = (if f \<in> set xattr_hooks then Xattr_Hook f else Shared_Hook f)) interpose_table"
proof (intro conjI)
  show "distinct (map fst interpose_table)" by (simp add: interpose_table_def)
  show "set (map fst interpose_table) = set (filter (\<lambda>f. f \<notin> set without_counterpart) shared_hooks @ xattr_hooks)"
    by (simp add: interpose_table_def shared_hooks_def without_counterpart_def xattr_hooks_def
        insert_commute)
  show "list_all (\<lambda>(f, r). r = (if f \<in> set xattr_hooks then Xattr_Hook f else Shared_Hook f)) interpose_table"
    by (simp add: interpose_table_def xattr_hooks_def)
qed

end
