(* ===== verification/Build_Script.thy ===== *)
theory Build_Script
  imports Process Protocol "HOL-Library.Sublist"
begin

text \<open>
  The build script of the package (\<open>pseudoroot/build.rs\<close>): it copies the bundled source of the
  interposed library into a package of its own, writes a manifest for it, builds that with a
  nested \<open>cargo\<close> and passes on where the library is.

  The file system and the run of \<open>cargo\<close> are calls on an abstract state \<open>'f\<close>.  A directory is
  listed at once when it is opened.
\<close>

section \<open>The script\<close>

datatype build_error =
    Not_Set bytes
  | Clean_Failed bytes io_error
  | Mkdir_Failed bytes io_error
  | Read_Failed bytes io_error
  | Readdir_Failed io_error
  | Copy_Failed bytes io_error
  | Write_Manifest_Failed io_error
  | Non_Utf8_Path
  | Spawn_Failed io_error
  | Nested_Build_Failed "i32 option"
  | No_Library bytes

record 'f build_os =
  bo_exists :: "bytes \<Rightarrow> 'f \<Rightarrow> bool"
  bo_is_dir :: "bytes \<Rightarrow> 'f \<Rightarrow> bool"
  bo_remove_dir_all :: "bytes \<Rightarrow> 'f \<Rightarrow> io_error option \<times> 'f"
  bo_create_dir_all :: "bytes \<Rightarrow> 'f \<Rightarrow> io_error option \<times> 'f"
  bo_read_dir :: "bytes \<Rightarrow> 'f \<Rightarrow> io_error + (io_error + bytes) list"
  bo_copy :: "bytes \<Rightarrow> bytes \<Rightarrow> 'f \<Rightarrow> io_error option \<times> 'f"
  bo_write :: "bytes \<Rightarrow> bytes \<Rightarrow> 'f \<Rightarrow> io_error option \<times> 'f"
  bo_status :: "command \<Rightarrow> 'f \<Rightarrow> (io_error + i32 option) \<times> 'f"

definition require_env :: "environ \<Rightarrow> string \<Rightarrow> build_error + bytes" where
  "require_env e key =
     (case env_var e (bytes_of key) of Some v \<Rightarrow> Inr v | None \<Rightarrow> Inl (Not_Set (bytes_of key)))"

text \<open>The two calls \<open>copy_dir\<close> begins with, and its loop over the entries with the recursive call.\<close>

definition enter_dir ::
    "'f build_os \<Rightarrow> bytes \<Rightarrow> bytes \<Rightarrow> 'f \<Rightarrow> (build_error + (io_error + bytes) list) \<times> 'f" where
  "enter_dir S src dst f =
     (case bo_create_dir_all S dst f of
        (Some err, f) \<Rightarrow> (Inl (Mkdir_Failed dst err), f)
      | (None, f) \<Rightarrow>
          (case bo_read_dir S src f of
             Inl err \<Rightarrow> (Inl (Read_Failed src err), f)
           | Inr entries \<Rightarrow> (Inr entries, f)))"

partial_function (option) copy_entries ::
    "'f build_os \<Rightarrow> bytes \<Rightarrow> bytes \<Rightarrow> (io_error + bytes) list \<Rightarrow> 'f \<Rightarrow> (build_error option \<times> 'f) option"
where
  "copy_entries S src dst entries f =
     (case entries of
        [] \<Rightarrow> Some (None, f)
      | Inl err # rest \<Rightarrow> Some (Some (Readdir_Failed err), f)
      | Inr name # rest \<Rightarrow>
          (if bo_is_dir S (path_join src name) f then
             (case enter_dir S (path_join src name) (path_join dst name) f of
                (Inl err, f) \<Rightarrow> Some (Some err, f)
              | (Inr inner, f) \<Rightarrow>
                  Option.bind (copy_entries S (path_join src name) (path_join dst name) inner f)
                    (\<lambda>(r, f). case r of
                       Some err \<Rightarrow> Some (Some err, f)
                     | None \<Rightarrow> copy_entries S src dst rest f))
           else
             (case bo_copy S (path_join src name) (path_join dst name) f of
                (Some err, f) \<Rightarrow> Some (Some (Copy_Failed (path_join src name) err), f)
              | (None, f) \<Rightarrow> copy_entries S src dst rest f)))"

declare copy_entries.simps [code]

definition copy_dir :: "'f build_os \<Rightarrow> bytes \<Rightarrow> bytes \<Rightarrow> 'f \<Rightarrow> (build_error option \<times> 'f) option" where
  "copy_dir S src dst f =
     (case enter_dir S src dst f of
        (Inl err, f) \<Rightarrow> Some (Some err, f)
      | (Inr entries, f) \<Rightarrow> copy_entries S src dst entries f)"

text \<open>\<open>MANIFEST\<close>, line by line.\<close>

definition line :: "string \<Rightarrow> string" where
  "line s = s @ [CHR 0x0A]"

definition quoted :: "string \<Rightarrow> string" where
  "quoted s = CHR 0x22 # s @ [CHR 0x22]"

definition MANIFEST :: bytes where
  "MANIFEST = bytes_of (concat (map line
     [''[package]'',
      ''name = '' @ quoted ''pseudoroot-lib-embed'',
      ''version = '' @ quoted ''0.2.3'',
      ''edition = '' @ quoted ''2024'',
      ''publish = false'',
      '''',
      ''[lib]'',
      ''name = '' @ quoted ''pseudoroot_lib'',
      ''crate-type = ['' @ quoted ''cdylib'' @ '']'',
      ''path = '' @ quoted ''src/lib.rs'',
      '''',
      ''[dependencies]'',
      ''ctor = '' @ quoted ''1'',
      ''libc = '' @ quoted ''0.2'',
      ''pseudoroot-core = '' @ quoted ''0.2.3'',
      '''',
      ''[workspace]'']))"

text \<open>
  The format \<open>{:?}\<close> of a path, for the characters of ASCII; the others stand for themselves,
  as those do that Rust counts as printable.
\<close>

definition escape_debug :: "u8 \<Rightarrow> bytes" where
  "escape_debug b =
     (if b = 0x22 \<or> b = 0x5C then [0x5C, b]
      else if b = 0 then bytes_of [CHR 0x5C, CHR ''0'']
      else if b = 0x09 then bytes_of [CHR 0x5C, CHR ''t'']
      else if b = 0x0A then bytes_of [CHR 0x5C, CHR ''n'']
      else if b = 0x0D then bytes_of [CHR 0x5C, CHR ''r'']
      else if b < 0x20 \<or> b = 0x7F then
        bytes_of ([CHR 0x5C] @ ''u{'' @ (if b < 16 then '''' else [hex_digit (unat b div 16)]) @
          [hex_digit (unat b mod 16)] @ ''}'')
      else [b])"

definition debug_path :: "bytes \<Rightarrow> bytes" where
  "debug_path p = [0x22] @ concat (map escape_debug p) @ [0x22]"

text \<open>\<open>Path::parent\<close>, up to the slashes and dots that do not count.\<close>

definition path_parent :: "bytes \<Rightarrow> bytes option" where
  "path_parent p =
     (let cs = path_components p
      in if cs = [] \<or> cs = [[of_char CHR ''/'']] then None else Some (foldl path_join [] (butlast cs)))"

text \<open>The manifest with the patch for a build inside the workspace, and the nested command.\<close>

definition manifest_text :: "'f build_os \<Rightarrow> bytes \<Rightarrow> 'f \<Rightarrow> bytes" where
  "manifest_text S manifest_dir f =
     (case path_parent manifest_dir of
        Some ws \<Rightarrow>
          (let core = path_join ws (bytes_of ''pseudoroot-core'') in
           if bo_exists S (path_join core (bytes_of ''Cargo.toml'')) f
           then MANIFEST @ bytes_of (line '''' @ line ''[patch.crates-io]'' @ ''pseudoroot-core = { path = '') @
             debug_path core @ bytes_of (line '' }'')
           else MANIFEST)
      | None \<Rightarrow> MANIFEST)"

definition nested_build :: "bytes \<Rightarrow> bytes \<Rightarrow> bytes \<Rightarrow> bytes \<Rightarrow> bytes \<Rightarrow> bytes \<Rightarrow> command" where
  "nested_build cargo manifest target embed_target_dir out_dir profile =
     (let cmd = command_current_dir out_dir
            (command_args [embed_target_dir]
              (command_args [bytes_of ''build'', bytes_of ''--manifest-path'', manifest,
                 bytes_of ''--target'', target, bytes_of ''--target-dir'']
                (command_new cargo)))
      in if profile = bytes_of ''release'' then command_args [bytes_of ''--release''] cmd else cmd)"

text \<open>\<open>str::contains\<close>.\<close>

definition contains :: "bytes \<Rightarrow> bytes \<Rightarrow> bool" where
  "contains hay needle \<longleftrightarrow>
     list_ex (\<lambda>i. take (length needle) (drop i hay) = needle) [0..<Suc (length hay)]"

definition embedded_name :: "bytes \<Rightarrow> bytes" where
  "embedded_name target =
     (if contains target (bytes_of ''apple'') then bytes_of ''libpseudoroot_lib.dylib''
      else bytes_of ''libpseudoroot_lib.so'')"

text \<open>From the generated manifest on.\<close>

definition build_generated ::
    "'f build_os \<Rightarrow> bytes \<Rightarrow> bytes \<Rightarrow> bytes \<Rightarrow> bytes \<Rightarrow> bytes \<Rightarrow> bytes \<Rightarrow> 'f \<Rightarrow>
       (build_error + bytes list) \<times> 'f" where
  "build_generated S target profile interpose out_dir cargo gen_dir f =
     (let embed_target_dir = path_join out_dir (bytes_of ''embed-target'');
          manifest = path_join gen_dir (bytes_of ''Cargo.toml'') in
      if \<not> utf8_valid manifest then (Inl Non_Utf8_Path, f)
      else
        (case bo_status S (nested_build cargo manifest target embed_target_dir out_dir profile) f of
           (Inl err, f) \<Rightarrow> (Inl (Spawn_Failed err), f)
         | (Inr status, f) \<Rightarrow>
             if status \<noteq> Some 0 then (Inl (Nested_Build_Failed status), f)
             else
               (let lib_path = path_join (path_join (path_join embed_target_dir target) profile)
                      (embedded_name target) in
                if \<not> bo_exists S lib_path f then (Inl (No_Library lib_path), f)
                else (Inr [bytes_of ''cargo:rustc-env=PSEUDOROOT_LIB_EMBED_PATH='' @ lib_path,
                   bytes_of ''cargo:rerun-if-changed='' @ path_join interpose (bytes_of ''src'')], f))))"

text \<open>The lines it prints, or its error; \<open>None\<close> when the copy does not end.\<close>

definition generate_package ::
    "'f build_os \<Rightarrow> bytes \<Rightarrow> bytes \<Rightarrow> bytes \<Rightarrow> 'f \<Rightarrow> (build_error option \<times> 'f) option" where
  "generate_package S manifest_dir interpose gen_dir f =
     (case (if bo_exists S gen_dir f then bo_remove_dir_all S gen_dir f else (None, f)) of
        (Some err, f) \<Rightarrow> Some (Some (Clean_Failed gen_dir err), f)
      | (None, f) \<Rightarrow>
          Option.bind (copy_dir S (path_join interpose (bytes_of ''src'')) (path_join gen_dir (bytes_of ''src'')) f)
            (\<lambda>(r, f). case r of
               Some err \<Rightarrow> Some (Some err, f)
             | None \<Rightarrow>
                 (case bo_write S (path_join gen_dir (bytes_of ''Cargo.toml''))
                         (manifest_text S manifest_dir f) f of
                    (Some err, f) \<Rightarrow> Some (Some (Write_Manifest_Failed err), f)
                  | (None, f) \<Rightarrow> Some (None, f))))"

definition try_main :: "'f build_os \<Rightarrow> environ \<Rightarrow> 'f \<Rightarrow> ((build_error + bytes list) \<times> 'f) option" where
  "try_main S e f =
     (case require_env e ''TARGET'' of Inl err \<Rightarrow> Some (Inl err, f) | Inr target \<Rightarrow>
      case require_env e ''PROFILE'' of Inl err \<Rightarrow> Some (Inl err, f) | Inr profile \<Rightarrow>
      case require_env e ''CARGO_MANIFEST_DIR'' of Inl err \<Rightarrow> Some (Inl err, f) | Inr manifest_dir \<Rightarrow>
      case require_env e ''OUT_DIR'' of Inl err \<Rightarrow> Some (Inl err, f) | Inr out_dir \<Rightarrow>
      case require_env e ''CARGO'' of Inl err \<Rightarrow> Some (Inl err, f) | Inr cargo \<Rightarrow>
        (let interpose = path_join manifest_dir (bytes_of ''interpose'');
             gen_dir = path_join out_dir (bytes_of ''interpose-pkg'')
         in Option.bind (generate_package S manifest_dir interpose gen_dir f)
              (\<lambda>(r, f). case r of
                 Some err \<Rightarrow> Some (Inl err, f)
               | None \<Rightarrow> Some (build_generated S target profile interpose out_dir cargo gen_dir f))))"

text \<open>The exit code.\<close>

definition build_main :: "'f build_os \<Rightarrow> environ \<Rightarrow> 'f \<Rightarrow> (i32 \<times> 'f) option" where
  "build_main S e f =
     map_option (\<lambda>(r, f). (case r of Inl err \<Rightarrow> 1 | Inr printed \<Rightarrow> 0, f)) (try_main S e f)"

end
