(* ===== verification/Build_Properties.thy ===== *)
theory Build_Properties
  imports Build_Script
begin

text \<open>
  What the build script leaves behind: the generated package is a copy of the bundled source.
  Paths are compared by their components, and the file system is read by a function from
  components to what is there.
\<close>

section \<open>Components of joined paths\<close>

definition proper_name :: "bytes \<Rightarrow> bool" where
  "proper_name n \<longleftrightarrow> n \<noteq> [] \<and> of_char CHR ''/'' \<notin> set n \<and> n \<noteq> [of_char CHR ''.'']"

lemma path_pieces_nonempty [simp]: "path_pieces p \<noteq> []"
  by (cases p) (auto split: list.splits)

lemma path_pieces_append:
  "path_pieces (p @ 0x2F # q) = path_pieces p @ path_pieces q"
  by (induction p) (auto split: list.splits)

lemma path_pieces_name: "of_char CHR ''/'' \<notin> set n \<Longrightarrow> path_pieces n = [n]"
  by (induction n) auto

lemma proper_hd: "proper_name n \<Longrightarrow> hd n \<noteq> 0x2F"
  by (cases n) (auto simp: proper_name_def)

lemma components_snoc:
  assumes "proper_name n"
  shows "path_components (p @ 0x2F # n) = (if p = [] then [[0x2F], n] else path_components p @ [n])"
  using assms path_pieces_nonempty [of p]
  by (auto simp: path_components_def path_pieces_append path_pieces_name proper_name_def Let_def hd_append)

lemma components_join:
  assumes "proper_name n"
  shows "path_components (path_join p n) = path_components p @ [n]"
proof (cases "p \<noteq> [] \<and> last p = of_char CHR ''/''")
  case True
  then obtain q where p: "p = q @ [of_char CHR ''/'']" by (metis append_butlast_last_id)
  have "path_components p = (if q = [] then [[of_char CHR ''/'']] else path_components q)"
    using path_pieces_nonempty [of q]
    by (auto simp: p path_components_def path_pieces_append Let_def hd_append)
  moreover have "path_join p n = q @ of_char CHR ''/'' # n"
    using assms proper_hd [OF assms] by (auto simp: path_join_def p proper_name_def)
  ultimately show ?thesis by (simp add: components_snoc [OF assms])
next
  case False
  show ?thesis
  proof (cases "p = []")
    case True
    with assms proper_hd [OF assms] show ?thesis
      by (auto simp: path_join_def path_components_def path_pieces_name proper_name_def Let_def)
  next
    case nonempty: False
    with False assms proper_hd [OF assms] have "path_join p n = p @ of_char CHR ''/'' # n"
      by (auto simp: path_join_def proper_name_def)
    with nonempty show ?thesis by (simp add: components_snoc [OF assms])
  qed
qed

section \<open>What is assumed of the file system\<close>

text \<open>
  \<open>rd\<close> reads a state of the file system.  Removing a directory removes what is below it and nothing
  else; creating one adds directories on the way to it only; a listing is complete when no entry
  of it failed; a copy and a write change one file.  There are no symbolic links.
\<close>

definition build_fs :: "('f \<Rightarrow> bytes list \<Rightarrow> node option) \<Rightarrow> 'f build_os \<Rightarrow> bool" where
  "build_fs rd S \<longleftrightarrow>
     (\<forall>p f. bo_exists S p f \<longleftrightarrow> rd f (path_components p) \<noteq> None) \<and>
     (\<forall>p f. bo_is_dir S p f \<longleftrightarrow> rd f (path_components p) = Some Dir) \<and>
     (\<forall>d f f'. bo_remove_dir_all S d f = (None, f') \<longrightarrow>
        rd f' = (\<lambda>q. if prefix (path_components d) q then None else rd f q)) \<and>
     (\<forall>d f f'. bo_create_dir_all S d f = (None, f') \<longrightarrow> rd f' (path_components d) = Some Dir \<and>
        (\<forall>q. rd f' q = rd f q \<or> rd f q = None \<and> prefix q (path_components d))) \<and>
     (\<forall>d f es. bo_read_dir S d f = Inr es \<longrightarrow> rd f (path_components d) = Some Dir \<and> distinct es \<and>
        (\<forall>n. Inr n \<in> set es \<longrightarrow> rd f (path_components d @ [n]) \<noteq> None) \<and>
        ((\<forall>e\<in>set es. \<not> isl e) \<longrightarrow> (\<forall>n. rd f (path_components d @ [n]) \<noteq> None \<longrightarrow> Inr n \<in> set es))) \<and>
     (\<forall>a b f f'. bo_copy S a b f = (None, f') \<longrightarrow> (\<exists>c. rd f (path_components a) = Some (File c) \<and>
        rd f' = (rd f)(path_components b \<mapsto> File c))) \<and>
     (\<forall>p c f f'. bo_write S p c f = (None, f') \<longrightarrow> rd f' = (rd f)(path_components p \<mapsto> File c))"

lemma build_fsD:
  assumes "build_fs rd S"
  shows "bo_exists S p f \<longleftrightarrow> rd f (path_components p) \<noteq> None"
    and "bo_is_dir S p f \<longleftrightarrow> rd f (path_components p) = Some Dir"
    and "bo_remove_dir_all S d f = (None, f') \<Longrightarrow>
      rd f' = (\<lambda>q. if prefix (path_components d) q then None else rd f q)"
    and "bo_create_dir_all S d f = (None, f') \<Longrightarrow> rd f' (path_components d) = Some Dir"
    and "bo_create_dir_all S d f = (None, f') \<Longrightarrow>
      rd f' q = rd f q \<or> rd f q = None \<and> prefix q (path_components d)"
    and "bo_read_dir S d f = Inr es \<Longrightarrow> rd f (path_components d) = Some Dir \<and> distinct es"
    and "bo_read_dir S d f = Inr es \<Longrightarrow> Inr n \<in> set es \<Longrightarrow> rd f (path_components d @ [n]) \<noteq> None"
    and "bo_read_dir S d f = Inr es \<Longrightarrow> \<forall>e\<in>set es. \<not> isl e \<Longrightarrow>
      rd f (path_components d @ [n]) \<noteq> None \<Longrightarrow> Inr n \<in> set es"
    and "bo_copy S a b f = (None, f') \<Longrightarrow> \<exists>c. rd f (path_components a) = Some (File c) \<and>
      rd f' = (rd f)(path_components b \<mapsto> File c)"
    and "bo_write S p c f = (None, f') \<Longrightarrow> rd f' = (rd f)(path_components p \<mapsto> File c)"
proof -
  note L = assms [unfolded build_fs_def]
  note L2 = L [THEN conjunct2]
  note L3 = L2 [THEN conjunct2]
  note L4 = L3 [THEN conjunct2]
  note L5 = L4 [THEN conjunct2]
  note L6 = L5 [THEN conjunct2]
  note L7 = L6 [THEN conjunct2]
  show "bo_exists S p f \<longleftrightarrow> rd f (path_components p) \<noteq> None" by (rule L [THEN conjunct1, rule_format])
  show "bo_is_dir S p f \<longleftrightarrow> rd f (path_components p) = Some Dir" by (rule L2 [THEN conjunct1, rule_format])
  show "bo_remove_dir_all S d f = (None, f') \<Longrightarrow>
      rd f' = (\<lambda>q. if prefix (path_components d) q then None else rd f q)"
    by (rule L3 [THEN conjunct1, rule_format])
  show "bo_create_dir_all S d f = (None, f') \<Longrightarrow> rd f' (path_components d) = Some Dir"
    "bo_create_dir_all S d f = (None, f') \<Longrightarrow>
      rd f' q = rd f q \<or> rd f q = None \<and> prefix q (path_components d)"
    using L4 [THEN conjunct1] by blast+
  show "bo_read_dir S d f = Inr es \<Longrightarrow> rd f (path_components d) = Some Dir \<and> distinct es"
    "bo_read_dir S d f = Inr es \<Longrightarrow> Inr n \<in> set es \<Longrightarrow> rd f (path_components d @ [n]) \<noteq> None"
    "bo_read_dir S d f = Inr es \<Longrightarrow> \<forall>e\<in>set es. \<not> isl e \<Longrightarrow>
      rd f (path_components d @ [n]) \<noteq> None \<Longrightarrow> Inr n \<in> set es"
    using L5 [THEN conjunct1] by blast+
  show "bo_copy S a b f = (None, f') \<Longrightarrow> \<exists>c. rd f (path_components a) = Some (File c) \<and>
      rd f' = (rd f)(path_components b \<mapsto> File c)"
    by (rule L6 [THEN conjunct1, rule_format])
  show "bo_write S p c f = (None, f') \<Longrightarrow> rd f' = (rd f)(path_components p \<mapsto> File c)"
    by (rule L7 [rule_format])
qed

section \<open>Copying a tree\<close>

text \<open>
  What is below \<open>src\<close> is a tree of at most \<open>d\<close> levels, and the children \<open>N\<close> of \<open>src\<close> were copied
  to \<open>dst\<close>, with no other change.
\<close>

definition tree_at :: "(bytes list \<Rightarrow> node option) \<Rightarrow> bytes list \<Rightarrow> nat \<Rightarrow> bool" where
  "tree_at t src d \<longleftrightarrow> (\<forall>ms. t (src @ ms) \<noteq> None \<longrightarrow> length ms \<le> d) \<and>
     (\<forall>ms n. t (src @ ms @ [n]) \<noteq> None \<longrightarrow> t (src @ ms) = Some Dir \<and> proper_name n)"

definition copied ::
    "(bytes list \<Rightarrow> node option) \<Rightarrow> (bytes list \<Rightarrow> node option) \<Rightarrow> bytes list \<Rightarrow> bytes list \<Rightarrow>
       bytes set \<Rightarrow> bool" where
  "copied t t' src dst N \<longleftrightarrow>
     (\<forall>n\<in>N. \<forall>ms. t' (dst @ n # ms) = t (src @ n # ms)) \<and>
     (\<forall>q. t q \<noteq> None \<or> \<not> prefix q dst \<longrightarrow> (\<forall>n\<in>N. \<not> prefix (dst @ [n]) q) \<longrightarrow> t' q = t q)"

lemma tree_below: "tree_at t src (Suc d) \<Longrightarrow> tree_at t (src @ [n]) d"
  unfolding tree_at_def by (metis Suc_le_mono append.assoc append_Cons append_Nil length_Cons)

lemma tree_none:
  assumes "tree_at t src d" and "t (src @ ms) \<noteq> Some Dir" and "ks \<noteq> []"
  shows "t (src @ ms @ ks) = None"
  using assms(3)
proof (induction ks rule: rev_induct)
  case (snoc k ks)
  have "t (src @ ms @ ks) \<noteq> Some Dir"
    using snoc.IH assms(2) by (cases "ks = []") auto
  then show ?case using assms(1) unfolding tree_at_def by (metis append.assoc)
qed simp

lemma prefix_apart:
  assumes "\<not> prefix a b" and "\<not> prefix b a"
  shows "a @ xs \<noteq> b @ ys" "\<not> prefix (a @ xs) b" "\<not> prefix (a @ xs) (b @ ys)"
  using assms by (metis prefixI prefix_same_cases prefix_def append_prefixD)+

lemma copied_src:
  assumes "copied t t' src dst N" and "\<not> prefix src dst" and "\<not> prefix dst src"
  shows "t' (src @ ms) = t (src @ ms)"
  using assms prefix_apart [OF assms(2,3)] prefix_apart [OF assms(3,2)]
  unfolding copied_def by blast

lemma copied_insert:
  assumes "copied t t1 src dst {n}" and "copied t1 t2 src dst N" and "n \<notin> N"
    and "\<not> prefix src dst" and "\<not> prefix dst src"
  shows "copied t t2 src dst (insert n N)"
proof -
  have src: "t1 (src @ ms) = t (src @ ms)" for ms by (rule copied_src [OF assms(1,4,5)])
  have other: "\<not> prefix (dst @ [k]) (dst @ n # ms)" if "k \<in> N" for k ms
    using that assms(3) by auto
  have "t2 (dst @ n # ms) = t (src @ n # ms)" for ms
  proof -
    have "t2 (dst @ n # ms) = t1 (dst @ n # ms)"
      using assms(2) other unfolding copied_def by simp
    then show ?thesis using assms(1) by (simp add: copied_def)
  qed
  moreover have "t2 (dst @ k # ms) = t (src @ k # ms)" if "k \<in> N" for k ms
    using assms(2) that src [of "k # ms"] by (simp add: copied_def)
  moreover have "t2 q = t q"
    if "t q \<noteq> None \<or> \<not> prefix q dst" "\<forall>k\<in>insert n N. \<not> prefix (dst @ [k]) q" for q
    using assms(1,2) that unfolding copied_def by auto
  ultimately show ?thesis by (auto simp: copied_def)
qed

text \<open>Opening the copy of a directory.\<close>

lemma enter_dir_ok:
  assumes "build_fs rd S" and "enter_dir S src dst f = (Inr es, f1)"
  shows "rd f1 (path_components dst) = Some Dir" "rd f1 (path_components src) = Some Dir" "distinct es"
    and "rd f1 q = rd f q \<or> rd f q = None \<and> prefix q (path_components dst)"
    and "Inr n \<in> set es \<Longrightarrow> rd f1 (path_components src @ [n]) \<noteq> None"
    and "\<forall>e\<in>set es. \<not> isl e \<Longrightarrow> rd f1 (path_components src @ [n]) \<noteq> None \<Longrightarrow> Inr n \<in> set es"
proof -
  have run: "bo_create_dir_all S dst f = (None, f1)" "bo_read_dir S src f1 = Inr es"
    using assms(2) by (auto simp: enter_dir_def split: prod.splits option.splits sum.splits)
  note D = build_fsD [OF assms(1)]
  show "rd f1 (path_components dst) = Some Dir" by (rule D(4) [OF run(1)])
  show "rd f1 (path_components src) = Some Dir" "distinct es" using D(6) [OF run(2)] by simp_all
  show "rd f1 q = rd f q \<or> rd f q = None \<and> prefix q (path_components dst)" by (rule D(5) [OF run(1)])
  show "Inr n \<in> set es \<Longrightarrow> rd f1 (path_components src @ [n]) \<noteq> None" by (rule D(7) [OF run(2)])
  show "\<forall>e\<in>set es. \<not> isl e \<Longrightarrow> rd f1 (path_components src @ [n]) \<noteq> None \<Longrightarrow> Inr n \<in> set es"
    by (rule D(8) [OF run(2)])
qed

text \<open>
  What the copy of a listing starts from: the entries are there, and their places are free.
\<close>

definition can_copy ::
    "(bytes list \<Rightarrow> node option) \<Rightarrow> bytes list \<Rightarrow> bytes list \<Rightarrow> nat \<Rightarrow> (io_error + bytes) list \<Rightarrow> bool"
where
  "can_copy t src dst d es \<longleftrightarrow> tree_at t src d \<and> \<not> prefix src dst \<and> \<not> prefix dst src \<and> distinct es \<and>
     (\<forall>n. Inr n \<in> set es \<longrightarrow> t (src @ [n]) \<noteq> None \<and> (\<forall>ms. t (dst @ n # ms) = None))"

definition names_in :: "(io_error + bytes) list \<Rightarrow> bytes set" where
  "names_in es = {n. Inr n \<in> set es}"

lemma names_in_simps [simp]:
  "names_in [] = {}" "names_in (Inl err # es) = names_in es" "names_in (Inr n # es) = insert n (names_in es)"
  "n \<in> names_in es \<longleftrightarrow> Inr n \<in> set es"
  by (auto simp: names_in_def)

lemma can_copy_rest:
  assumes "can_copy t src dst d (Inr n # es)" and "copied t t1 src dst {n}"
  shows "can_copy t1 src dst d es"
proof -
  have apart: "\<not> prefix src dst" "\<not> prefix dst src" using assms(1) by (simp_all add: can_copy_def)
  note src = copied_src [OF assms(2) apart]
  have "t1 (dst @ k # ms) = t (dst @ k # ms)" if "Inr k \<in> set es" for k ms
  proof -
    have "k \<noteq> n" using assms(1) that by (auto simp: can_copy_def)
    then have "\<not> prefix (dst @ k # ms) dst" "\<not> prefix (dst @ [n]) (dst @ k # ms)" by auto
    then show ?thesis using assms(2) unfolding copied_def by blast
  qed
  then show ?thesis using assms(1) src by (auto simp: can_copy_def tree_at_def)
qed

lemma file_copied:
  assumes "can_copy t src dst d (Inr n # es)" and "t (src @ [n]) = Some (File c)"
  shows "copied t (t(dst @ [n] \<mapsto> File c)) src dst {n}"
proof -
  have "tree_at t src d" using assms(1) by (simp add: can_copy_def)
  from tree_none [OF this, of "[n]"] assms(2) have none: "ms \<noteq> [] \<Longrightarrow> t (src @ n # ms) = None" for ms
    by simp
  have "(t(dst @ [n] \<mapsto> File c)) (dst @ n # ms) = t (src @ n # ms)" for ms
    using assms none [of ms] by (cases "ms = []") (auto simp: can_copy_def)
  then show ?thesis by (auto simp: copied_def)
qed

lemma dir_enter:
  assumes "build_fs rd S" and "enter_dir S src dst f = (Inr es, f1)"
    and "path_components src = a" and "path_components dst = b"
    and "tree_at (rd f) a d" and apart: "\<not> prefix a b" "\<not> prefix b a" and "\<And>ms. rd f (b @ ms) = None"
  shows "can_copy (rd f1) a b d es" and "rd f1 (a @ ms) = rd f (a @ ms)"
proof -
  note E = enter_dir_ok [OF assms(1,2), unfolded assms(3,4)]
  have src: "rd f1 (a @ ms) = rd f (a @ ms)" for ms
    using E(4) [of "a @ ms"] prefix_apart(2) [OF apart] by blast
  then show "rd f1 (a @ ms) = rd f (a @ ms)" .
  have "rd f1 (b @ m # ms) = None" for m ms
    using E(4) [of "b @ m # ms"] assms(8) [of "m # ms"] by simp
  then show "can_copy (rd f1) a b d es"
    using E(3,5) assms(5) apart src by (simp add: can_copy_def tree_at_def)
qed

lemma dir_copied:
  assumes "build_fs rd S" and "enter_dir S src dst f = (Inr es, f1)"
    and "path_components src = a" and "path_components dst = b"
    and "tree_at (rd f) a d" and apart: "\<not> prefix a b" "\<not> prefix b a" and free: "\<And>ms. rd f (b @ ms) = None"
    and "\<forall>e\<in>set es. \<not> isl e" and "copied (rd f1) t a b (names_in es)"
  shows "t (b @ ms) = rd f (a @ ms)"
    and "rd f q \<noteq> None \<or> \<not> prefix q b \<Longrightarrow> \<not> prefix b q \<Longrightarrow> t q = rd f q"
proof -
  note E = enter_dir_ok [OF assms(1,2), unfolded assms(3,4)]
  note src = dir_enter(2) [OF assms(1-8)]
  have sub: "m \<in> names_in es \<Longrightarrow> t (b @ m # ks) = rd f1 (a @ m # ks)" for m ks
    using assms(10) by (simp add: copied_def)
  have frame: "t q = rd f1 q" if "rd f1 q \<noteq> None \<or> \<not> prefix q b"
      "\<forall>m\<in>names_in es. \<not> prefix (b @ [m]) q" for q
    using assms(10) that unfolding copied_def by blast
  show "t (b @ ms) = rd f (a @ ms)"
  proof (cases ms)
    case Nil
    then show ?thesis using frame [of b] E(1,2) src [of "[]"] by simp
  next
    case (Cons m ks)
    show ?thesis
    proof (cases "Inr m \<in> set es")
      case True
      then show ?thesis using sub [of m ks] src [of "m # ks"] by (simp add: Cons)
    next
      case False
      then have "rd f1 (a @ [m]) = None" using E(6) [OF assms(9), of m] by blast
      then have "rd f (a @ [m]) = None" using src [of "[m]"] by simp
      then have "rd f (a @ m # ks) = None"
        using tree_none [OF assms(5), of "[m]" ks] by (cases "ks = []") auto
      moreover have "t (b @ m # ks) = rd f1 (b @ m # ks)"
        using False by (intro frame) auto
      moreover have "rd f1 (b @ m # ks) = None"
        using E(4) [of "b @ m # ks"] free [of "m # ks"] by simp
      ultimately show ?thesis by (simp add: Cons)
    qed
  qed
  show "t q = rd f q" if "rd f q \<noteq> None \<or> \<not> prefix q b" "\<not> prefix b q"
  proof -
    have "rd f1 q = rd f q" using E(4) [of q] that(1) by auto
    moreover have "\<not> prefix (b @ [m]) q" for m using that(2) append_prefixD by blast
    ultimately show ?thesis using frame [of q] that(1) by simp
  qed
qed

lemma subdir:
  assumes "build_fs rd S" and "can_copy (rd f) (path_components src) (path_components dst) (Suc d) (Inr n # es)"
    and "enter_dir S (path_join src n) (path_join dst n) f = (Inr inner, f1)" and "proper_name n"
  shows "can_copy (rd f1) (path_components src @ [n]) (path_components dst @ [n]) d inner"
    and "\<forall>e\<in>set inner. \<not> isl e \<Longrightarrow>
      copied (rd f1) t (path_components src @ [n]) (path_components dst @ [n]) (names_in inner) \<Longrightarrow>
      copied (rd f) t (path_components src) (path_components dst) {n}"
proof -
  let ?a = "path_components src @ [n]" and ?b = "path_components dst @ [n]"
  have apart: "\<not> prefix (path_components src) (path_components dst)" "\<not> prefix (path_components dst) (path_components src)"
    using assms(2) by (simp_all add: can_copy_def)
  have sub: "\<not> prefix ?a ?b" "\<not> prefix ?b ?a"
    using prefix_apart(3) [OF apart, of "[n]" "[n]"] prefix_apart(3) [OF apart(2,1), of "[n]" "[n]"] by blast+
  have free: "rd f (?b @ ms) = None" for ms using assms(2) by (simp add: can_copy_def)
  have tree: "tree_at (rd f) ?a d" using assms(2) tree_below by (simp add: can_copy_def)
  note D = assms(1,3) components_join [OF assms(4)] components_join [OF assms(4)] tree sub free
  show "can_copy (rd f1) ?a ?b d inner" by (rule dir_enter(1) [OF D])
  assume "\<forall>e\<in>set inner. \<not> isl e" and "copied (rd f1) t ?a ?b (names_in inner)"
  note C = dir_copied [OF D this]
  show "copied (rd f) t (path_components src) (path_components dst) {n}"
    unfolding copied_def
  proof (intro conjI ballI allI impI)
    show "t (path_components dst @ m # ms) = rd f (path_components src @ m # ms)" if "m \<in> {n}" for m ms
      using C(1) [of ms] that by simp
    show "t q = rd f q" if "rd f q \<noteq> None \<or> \<not> prefix q (path_components dst)"
      "\<forall>m\<in>{n}. \<not> prefix (path_components dst @ [m]) q" for q
    proof -
      have "q \<noteq> ?b" using that(2) by auto
      then show ?thesis using C(2) [of q] that by auto
    qed
  qed
qed

lemma copy_entries_ok:
  assumes "build_fs rd S" and "can_copy (rd f) (path_components src) (path_components dst) d es"
  shows "\<exists>r f'. copy_entries S src dst es f = Some (r, f') \<and> (r = None \<longrightarrow> (\<forall>e\<in>set es. \<not> isl e) \<and>
    copied (rd f) (rd f') (path_components src) (path_components dst) (names_in es))"
  using assms(2)
proof (induction d arbitrary: src dst es f)
  case 0
  show ?case
  proof (cases es)
    case Nil
    then show ?thesis by (simp add: copy_entries.simps copied_def)
  next
    case (Cons e rest)
    have "e \<noteq> Inr n" for n
      using 0 Cons by (auto simp: can_copy_def tree_at_def dest: spec [of _ "[n]"])
    then obtain err where "e = Inl err" by (cases e) auto
    with Cons show ?thesis by (simp add: copy_entries.simps)
  qed
next
  case (Suc d)
  note outer = Suc.IH
  from Suc.prems show ?case
  proof (induction es arbitrary: f)
    case Nil
    then show ?case by (simp add: copy_entries.simps copied_def)
  next
    case (Cons e es)
    show ?case
    proof (cases e)
      case (Inl err)
      then show ?thesis by (simp add: copy_entries.simps)
    next
      case (Inr n)
      note can = Cons.prems [unfolded Inr]
      have name: "proper_name n" using can by (auto simp: can_copy_def tree_at_def dest: spec [of _ "[]"])
      note join = components_join [OF name]
      have rest: "\<exists>r f'. copy_entries S src dst es f2 = Some (r, f') \<and> (r = None \<longrightarrow>
          (\<forall>e\<in>set (Inr n # es). \<not> isl e) \<and>
          copied (rd f) (rd f') (path_components src) (path_components dst) (names_in (Inr n # es)))"
        if "copied (rd f) (rd f2) (path_components src) (path_components dst) {n}" for f2
      proof -
        have "can_copy (rd f2) (path_components src) (path_components dst) (Suc d) es"
          by (rule can_copy_rest [OF can that])
        from Cons.IH [OF this] obtain r f' where "copy_entries S src dst es f2 = Some (r, f')"
            "r = None \<longrightarrow> (\<forall>e\<in>set es. \<not> isl e) \<and>
              copied (rd f2) (rd f') (path_components src) (path_components dst) (names_in es)"
          by blast
        then show ?thesis
          using copied_insert [OF that, of "rd f'" "names_in es"] can by (auto simp: can_copy_def)
      qed
      show ?thesis
      proof (cases "bo_is_dir S (path_join src n) f")
        case True
        show ?thesis
        proof (cases "enter_dir S (path_join src n) (path_join dst n) f")
          case (Pair entered f1)
          show ?thesis
          proof (cases entered)
            case (Inl err)
            with Pair True Inr show ?thesis by (simp add: copy_entries.simps [of S src dst "Inr n # es"])
          next
            case entries: (Inr inner)
            note enter = Pair [unfolded entries]
            obtain r1 f2 where sub: "copy_entries S (path_join src n) (path_join dst n) inner f1 = Some (r1, f2)"
                "r1 = None \<longrightarrow> (\<forall>e\<in>set inner. \<not> isl e) \<and>
                  copied (rd f1) (rd f2) (path_components src @ [n]) (path_components dst @ [n]) (names_in inner)"
              using outer [of f1 "path_join src n" "path_join dst n" inner] subdir(1) [OF assms(1) can enter name]
              by (auto simp: join)
            show ?thesis
            proof (cases r1)
              case None
              with sub(2) have "copied (rd f) (rd f2) (path_components src) (path_components dst) {n}"
                using subdir(2) [OF assms(1) can enter name] by simp
              from rest [OF this] show ?thesis
                using True enter sub(1) None
                by (simp add: Inr copy_entries.simps [of S src dst "Inr n # es"])
            next
              case (Some err)
              with True enter sub(1) show ?thesis
                by (simp add: Inr copy_entries.simps [of S src dst "Inr n # es"])
            qed
          qed
        qed
      next
        case False
        show ?thesis
        proof (cases "bo_copy S (path_join src n) (path_join dst n) f")
          case (Pair r f2)
          show ?thesis
          proof (cases r)
            case None
            with Pair obtain c where "rd f (path_components src @ [n]) = Some (File c)"
                "rd f2 = (rd f)(path_components dst @ [n] \<mapsto> File c)"
              using build_fsD(9) [OF assms(1)] by (metis join)
            with file_copied [OF can] have "copied (rd f) (rd f2) (path_components src) (path_components dst) {n}"
              by simp
            from rest [OF this] show ?thesis
              using False Pair None by (simp add: Inr copy_entries.simps [of S src dst "Inr n # es"])
          next
            case (Some err)
            with False Pair show ?thesis
              by (simp add: Inr copy_entries.simps [of S src dst "Inr n # es"])
          qed
        qed
      qed
    qed
  qed
qed

lemma copy_dir_ok:
  assumes "build_fs rd S" and "path_components src = a" and "path_components dst = b"
    and "tree_at (rd f) a d" and "\<not> prefix a b" "\<not> prefix b a" and "\<And>ms. rd f (b @ ms) = None"
  shows "\<exists>r f'. copy_dir S src dst f = Some (r, f') \<and> (r = None \<longrightarrow>
    (\<forall>ms. rd f' (b @ ms) = rd f (a @ ms)) \<and>
    (\<forall>q. (rd f q \<noteq> None \<or> \<not> prefix q b) \<and> \<not> prefix b q \<longrightarrow> rd f' q = rd f q))"
proof (cases "enter_dir S src dst f")
  case (Pair entered f1)
  show ?thesis
  proof (cases entered)
    case (Inl err)
    with Pair show ?thesis by (simp add: copy_dir_def)
  next
    case (Inr es)
    note D = assms(1) Pair [unfolded Inr] assms(2-7)
    obtain r f' where run: "copy_entries S src dst es f1 = Some (r, f')"
        "r = None \<longrightarrow> (\<forall>e\<in>set es. \<not> isl e) \<and> copied (rd f1) (rd f') a b (names_in es)"
      using copy_entries_ok [OF assms(1), of f1 src dst d es] dir_enter(1) [OF D] assms(2,3) by auto
    then show ?thesis using Pair Inr dir_copied [OF D] by (auto simp: copy_dir_def)
  qed
qed

section \<open>The generated package\<close>

lemma script_names [simp]:
  "proper_name (bytes_of ''src'')" "proper_name (bytes_of ''interpose'')" "proper_name (bytes_of ''interpose-pkg'')"
  "proper_name (bytes_of ''Cargo.toml'')" "proper_name (bytes_of ''pseudoroot-core'')"
  "bytes_of ''src'' \<noteq> bytes_of ''Cargo.toml''" "bytes_of ''Cargo.toml'' \<noteq> bytes_of ''src''"
  "bytes_of ''pseudoroot-core'' \<noteq> bytes_of ''interpose-pkg''"
  by (simp_all add: proper_name_def bytes_of_def)

lemma manifest_after_write:
  assumes "build_fs rd S" and "bo_write S (path_join (path_join out_dir (bytes_of ''interpose-pkg'')) (bytes_of ''Cargo.toml'')) c f = (None, f')"
  shows "manifest_text S mdir f' = manifest_text S mdir f"
proof -
  note W = build_fsD(10) [OF assms]
  have "bo_exists S (path_join (path_join ws (bytes_of ''pseudoroot-core'')) (bytes_of ''Cargo.toml'')) f' =
      bo_exists S (path_join (path_join ws (bytes_of ''pseudoroot-core'')) (bytes_of ''Cargo.toml'')) f" for ws
    using W by (simp add: build_fsD(1) [OF assms(1)] components_join)
  then show ?thesis by (simp add: manifest_text_def Let_def split: option.splits)
qed

lemma generate_package_ok:
  assumes fs: "build_fs rd S" and a: "a = path_components mdir @ [bytes_of ''interpose'', bytes_of ''src'']"
    and g: "g = path_components odir @ [bytes_of ''interpose-pkg'']"
    and tree: "tree_at (rd f) a d" and apart: "\<not> prefix a (g @ [bytes_of ''src''])" "\<not> prefix g a"
    and whole: "\<And>ms. rd f g = None \<Longrightarrow> rd f (g @ ms) = None"
  shows "\<exists>r f'. generate_package S mdir (path_join mdir (bytes_of ''interpose''))
      (path_join odir (bytes_of ''interpose-pkg'')) f = Some (r, f') \<and>
    (r = None \<longrightarrow> (\<forall>ms. rd f' (g @ bytes_of ''src'' # ms) = rd f (a @ ms)) \<and>
      rd f' (g @ [bytes_of ''Cargo.toml'']) = Some (File (manifest_text S mdir f')) \<and>
      (\<forall>m ms. m \<noteq> bytes_of ''src'' \<and> m \<noteq> bytes_of ''Cargo.toml'' \<longrightarrow> rd f' (g @ m # ms) = None) \<and>
      (\<forall>q. rd f q \<noteq> None \<and> \<not> prefix g q \<longrightarrow> rd f' q = rd f q))"
proof -
  let ?gen = "path_join odir (bytes_of ''interpose-pkg'')"
  let ?src = "path_join (path_join mdir (bytes_of ''interpose'')) (bytes_of ''src'')"
  let ?dst = "path_join ?gen (bytes_of ''src'')" and ?b = "g @ [bytes_of ''src'']"
  have paths: "path_components ?gen = g" "path_components ?src = a" "path_components ?dst = ?b"
      "path_components (path_join ?gen (bytes_of ''Cargo.toml'')) = g @ [bytes_of ''Cargo.toml'']"
    by (simp_all add: components_join a g)
  obtain r0 f0 where clean: "(if bo_exists S ?gen f then bo_remove_dir_all S ?gen f else (None, f)) = (r0, f0)"
    by fastforce
  show ?thesis
  proof (cases r0)
    case (Some err)
    with clean show ?thesis by (simp add: generate_package_def)
  next
    case None
    have f0: "rd f0 q = (if prefix g q then None else rd f q)" for q
    proof (cases "bo_exists S ?gen f")
      case True
      with clean None show ?thesis using build_fsD(3) [OF fs, of ?gen f f0] by (simp add: paths)
    next
      case False
      then have "rd f g = None" by (simp add: build_fsD(1) [OF fs] paths)
      then show ?thesis using clean None False whole by (auto elim: prefixE)
    qed
    have ga: "\<not> prefix g (a @ ms)" for ms
      using apart by (metis prefix_def prefix_order.trans prefix_same_cases append_prefixD prefixI)
    have src: "rd f0 (a @ ms) = rd f (a @ ms)" for ms using f0 [of "a @ ms"] ga [of ms] by simp
    have tree0: "tree_at (rd f0) a d" using tree src by (simp add: tree_at_def)
    have ba: "\<not> prefix ?b a" using apart(2) append_prefixD by blast
    have free: "rd f0 (?b @ ms) = None" for ms using f0 by simp
    note done_copy = copy_dir_ok [OF fs paths(2,3) tree0 apart(1) ba]
    have ended: "\<exists>r f'. copy_dir S ?src ?dst f0 = Some (r, f') \<and> (r = None \<longrightarrow>
        (\<forall>ms. rd f' (?b @ ms) = rd f0 (a @ ms)) \<and>
        (\<forall>q. (rd f0 q \<noteq> None \<or> \<not> prefix q ?b) \<and> \<not> prefix ?b q \<longrightarrow> rd f' q = rd f0 q))"
      by (rule done_copy) (rule free)
    obtain r1 f1 where copy: "copy_dir S ?src ?dst f0 = Some (r1, f1)"
        "r1 = None \<longrightarrow> (\<forall>ms. rd f1 (?b @ ms) = rd f0 (a @ ms)) \<and>
          (\<forall>q. (rd f0 q \<noteq> None \<or> \<not> prefix q ?b) \<and> \<not> prefix ?b q \<longrightarrow> rd f1 q = rd f0 q)"
      using ended by meson
    show ?thesis
    proof (cases r1)
      case (Some err)
      with clean None copy(1) show ?thesis by (simp add: generate_package_def)
    next
      case copied: None
      obtain r2 f2 where wrote: "bo_write S (path_join ?gen (bytes_of ''Cargo.toml'')) (manifest_text S mdir f1) f1 = (r2, f2)"
        by fastforce
      have run: "generate_package S mdir (path_join mdir (bytes_of ''interpose'')) ?gen f =
          Some (map_option Write_Manifest_Failed r2, f2)"
        using clean None copy(1) copied wrote by (simp add: generate_package_def split: option.splits)
      show ?thesis
      proof (cases r2)
        case (Some err)
        with run show ?thesis by simp
      next
        case None
        note f2 = build_fsD(10) [OF fs wrote [unfolded None], unfolded paths]
        have same_text: "manifest_text S mdir f2 = manifest_text S mdir f1"
          by (rule manifest_after_write [OF fs wrote [unfolded None]])
        have same: "rd f1 (g @ bytes_of ''src'' # ms) = rd f (a @ ms)" for ms
          using copy(2) copied src [of ms] by auto
        have stale: "rd f1 (g @ m # ms) = None" if "m \<noteq> bytes_of ''src''" for m ms
        proof -
          have "rd f1 (g @ m # ms) = rd f0 (g @ m # ms)" using copy(2) copied that by simp
          then show ?thesis using f0 by simp
        qed
        have out: "rd f1 q = rd f q" if "rd f q \<noteq> None" "\<not> prefix g q" for q
        proof -
          have "rd f0 q = rd f q" "\<not> prefix ?b q" using f0 [of q] that append_prefixD [of g _ q] by auto
          then show ?thesis using copy(2) copied that by simp
        qed
        have "rd f2 (g @ bytes_of ''src'' # ms) = rd f (a @ ms)" for ms using same by (simp add: f2)
        moreover have "rd f2 (g @ [bytes_of ''Cargo.toml'']) = Some (File (manifest_text S mdir f2))"
          by (simp add: f2 same_text)
        moreover have "rd f2 (g @ m # ms) = None" if "m \<noteq> bytes_of ''src''" "m \<noteq> bytes_of ''Cargo.toml''" for m ms
          using stale [OF that(1)] that(2) by (simp add: f2)
        moreover have "rd f2 q = rd f q" if "rd f q \<noteq> None" "\<not> prefix g q" for q
        proof -
          have "q \<noteq> g @ [bytes_of ''Cargo.toml'']" using that(2) by auto
          then show ?thesis using out [OF that] by (simp add: f2)
        qed
        ultimately show ?thesis using run None by blast
      qed
    qed
  qed
qed

section \<open>Property\<close>

text \<open>
  C40: The build script ends, and a build that succeeds was made from a faithful copy: when the
  nested \<open>cargo\<close> starts, the generated package holds exactly the tree of the bundled source, the
  manifest, and nothing of an earlier build; no other file that was there has changed.  The
  library whose path is passed on exists.
\<close>

theorem build_copies_source:
  assumes "build_fs rd S"
    and "env_var e (bytes_of ''TARGET'') = Some target" and "env_var e (bytes_of ''PROFILE'') = Some profile"
    and "env_var e (bytes_of ''CARGO_MANIFEST_DIR'') = Some mdir" and "env_var e (bytes_of ''OUT_DIR'') = Some odir"
    and "env_var e (bytes_of ''CARGO'') = Some cargo"
    and "a = path_components mdir @ [bytes_of ''interpose'', bytes_of ''src'']"
    and "g = path_components odir @ [bytes_of ''interpose-pkg'']"
    and "tree_at (rd f) a d" and "\<not> prefix a (g @ [bytes_of ''src''])" and "\<not> prefix g a"
    and "rd f g = None \<longrightarrow> (\<forall>ms. rd f (g @ ms) = None)"
  shows "\<exists>r f_end. try_main S e f = Some (r, f_end) \<and>
    (\<forall>printed. r = Inr printed \<longrightarrow> (\<exists>f_gen lib.
      bo_status S (nested_build cargo
        (path_join (path_join odir (bytes_of ''interpose-pkg'')) (bytes_of ''Cargo.toml''))
        target (path_join odir (bytes_of ''embed-target'')) odir profile) f_gen = (Inr (Some 0), f_end) \<and>
      (\<forall>ms. rd f_gen (g @ bytes_of ''src'' # ms) = rd f (a @ ms)) \<and>
      rd f_gen (g @ [bytes_of ''Cargo.toml'']) = Some (File (manifest_text S mdir f_gen)) \<and>
      (\<forall>m ms. m \<noteq> bytes_of ''src'' \<and> m \<noteq> bytes_of ''Cargo.toml'' \<longrightarrow> rd f_gen (g @ m # ms) = None) \<and>
      (\<forall>q. rd f q \<noteq> None \<and> \<not> prefix g q \<longrightarrow> rd f_gen q = rd f q) \<and>
      rd f_end (path_components lib) \<noteq> None \<and>
      hd printed = bytes_of ''cargo:rustc-env=PSEUDOROOT_LIB_EMBED_PATH='' @ lib))"
proof -
  let ?inter = "path_join mdir (bytes_of ''interpose'')" and ?gen = "path_join odir (bytes_of ''interpose-pkg'')"
  obtain r f' where gen: "generate_package S mdir ?inter ?gen f = Some (r, f')"
      "r = None \<longrightarrow> (\<forall>ms. rd f' (g @ bytes_of ''src'' # ms) = rd f (a @ ms)) \<and>
        rd f' (g @ [bytes_of ''Cargo.toml'']) = Some (File (manifest_text S mdir f')) \<and>
        (\<forall>m ms. m \<noteq> bytes_of ''src'' \<and> m \<noteq> bytes_of ''Cargo.toml'' \<longrightarrow> rd f' (g @ m # ms) = None) \<and>
        (\<forall>q. rd f q \<noteq> None \<and> \<not> prefix g q \<longrightarrow> rd f' q = rd f q)"
    using generate_package_ok [OF assms(1,7-11)] assms(12) by meson
  have run: "try_main S e f = (case r of Some err \<Rightarrow> Some (Inl err, f')
      | None \<Rightarrow> Some (build_generated S target profile ?inter odir cargo ?gen f'))"
    using assms(2-6) gen(1) by (simp add: try_main_def require_env_def Let_def split: option.splits)
  show ?thesis
  proof (cases r)
    case (Some err)
    with run show ?thesis by simp
  next
    case None
    obtain r' f_end where built: "build_generated S target profile ?inter odir cargo ?gen f' = (r', f_end)"
      by fastforce
    have made: "bo_status S (nested_build cargo (path_join ?gen (bytes_of ''Cargo.toml'')) target
          (path_join odir (bytes_of ''embed-target'')) odir profile) f' = (Inr (Some 0), f_end)"
        "\<exists>lib. bo_exists S lib f_end \<and> hd printed = bytes_of ''cargo:rustc-env=PSEUDOROOT_LIB_EMBED_PATH='' @ lib"
      if "r' = Inr printed" for printed
      using built that
      by (auto simp: build_generated_def Let_def split: if_splits prod.splits sum.splits)
    have "try_main S e f = Some (r', f_end)" using run None built by simp
    with gen(2) None made show ?thesis
      by (simp add: build_fsD(1) [OF assms(1)]) blast
  qed
qed

section \<open>An example\<close>

text \<open>A file system as a list of what is where, and a source of two files in two directories.\<close>

definition list_build_os :: "(bytes list \<times> node) list build_os" where
  "list_build_os =
     \<lparr>bo_exists = (\<lambda>p f. map_of f (path_components p) \<noteq> None),
      bo_is_dir = (\<lambda>p f. map_of f (path_components p) = Some Dir),
      bo_remove_dir_all = (\<lambda>d f. (None, filter (\<lambda>(q, x). \<not> prefix (path_components d) q) f)),
      bo_create_dir_all = (\<lambda>d f. case map_of f (path_components d) of
         Some (File c) \<Rightarrow> (Some OtherIo, f)
       | _ \<Rightarrow> (None, map (\<lambda>q. (q, Dir)) (filter (\<lambda>q. map_of f q = None) (prefixes (path_components d))) @ f)),
      bo_read_dir = (\<lambda>d f. if map_of f (path_components d) = Some Dir
         then Inr (map Inr (remdups (map (\<lambda>(q, x). last q)
           (filter (\<lambda>(q, x). q \<noteq> [] \<and> butlast q = path_components d) f))))
         else Inl OtherIo),
      bo_copy = (\<lambda>a b f. case map_of f (path_components a) of
         Some (File c) \<Rightarrow> (None, (path_components b, File c) # f)
       | _ \<Rightarrow> (Some OtherIo, f)),
      bo_write = (\<lambda>p c f. (None, (path_components p, File c) # f)),
      bo_status = (\<lambda>cmd f. (Inr (Some 0),
         (path_components (bytes_of ''/o/embed-target/x/release/libpseudoroot_lib.so''), File [1]) # f))\<rparr>"

lemma map_of_filter_key: "map_of (filter (\<lambda>(q, x). P q) f) q = (if P q then map_of f q else None)"
  by (induction f) auto

lemma map_of_dirs: "map_of (map (\<lambda>q. (q, Dir)) qs @ f) q = (if q \<in> set qs then Some Dir else map_of f q)"
  by (induction qs) auto

lemma listed_children:
  "n \<in> set (map (\<lambda>(q, x). last q) (filter (\<lambda>(q, x). q \<noteq> [] \<and> butlast q = p) f)) \<longleftrightarrow>
    map_of f (p @ [n]) \<noteq> None"
proof -
  have "q \<noteq> [] \<and> butlast q = p \<and> last q = n \<longleftrightarrow> q = p @ [n]" for q
    by (auto simp: snoc_eq_iff_butlast)
  then have "n \<in> set (map (\<lambda>(q, x). last q) (filter (\<lambda>(q, x). q \<noteq> [] \<and> butlast q = p) f)) \<longleftrightarrow>
      p @ [n] \<in> fst ` set f"
    by (force simp: image_iff)
  then show ?thesis by (simp add: map_of_eq_None_iff)
qed

lemma list_build_fs: "build_fs map_of list_build_os"
proof -
  let ?S = list_build_os
  have "\<forall>d f f'. bo_remove_dir_all ?S d f = (None, f') \<longrightarrow>
      map_of f' = (\<lambda>q. if prefix (path_components d) q then None else map_of f q)"
    by (auto simp: list_build_os_def map_of_filter_key fun_eq_iff)
  moreover have "\<forall>d f f'. bo_create_dir_all ?S d f = (None, f') \<longrightarrow> map_of f' (path_components d) = Some Dir \<and>
      (\<forall>q. map_of f' q = map_of f q \<or> map_of f q = None \<and> prefix q (path_components d))"
    by (auto simp: list_build_os_def map_of_dirs simp del: map_of_append split: option.splits node.splits)
  moreover have "\<forall>d f es. bo_read_dir ?S d f = Inr es \<longrightarrow> map_of f (path_components d) = Some Dir \<and> distinct es \<and>
      (\<forall>n. Inr n \<in> set es \<longrightarrow> map_of f (path_components d @ [n]) \<noteq> None) \<and>
      ((\<forall>e\<in>set es. \<not> isl e) \<longrightarrow> (\<forall>n. map_of f (path_components d @ [n]) \<noteq> None \<longrightarrow> Inr n \<in> set es))"
    unfolding listed_children [symmetric]
    by (auto simp: list_build_os_def distinct_map split: if_splits)
  moreover have "\<forall>a b f f'. bo_copy ?S a b f = (None, f') \<longrightarrow> (\<exists>c. map_of f (path_components a) = Some (File c) \<and>
      map_of f' = (map_of f)(path_components b \<mapsto> File c))"
    by (auto simp: list_build_os_def split: option.splits node.splits)
  moreover have "\<forall>p f. bo_exists ?S p f \<longleftrightarrow> map_of f (path_components p) \<noteq> None"
    "\<forall>p f. bo_is_dir ?S p f \<longleftrightarrow> map_of f (path_components p) = Some Dir"
    "\<forall>p c f f'. bo_write ?S p c f = (None, f') \<longrightarrow> map_of f' = (map_of f)(path_components p \<mapsto> File c)"
    by (auto simp: list_build_os_def)
  ultimately show ?thesis unfolding build_fs_def by (intro conjI)
qed

definition bundled_at :: "bytes list" where
  "bundled_at = [[0x2F], bytes_of ''w'', bytes_of ''p'', bytes_of ''interpose'', bytes_of ''src'']"

definition generated_at :: "bytes list" where
  "generated_at = [[0x2F], bytes_of ''o'', bytes_of ''interpose-pkg'']"

definition example_source :: "(bytes list \<times> node) list" where
  "example_source =
     [(bundled_at, Dir), (bundled_at @ [bytes_of ''lib.rs''], File [1, 2]),
      (bundled_at @ [bytes_of ''platform''], Dir),
      (bundled_at @ [bytes_of ''platform'', bytes_of ''linux.rs''], File [3]),
      ([[0x2F], bytes_of ''w'', bytes_of ''pseudoroot-core'', bytes_of ''Cargo.toml''], File []),
      (generated_at, Dir), (generated_at @ [bytes_of ''src'', bytes_of ''old.rs''], File [4])]"

definition example_build_env :: environ where
  "example_build_env =
     map_of [(bytes_of ''TARGET'', bytes_of ''x''), (bytes_of ''PROFILE'', bytes_of ''release''),
       (bytes_of ''CARGO_MANIFEST_DIR'', bytes_of ''/w/p''), (bytes_of ''OUT_DIR'', bytes_of ''/o''),
       (bytes_of ''CARGO'', bytes_of ''cargo'')]"

lemma example_build_runs:
  "case try_main list_build_os example_build_env example_source of
     Some (Inr printed, f) \<Rightarrow> True | _ \<Rightarrow> False"
  by code_simp

lemma example_places [simp]:
  "path_components (bytes_of ''/w/p'') @ [bytes_of ''interpose'', bytes_of ''src''] = bundled_at"
  "path_components (bytes_of ''/o'') @ [bytes_of ''interpose-pkg''] = generated_at"
  "\<not> prefix bundled_at (generated_at @ ms)" "\<not> prefix generated_at (bundled_at @ ms)"
  "bundled_at @ ms \<noteq> generated_at @ ks" "bundled_at @ ms \<noteq> generated_at" "bundled_at \<noteq> generated_at @ ms"
  "\<not> prefix bundled_at generated_at" "\<not> prefix generated_at bundled_at"
  by (simp_all add: path_components_def bundled_at_def generated_at_def bytes_of_def Let_def)

lemma example_tree: "tree_at (map_of example_source) bundled_at 2"
proof -
  have keys: "map_of example_source (bundled_at @ ms) \<noteq> None \<longleftrightarrow>
      ms \<in> {[], [bytes_of ''lib.rs''], [bytes_of ''platform''], [bytes_of ''platform'', bytes_of ''linux.rs'']}" for ms
    by (auto simp: example_source_def map_of_eq_None_iff) (simp_all add: bundled_at_def bytes_of_def)
  have dirs: "map_of example_source (bundled_at @ []) = Some Dir"
      "map_of example_source (bundled_at @ [bytes_of ''platform'']) = Some Dir"
    by (simp_all add: example_source_def bytes_of_def)
  have names: "proper_name (bytes_of ''lib.rs'')" "proper_name (bytes_of ''platform'')" "proper_name (bytes_of ''linux.rs'')"
    by (simp_all add: proper_name_def bytes_of_def)
  show ?thesis
    unfolding tree_at_def keys using dirs names
    by (auto simp: append_eq_Cons_conv)
qed

theorem build_copies_source_witness:
  "\<exists>printed f_end f_gen.
     try_main list_build_os example_build_env example_source = Some (Inr printed, f_end) \<and>
     map_of f_gen (generated_at @ [bytes_of ''src'', bytes_of ''platform'', bytes_of ''linux.rs'']) = Some (File [3]) \<and>
     map_of f_gen (generated_at @ [bytes_of ''src'', bytes_of ''old.rs'']) = None"
proof -
  obtain printed f_end where run: "try_main list_build_os example_build_env example_source = Some (Inr printed, f_end)"
    using example_build_runs by (auto split: option.splits sum.splits)
  have env: "env_var example_build_env (bytes_of ''TARGET'') = Some (bytes_of ''x'')"
      "env_var example_build_env (bytes_of ''PROFILE'') = Some (bytes_of ''release'')"
      "env_var example_build_env (bytes_of ''CARGO_MANIFEST_DIR'') = Some (bytes_of ''/w/p'')"
      "env_var example_build_env (bytes_of ''OUT_DIR'') = Some (bytes_of ''/o'')"
      "env_var example_build_env (bytes_of ''CARGO'') = Some (bytes_of ''cargo'')"
    by code_simp+
  have there: "map_of example_source generated_at \<noteq> None"
    by (simp add: example_source_def)
  have "\<exists>f_gen. \<forall>ms. map_of f_gen (generated_at @ bytes_of ''src'' # ms) = map_of example_source (bundled_at @ ms)"
    using build_copies_source [OF list_build_fs env refl refl, of example_source 2] run example_tree there
    by auto
  then obtain f_gen where same: "\<forall>ms. map_of f_gen (generated_at @ bytes_of ''src'' # ms) =
      map_of example_source (bundled_at @ ms)" ..
  have "map_of example_source (bundled_at @ [bytes_of ''platform'', bytes_of ''linux.rs'']) = Some (File [3])"
    "map_of example_source (bundled_at @ [bytes_of ''old.rs'']) = None"
    by (simp_all add: example_source_def bundled_at_def generated_at_def bytes_of_def)
  with same run show ?thesis
    by (intro exI [of _ printed] exI [of _ f_end] exI [of _ f_gen]) simp
qed

end
