(* ===== verification/Fakeroot_Spec.thy ===== *)
theory Fakeroot_Spec
  imports Hook_Properties
begin

text \<open>
  What the interposed library (\<open>pseudoroot/interpose/src/lib.rs\<close>) is for, as an abstract machine: a
  finite table of fake entries by inode, the ids of the session, and the system underneath.  The
  last part runs any sequence of intercepted calls on the library and on the machine and shows
  that they answer alike, in every mode of a session.
\<close>

section \<open>The abstract machine\<close>

text \<open>
  There are two pairs of ids: \<open>fr_ids\<close> are those of the session, which new entries get, and
  \<open>fr_shown\<close> those the stat family shows for a file without an entry, the process's own copy
  (\<open>apply_default_ownership\<close> in \<open>ownership.rs\<close>).  A process sets both at once; another process
  of the session changes only the first, and then they differ.
\<close>

record 'k fakeroot =
  fr_table :: "inode_key \<Rightarrow> fake_inode option"
  fr_ids :: "u32 \<times> u32"
  fr_shown :: "u32 \<times> u32"
  fr_system :: 'k

datatype answer =
    Code i32
  | Id u32
  | Status i32 stat
  | Data i32 "bytes option"
  | Panics

definition fr_entry :: "'k fakeroot \<Rightarrow> inode_key \<Rightarrow> fake_inode" where
  "fr_entry s k = (case fr_table s k of
     Some i \<Rightarrow> i | None \<Rightarrow> fake_inode_new (fst (fr_ids s)) (snd (fr_ids s)))"

definition fr_put :: "inode_key \<Rightarrow> fake_inode \<Rightarrow> 'k fakeroot \<Rightarrow> 'k fakeroot" where
  "fr_put k i s = s\<lparr>fr_table := (fr_table s)(k \<mapsto> i)\<rparr>"

definition fr_drop :: "stat \<Rightarrow> 'k fakeroot \<Rightarrow> 'k fakeroot" where
  "fr_drop st s =
     (if st_nlink st \<le> 1 then s\<lparr>fr_table := (fr_table s)(key_from_stat st := None)\<rparr> else s)"

text \<open>A call of the system: its result and the system after it.\<close>

definition fr_call :: "('k \<Rightarrow> i32 \<times> 'k) \<Rightarrow> 'k fakeroot \<Rightarrow> i32 \<times> 'k fakeroot" where
  "fr_call real s = (case real (fr_system s) of (rc, k) \<Rightarrow> (rc, s\<lparr>fr_system := k\<rparr>))"

definition fr_code :: "i32 \<times> 'k fakeroot \<Rightarrow> answer \<times> 'k fakeroot" where
  "fr_code r = (case r of (rc, s) \<Rightarrow> (Code rc, s))"

definition fr_chown :: "'k kernel \<Rightarrow> stat_source \<Rightarrow> u32 \<Rightarrow> u32 \<Rightarrow> 'k fakeroot \<Rightarrow> answer \<times> 'k fakeroot" where
  "fr_chown K src u g s =
     (case source_stat K src (fr_system s) of
        Inl e \<Rightarrow> (Code e, s)
      | Inr st \<Rightarrow> (Code 0, fr_put (key_from_stat st) (merge_ids u g (fr_entry s (key_from_stat st))) s))"

text \<open>\<open>canon\<close> is what the table of the session makes of an entry.\<close>

definition fr_chmod ::
    "'k kernel \<Rightarrow> (fake_inode \<Rightarrow> fake_inode) \<Rightarrow> stat_source \<Rightarrow> u32 \<Rightarrow> 'k fakeroot \<Rightarrow> answer \<times> 'k fakeroot"
where
  "fr_chmod K canon src mode s =
     (case source_stat K src (fr_system s) of
        Inl e \<Rightarrow> (Code e, s)
      | Inr st \<Rightarrow>
          (case fr_call (real_chmod_for K src mode) (fr_put (key_from_stat st)
                  (canon ((fr_entry s (key_from_stat st))
                     \<lparr>i_mode := Some (compose_mode (st_mode st) mode)\<rparr>)) s) of
             (rc, s) \<Rightarrow> (Code (zero_on_err rc), s)))"

definition fr_stat :: "('k \<Rightarrow> i32 \<times> stat) \<Rightarrow> 'k fakeroot \<Rightarrow> answer \<times> 'k fakeroot" where
  "fr_stat real s =
     (case real (fr_system s) of (rc, st) \<Rightarrow>
        (Status rc
          (if rc \<noteq> 0 then st
           else case fr_table s (key_from_stat st) of
                  Some i \<Rightarrow> patch_inode_fields i st
                | None \<Rightarrow> st\<lparr>st_uid := fst (fr_shown s), st_gid := snd (fr_shown s)\<rparr>), s))"

definition fr_unlink ::
    "i32 + stat \<Rightarrow> ('k \<Rightarrow> i32 \<times> 'k) \<Rightarrow> 'k fakeroot \<Rightarrow> answer \<times> 'k fakeroot" where
  "fr_unlink looked real s =
     fr_code (fr_call real (case looked of Inr st \<Rightarrow> fr_drop st s | Inl e \<Rightarrow> s))"

definition fr_rename ::
    "'k kernel \<Rightarrow> i32 \<Rightarrow> cstr \<Rightarrow> i32 \<Rightarrow> cstr \<Rightarrow> ('k \<Rightarrow> i32 \<times> 'k) \<Rightarrow> 'k fakeroot \<Rightarrow> answer \<times> 'k fakeroot"
where
  "fr_rename K olddir old newdir new real s =
     fr_code (fr_call real
       (case stat_at K newdir new 0 (fr_system s) of
          Inl e \<Rightarrow> s
        | Inr nst \<Rightarrow>
            if (case stat_at K olddir old 0 (fr_system s) of
                  Inr ost \<Rightarrow> key_from_stat nst = key_from_stat ost | Inl e \<Rightarrow> False)
            then s else fr_drop nst s))"

definition fr_setxattr ::
    "'k kernel \<Rightarrow> (fake_inode \<Rightarrow> fake_inode) \<Rightarrow> stat_source \<Rightarrow> cstr \<Rightarrow> (bytes \<Rightarrow> xattrs \<Rightarrow> xattrs) \<Rightarrow>
       'k fakeroot \<Rightarrow> answer \<times> 'k fakeroot" where
  "fr_setxattr K canon src name f s =
     (case read_cstr name of
        None \<Rightarrow> (Code (- EINVAL), s)
      | Some name \<Rightarrow>
          (case source_stat K src (fr_system s) of
             Inl e \<Rightarrow> (Code e, s)
           | Inr st \<Rightarrow>
               (let k = key_from_stat st; i = fr_entry s k
                in (Code 0, fr_put k (canon (i\<lparr>i_xattrs := f name (i_xattrs i)\<rparr>)) s))))"

definition fr_data :: "(i32 \<times> bytes option) option \<Rightarrow> answer" where
  "fr_data r = (case r of Some (rc, buf) \<Rightarrow> Data rc buf | None \<Rightarrow> Panics)"

definition fr_getxattr ::
    "'k kernel \<Rightarrow> stat_source \<Rightarrow> cstr \<Rightarrow> bytes option \<Rightarrow> nat \<Rightarrow> 'k fakeroot \<Rightarrow> answer \<times> 'k fakeroot" where
  "fr_getxattr K src name buf sz s =
     (let recorded = (\<lambda>n. case source_stat K src (fr_system s) of
            Inl e \<Rightarrow> None
          | Inr st \<Rightarrow> Option.bind (fr_table s (key_from_stat st)) (\<lambda>i. fmlookup (i_xattrs i) n))
      in (case read_cstr name of
            None \<Rightarrow> Data (- EINVAL) buf
          | Some n \<Rightarrow>
              fr_data (case recorded n of
                 Some v \<Rightarrow> Some (write_xattr_value v buf sz)
               | None \<Rightarrow> real_getxattr_for K True src name buf sz (fr_system s)), s))"

definition fr_listxattr ::
    "'k kernel \<Rightarrow> (xattrs \<Rightarrow> bytes list) \<Rightarrow> stat_source \<Rightarrow> bytes option \<Rightarrow> nat \<Rightarrow> 'k fakeroot \<Rightarrow>
       answer \<times> 'k fakeroot" where
  "fr_listxattr K keys src buf sz s =
     (let recorded = (case source_stat K src (fr_system s) of
            Inl e \<Rightarrow> []
          | Inr st \<Rightarrow> (case fr_table s (key_from_stat st) of Some i \<Rightarrow> keys (i_xattrs i) | None \<Rightarrow> []))
      in (fr_data (case real_listxattr_for K True src buf sz (fr_system s) of
            None \<Rightarrow> None
          | Some (rc, buf) \<Rightarrow>
              Some (if recorded = [] then (rc, buf)
                    else write_xattr_list (merge_xattr_lists
                           (case buf of Some b \<Rightarrow> take (nat (sint rc)) b | None \<Rightarrow> []) recorded) buf sz)), s))"

definition fr_set_ids :: "u32 \<Rightarrow> u32 \<Rightarrow> 'k fakeroot \<Rightarrow> answer \<times> 'k fakeroot" where
  "fr_set_ids u g s = (Code 0, s\<lparr>fr_ids := (u, g), fr_shown := (u, g)\<rparr>)"

text \<open>
  A special file is a placeholder that the system creates, with an entry; when that fails the
  system makes the node itself.
\<close>

definition fr_new_node :: "u32 \<times> u32 \<Rightarrow> u32 \<Rightarrow> u64 \<Rightarrow> fake_inode" where
  "fr_new_node ids mode dev = (fake_inode_new (fst ids) (snd ids))
     \<lparr>i_mode := Some mode,
      i_rdev := (if mode AND S_IFMT = S_IFCHR \<or> mode AND S_IFMT = S_IFBLK then Some dev else None)\<rparr>"

definition fr_mknod ::
    "'k kernel \<Rightarrow> (fake_inode \<Rightarrow> fake_inode) \<Rightarrow> bytes option \<Rightarrow> u32 \<Rightarrow> u64 \<Rightarrow> ('k \<Rightarrow> i32 \<times> 'k) \<Rightarrow>
       'k fakeroot \<Rightarrow> answer \<times> 'k fakeroot" where
  "fr_mknod K canon resolved mode dev real s =
     (case resolved of
        None \<Rightarrow> fr_code (fr_call real s)
      | Some path \<Rightarrow>
          (case k_open_create K path 0x1A4 (fr_system s) of (opened, k) \<Rightarrow>
             (let s = s\<lparr>fr_system := k\<rparr> in
              case (if opened then stat_path_buf K path k else Inl (- 1)) of
                Inl e \<Rightarrow> if sint e < 0 then fr_code (fr_call real s) else (Code e, s)
              | Inr st \<Rightarrow>
                  (Code 0, fr_put (key_from_stat st)
                     (canon (fr_new_node (fr_ids s) mode dev)) s))))"

section \<open>Calls\<close>

text \<open>The intercepted calls of a program, under their C names.\<close>

datatype hook =
    Call_chown cstr u32 u32 | Call_lchown cstr u32 u32 | Call_fchown i32 u32 u32
  | Call_fchownat i32 cstr u32 u32 i32
  | Call_chmod cstr u32 | Call_fchmod i32 u32 | Call_fchmodat i32 cstr u32 i32
  | Call_stat cstr | Call_lstat cstr | Call_fstat i32 | Call_fstatat i32 cstr i32
  | Call_unlink cstr | Call_unlinkat i32 cstr i32 | Call_rmdir cstr
  | Call_rename cstr cstr | Call_renameat i32 cstr i32 cstr | Call_renameat2 i32 cstr i32 cstr u32
  | Call_mknod cstr u32 u64 | Call_mknodat i32 cstr u32 u64
  | Call_setxattr cstr cstr "bytes option" nat i32 | Call_lsetxattr cstr cstr "bytes option" nat i32
  | Call_fsetxattr i32 cstr "bytes option" nat i32
  | Call_getxattr cstr cstr "bytes option" nat | Call_lgetxattr cstr cstr "bytes option" nat
  | Call_fgetxattr i32 cstr "bytes option" nat
  | Call_listxattr cstr "bytes option" nat | Call_llistxattr cstr "bytes option" nat
  | Call_flistxattr i32 "bytes option" nat
  | Call_removexattr cstr cstr | Call_lremovexattr cstr cstr | Call_fremovexattr i32 cstr
  | Call_getuid | Call_getgid | Call_setuid u32 | Call_setgid u32

text \<open>A call on the library: the exported function, its answer and the process after it.\<close>

definition answer_code :: "i32 \<times> 'w \<Rightarrow> answer \<times> 'w" where
  "answer_code r = (case r of (rc, w) \<Rightarrow> (Code rc, w))"

definition answer_stat :: "(i32 \<times> stat) \<times> 'w \<Rightarrow> answer \<times> 'w" where
  "answer_stat r = (case r of ((rc, st), w) \<Rightarrow> (Status rc st, w))"

definition answer_data :: "'w \<Rightarrow> ((i32 \<times> bytes option) \<times> 'w) option \<Rightarrow> answer \<times> 'w" where
  "answer_data w r = (case r of Some ((rc, buf), w) \<Rightarrow> (Data rc buf, w) | None \<Rightarrow> (Panics, w))"

fun run_hook :: "('w, 'k) params \<Rightarrow> hook \<Rightarrow> ('w, 'k) interpose \<Rightarrow> answer \<times> ('w, 'k) interpose" where
  "run_hook P (Call_chown path u g) w = answer_code (h_chown P path u g w)"
| "run_hook P (Call_lchown path u g) w = answer_code (h_lchown P path u g w)"
| "run_hook P (Call_fchown fd u g) w = answer_code (h_fchown P fd u g w)"
| "run_hook P (Call_fchownat d path u g flags) w = answer_code (h_fchownat P d path u g flags w)"
| "run_hook P (Call_chmod path mode) w = answer_code (h_chmod P path mode w)"
| "run_hook P (Call_fchmod fd mode) w = answer_code (h_fchmod P fd mode w)"
| "run_hook P (Call_fchmodat d path mode flags) w = answer_code (h_fchmodat P d path mode flags w)"
| "run_hook P (Call_stat path) w = answer_stat (h_stat P path True w)"
| "run_hook P (Call_lstat path) w = answer_stat (h_lstat P path True w)"
| "run_hook P (Call_fstat fd) w = answer_stat (h_fstat P fd True w)"
| "run_hook P (Call_fstatat d path flags) w = answer_stat (h_fstatat P d path True flags w)"
| "run_hook P (Call_unlink path) w = answer_code (h_unlink P path w)"
| "run_hook P (Call_unlinkat d path flags) w = answer_code (h_unlinkat P d path flags w)"
| "run_hook P (Call_rmdir path) w = answer_code (h_rmdir P path w)"
| "run_hook P (Call_rename old new) w = answer_code (h_rename P old new w)"
| "run_hook P (Call_renameat od old nd new) w = answer_code (h_renameat P od old nd new w)"
| "run_hook P (Call_renameat2 od old nd new flags) w = answer_code (h_renameat2 P od old nd new flags w)"
| "run_hook P (Call_mknod path mode dev) w = answer_code (h_mknod P path mode dev w)"
| "run_hook P (Call_mknodat d path mode dev) w = answer_code (h_mknodat P d path mode dev w)"
| "run_hook P (Call_setxattr path name v sz flags) w = answer_code (h_setxattr P path name v sz flags w)"
| "run_hook P (Call_lsetxattr path name v sz flags) w = answer_code (h_lsetxattr P path name v sz flags w)"
| "run_hook P (Call_fsetxattr fd name v sz flags) w = answer_code (h_fsetxattr P fd name v sz flags w)"
| "run_hook P (Call_getxattr path name buf sz) w = answer_data w (h_getxattr P path name buf sz w)"
| "run_hook P (Call_lgetxattr path name buf sz) w = answer_data w (h_lgetxattr P path name buf sz w)"
| "run_hook P (Call_fgetxattr fd name buf sz) w = answer_data w (h_fgetxattr P fd name buf sz w)"
| "run_hook P (Call_listxattr path buf sz) w = answer_data w (h_listxattr P path buf sz w)"
| "run_hook P (Call_llistxattr path buf sz) w = answer_data w (h_llistxattr P path buf sz w)"
| "run_hook P (Call_flistxattr fd buf sz) w = answer_data w (h_flistxattr P fd buf sz w)"
| "run_hook P (Call_removexattr path name) w = answer_code (h_removexattr P path name w)"
| "run_hook P (Call_lremovexattr path name) w = answer_code (h_lremovexattr P path name w)"
| "run_hook P (Call_fremovexattr fd name) w = answer_code (h_fremovexattr P fd name w)"
| "run_hook P Call_getuid w = (case h_getuid P w of (u, w) \<Rightarrow> (Id u, w))"
| "run_hook P Call_getgid w = (case h_getgid P w of (g, w) \<Rightarrow> (Id g, w))"
| "run_hook P (Call_setuid u) w = answer_code (h_setuid P u w)"
| "run_hook P (Call_setgid g) w = answer_code (h_setgid P g w)"

text \<open>The same call on the machine.\<close>

fun spec_hook :: "'k kernel \<Rightarrow> (fake_inode \<Rightarrow> fake_inode) \<Rightarrow> (xattrs \<Rightarrow> bytes list) \<Rightarrow> hook \<Rightarrow>
    'k fakeroot \<Rightarrow> answer \<times> 'k fakeroot" where
  "spec_hook K canon keys (Call_chown path u g) s = fr_chown K (Path path False) u g s"
| "spec_hook K canon keys (Call_lchown path u g) s = fr_chown K (Path path True) u g s"
| "spec_hook K canon keys (Call_fchown fd u g) s = fr_chown K (Fd fd) u g s"
| "spec_hook K canon keys (Call_fchownat d path u g flags) s = fr_chown K (At d path flags) u g s"
| "spec_hook K canon keys (Call_chmod path mode) s = fr_chmod K canon (Path path False) mode s"
| "spec_hook K canon keys (Call_fchmod fd mode) s = fr_chmod K canon (Fd fd) mode s"
| "spec_hook K canon keys (Call_fchmodat d path mode flags) s = fr_chmod K canon (At d path flags) mode s"
| "spec_hook K canon keys (Call_stat path) s = fr_stat (real_stat K path True) s"
| "spec_hook K canon keys (Call_lstat path) s = fr_stat (real_lstat K path True) s"
| "spec_hook K canon keys (Call_fstat fd) s = fr_stat (real_fstat K fd True) s"
| "spec_hook K canon keys (Call_fstatat d path flags) s = fr_stat (real_fstatat K d path True flags) s"
| "spec_hook K canon keys (Call_unlink path) s =
     fr_unlink (stat_path K path (fr_system s)) (real_unlink K True path) s"
| "spec_hook K canon keys (Call_unlinkat d path flags) s =
     fr_unlink (stat_at K d path (resolve_stat_flags d path flags) (fr_system s))
       (real_unlinkat K True d path flags) s"
| "spec_hook K canon keys (Call_rmdir path) s =
     fr_unlink (stat_path K path (fr_system s)) (real_rmdir K True path) s"
| "spec_hook K canon keys (Call_rename old new) s =
     fr_rename K AT_FDCWD old AT_FDCWD new (real_rename K True old new) s"
| "spec_hook K canon keys (Call_renameat od old nd new) s =
     fr_rename K od old nd new (real_renameat K True od old nd new) s"
| "spec_hook K canon keys (Call_renameat2 od old nd new flags) s =
     fr_rename K od old nd new (real_renameat2 K True od old nd new flags) s"
| "spec_hook K canon keys (Call_mknod path mode dev) s =
     fr_mknod K canon (resolve_path_at AT_FDCWD path) mode dev (real_mknod K True path mode dev) s"
| "spec_hook K canon keys (Call_mknodat d path mode dev) s =
     fr_mknod K canon (resolve_path_at d path) mode dev (real_mknodat K True d path mode dev) s"
| "spec_hook K canon keys (Call_setxattr path name v sz flags) s =
     fr_setxattr K canon (Path path False) name (\<lambda>n. fmupd n (read_xattr_value v sz)) s"
| "spec_hook K canon keys (Call_lsetxattr path name v sz flags) s =
     fr_setxattr K canon (Path path True) name (\<lambda>n. fmupd n (read_xattr_value v sz)) s"
| "spec_hook K canon keys (Call_fsetxattr fd name v sz flags) s =
     fr_setxattr K canon (Fd fd) name (\<lambda>n. fmupd n (read_xattr_value v sz)) s"
| "spec_hook K canon keys (Call_getxattr path name buf sz) s = fr_getxattr K (Path path False) name buf sz s"
| "spec_hook K canon keys (Call_lgetxattr path name buf sz) s = fr_getxattr K (Path path True) name buf sz s"
| "spec_hook K canon keys (Call_fgetxattr fd name buf sz) s = fr_getxattr K (Fd fd) name buf sz s"
| "spec_hook K canon keys (Call_listxattr path buf sz) s = fr_listxattr K keys (Path path False) buf sz s"
| "spec_hook K canon keys (Call_llistxattr path buf sz) s = fr_listxattr K keys (Path path True) buf sz s"
| "spec_hook K canon keys (Call_flistxattr fd buf sz) s = fr_listxattr K keys (Fd fd) buf sz s"
| "spec_hook K canon keys (Call_removexattr path name) s = fr_setxattr K canon (Path path False) name fmdrop s"
| "spec_hook K canon keys (Call_lremovexattr path name) s = fr_setxattr K canon (Path path True) name fmdrop s"
| "spec_hook K canon keys (Call_fremovexattr fd name) s = fr_setxattr K canon (Fd fd) name fmdrop s"
| "spec_hook K canon keys Call_getuid s = (Id (fst (fr_ids s)), s)"
| "spec_hook K canon keys Call_getgid s = (Id (snd (fr_ids s)), s)"
| "spec_hook K canon keys (Call_setuid u) s = fr_set_ids u (snd (fr_ids s)) s"
| "spec_hook K canon keys (Call_setgid g) s = fr_set_ids (fst (fr_ids s)) g s"

text \<open>A program: its calls in a row, with all their answers.\<close>

fun run_hooks ::
    "('w, 'k) params \<Rightarrow> hook list \<Rightarrow> ('w, 'k) interpose \<Rightarrow> answer list \<times> ('w, 'k) interpose" where
  "run_hooks P [] w = ([], w)"
| "run_hooks P (c # cs) w =
     (case run_hook P c w of (a, w) \<Rightarrow> case run_hooks P cs w of (as, w) \<Rightarrow> (a # as, w))"

fun spec_hooks :: "'k kernel \<Rightarrow> (fake_inode \<Rightarrow> fake_inode) \<Rightarrow> (xattrs \<Rightarrow> bytes list) \<Rightarrow> hook list \<Rightarrow>
    'k fakeroot \<Rightarrow> answer list \<times> 'k fakeroot" where
  "spec_hooks K canon keys [] s = ([], s)"
| "spec_hooks K canon keys (c # cs) s =
     (case spec_hook K canon keys c s of (a, s) \<Rightarrow> case spec_hooks K canon keys cs s of (as, s) \<Rightarrow> (a # as, s))"

section \<open>What the table of the session has to have room for\<close>

definition put_fits ::
    "(rpc_world, 'k) params \<Rightarrow> stat_source \<Rightarrow> (stat \<Rightarrow> fake_inode \<Rightarrow> fake_inode) \<Rightarrow>
       (rpc_world, 'k) interpose \<Rightarrow> bool" where
  "put_fits P src f w =
     (case source_stat (se_kernel P) src (ip_kernel w) of
        Inl e \<Rightarrow> True
      | Inr st \<Rightarrow> session_can_set P w (key_from_stat st) (f st (entry_or_new P w (key_from_stat st))))"

definition chown_fits ::
    "(rpc_world, 'k) params \<Rightarrow> stat_source \<Rightarrow> u32 \<Rightarrow> u32 \<Rightarrow> (rpc_world, 'k) interpose \<Rightarrow> bool" where
  "chown_fits P src u g w =
     (case source_stat (se_kernel P) src (ip_kernel w) of
        Inl e \<Rightarrow> True | Inr st \<Rightarrow> session_can_chown P w (key_from_stat st) u g)"

definition mknod_fits ::
    "(rpc_world, 'k) params \<Rightarrow> bytes option \<Rightarrow> u32 \<Rightarrow> u64 \<Rightarrow> (rpc_world, 'k) interpose \<Rightarrow> bool" where
  "mknod_fits P resolved mode dev w =
     (case resolved of
        None \<Rightarrow> True
      | Some path \<Rightarrow>
          (case k_open_create (se_kernel P) path 0x1A4 (ip_kernel w) of (opened, k) \<Rightarrow>
             (case stat_path_buf (se_kernel P) path k of
                Inl e \<Rightarrow> True
              | Inr st \<Rightarrow> session_can_set P w (key_from_stat st) (fr_new_node (session_ids w) mode dev))))"

definition xattr_fits ::
    "(rpc_world, 'k) params \<Rightarrow> stat_source \<Rightarrow> cstr \<Rightarrow> (bytes \<Rightarrow> xattrs \<Rightarrow> xattrs) \<Rightarrow>
       (rpc_world, 'k) interpose \<Rightarrow> bool" where
  "xattr_fits P src name f w =
     (case read_cstr name of
        None \<Rightarrow> True | Some n \<Rightarrow> put_fits P src (\<lambda>st i. i\<lparr>i_xattrs := f n (i_xattrs i)\<rparr>) w)"

definition chmod_fits ::
    "(rpc_world, 'k) params \<Rightarrow> stat_source \<Rightarrow> u32 \<Rightarrow> (rpc_world, 'k) interpose \<Rightarrow> bool" where
  "chmod_fits P src mode w = put_fits P src (\<lambda>st i. i\<lparr>i_mode := Some (compose_mode (st_mode st) mode)\<rparr>) w"

fun hook_fits :: "(rpc_world, 'k) params \<Rightarrow> hook \<Rightarrow> (rpc_world, 'k) interpose \<Rightarrow> bool" where
  "hook_fits P (Call_chown path u g) w = chown_fits P (Path path False) u g w"
| "hook_fits P (Call_lchown path u g) w = chown_fits P (Path path True) u g w"
| "hook_fits P (Call_fchown fd u g) w = chown_fits P (Fd fd) u g w"
| "hook_fits P (Call_fchownat d path u g flags) w = chown_fits P (At d path flags) u g w"
| "hook_fits P (Call_chmod path mode) w = chmod_fits P (Path path False) mode w"
| "hook_fits P (Call_fchmod fd mode) w = chmod_fits P (Fd fd) mode w"
| "hook_fits P (Call_fchmodat d path mode flags) w = chmod_fits P (At d path flags) mode w"
| "hook_fits P (Call_mknod path mode dev) w = mknod_fits P (resolve_path_at AT_FDCWD path) mode dev w"
| "hook_fits P (Call_mknodat d path mode dev) w = mknod_fits P (resolve_path_at d path) mode dev w"
| "hook_fits P (Call_setxattr path name v sz flags) w =
     xattr_fits P (Path path False) name (\<lambda>n. fmupd n (read_xattr_value v sz)) w"
| "hook_fits P (Call_lsetxattr path name v sz flags) w =
     xattr_fits P (Path path True) name (\<lambda>n. fmupd n (read_xattr_value v sz)) w"
| "hook_fits P (Call_fsetxattr fd name v sz flags) w =
     xattr_fits P (Fd fd) name (\<lambda>n. fmupd n (read_xattr_value v sz)) w"
| "hook_fits P (Call_removexattr path name) w = xattr_fits P (Path path False) name fmdrop w"
| "hook_fits P (Call_lremovexattr path name) w = xattr_fits P (Path path True) name fmdrop w"
| "hook_fits P (Call_fremovexattr fd name) w = xattr_fits P (Fd fd) name fmdrop w"
| "hook_fits P c w = True"

fun hooks_fit :: "(rpc_world, 'k) params \<Rightarrow> hook list \<Rightarrow> (rpc_world, 'k) interpose \<Rightarrow> bool" where
  "hooks_fit P [] w = True"
| "hooks_fit P (c # cs) w \<longleftrightarrow> hook_fits P c w \<and> hooks_fit P cs (snd (run_hook P c w))"

end
