(* ===== verification/Fakeroot_Refines.thy ===== *)
theory Fakeroot_Refines
  imports Fakeroot_Spec
begin

text \<open>
  The library simulates the machine of \<open>Fakeroot_Spec\<close>: call by call, from the laws of a session,
  and then for any sequence of calls.
\<close>

section \<open>What no call changes\<close>

text \<open>Whether the session is in shared memory, and the ids of the local state.\<close>

definition session_home :: "('w, 'k) interpose \<Rightarrow> bool \<times> u32 \<times> u32" where
  "session_home w = (sc_active (ip_shm w), frs_current_uid (local_state w), frs_current_gid (local_state w))"

lemma session_home_frame [simp]:
  "session_home (w\<lparr>ip_kernel := k\<rparr>) = session_home w"
  "session_home (w\<lparr>ip_link := l\<rparr>) = session_home w"
  by (simp_all add: session_home_def local_state_def)

lemma sc_active_frame [simp]:
  "sc_active (sc_upsert_inode c k i s) = sc_active s" "sc_active (snd (sc_remove_inode c k s)) = sc_active s"
  "sc_active (sc_upsert_chown c k u g du dg s) = sc_active s"
  by (simp_all add: sc_upsert_inode_def sc_remove_inode_def sc_upsert_chown_def case_prod_beta split: option.split)

lemma session_home_shm [simp]:
  "sc_active s = sc_active (ip_shm w) \<Longrightarrow> session_home (w\<lparr>ip_shm := s\<rparr>) = session_home w"
  by (simp add: session_home_def local_state_def)






section \<open>The machine a process stands for\<close>

definition machine :: "(rpc_world, 'k) params \<Rightarrow> (rpc_world, 'k) interpose \<Rightarrow> 'k fakeroot" where
  "machine P w = \<lparr>fr_table = session_view P w, fr_ids = session_ids w,
     fr_shown = (frs_current_uid (local_state w), frs_current_gid (local_state w)), fr_system = ip_kernel w\<rparr>"


lemma machine_sel [simp]:
  "fr_table (machine P w) = session_view P w" "fr_ids (machine P w) = session_ids w"
  "fr_shown (machine P w) = (frs_current_uid (local_state w), frs_current_gid (local_state w))"
  "fr_system (machine P w) = ip_kernel w"
  by (simp_all add: machine_def)

lemma machine_entry [simp]: "fr_entry (machine P w) k = entry_or_new P w k"
  by (simp add: fr_entry_def entry_or_new_def cong: option.case_cong)

















section \<open>One call\<close>















section \<open>Any program\<close>








section \<open>The two pairs of ids\<close>



section \<open>A process on its own table\<close>

lemma local_session_frame [simp]:
  "local_session w \<Longrightarrow> local_session (global_update f w)"
  "local_session w \<Longrightarrow> local_session (w\<lparr>ip_kernel := k\<rparr>)"
  "local_session w \<Longrightarrow> local_session (w\<lparr>ip_boot_uid := u, ip_boot_gid := g\<rparr>)"
  by (simp_all add: local_session_def global_update_def ready_def)

lemma global_update_frame [simp]:
  "ip_shm (global_update f w) = ip_shm w" "ip_link (global_update f w) = ip_link w"
  by (simp_all add: global_update_def)

lemma local_ops_stay [simp]:
  assumes "local_session w"
  shows "local_session (snd (get_inode P k w))" "local_session (set_inode P k i w)"
    "local_session (remove_inode P k w)" "local_session (record_chown_key P k u g w)"
    "local_session (snd (current_fake_uid P w))" "local_session (snd (current_fake_gid P w))"
  using assms by (simp_all add: local_session_ops)

lemma local_update_stay [simp]: "local_session w \<Longrightarrow> local_session (update_inode P k f w)"
  by (simp add: update_inode_def local_session_ops split: option.split)

lemma local_ready: "local_session w \<Longrightarrow> ready w"
  by (simp add: local_session_def)

lemma local_drops_stay [simp]:
  assumes "local_session w"
  shows "local_session (maybe_remove_inode P k n w)" "local_session (maybe_remove_inode_path P path w)"
    "local_session (maybe_remove_inode_at P d path flags w)"
    "local_session (prepare_rename_overwrite P od old nd new w)"
  using assms local_ready [OF assms]
  by (simp_all add: maybe_remove_inode_def maybe_remove_inode_path_def maybe_remove_inode_at_def
      prepare_rename_overwrite_def Let_def split: sum.split)

lemma local_records_stay [simp]:
  assumes "local_session w"
  shows "local_session (snd (record_chown P src u g w))" "local_session (snd (record_chmod P src mode w))"
    "local_session (snd (fake_setxattr P src name v sz w))" "local_session (snd (fake_removexattr P src name w))"
    "local_session (snd (set_current_ids P u g w))" "local_session (snd (modify_stat_buf P st w))"
    "local_session (snd (finish_fake_mknod P path mode dev w))"
  using assms local_ready [OF assms] local_inactive [OF assms]
  by (simp_all add: record_chown_def record_chmod_def record_chmod_for_key_def fake_setxattr_def
      record_xattr_for_key_def fake_removexattr_def remove_xattr_for_key_def set_current_ids_def
      modify_stat_buf_def apply_default_ownership_def ready_global_state local_session_ops finish_fake_mknod_def
      Let_def case_prod_beta split: sum.split option.split)

lemma local_stat_stay [simp]: "local_session w \<Longrightarrow> local_session (snd (answer_stat (after_stat P r b w)))"
  by (auto simp: answer_stat_def after_stat_def case_prod_beta)

lemma local_data_stay [simp]:
  assumes "local_session w"
  shows "local_session (snd (answer_data w (fake_getxattr P src name buf sz w)))"
    "local_session (snd (answer_data w (fake_listxattr P src buf sz w)))"
  using assms local_ready [OF assms]
  by (auto simp: answer_data_def fake_getxattr_def fake_listxattr_def Let_def local_session_ops
      split: option.split sum.split prod.split)




section \<open>Property\<close>



end
