(* ===== verification/Attribute_Bounds.thy ===== *)
theory Attribute_Bounds
  imports Hook_Properties
begin

text \<open>
  The attribute calls and the caller's buffer (\<open>write_xattr_value\<close>, \<open>write_xattr_list\<close>,
  \<open>fake_getxattr\<close> and \<open>fake_listxattr\<close> in \<open>pseudoroot/interpose/src/ownership.rs\<close>): nothing is
  written past the size the caller gave.
\<close>

text \<open>
  What \<open>getxattr(2)\<close> and \<open>listxattr(2)\<close> document of a call with buffer \<open>b\<close> and size \<open>sz\<close>: the
  bytes from \<open>sz\<close> on are not written, and unless the size is 0 the result is an error or the
  number of bytes written.
\<close>

definition within_buffer :: "bytes \<Rightarrow> nat \<Rightarrow> i32 \<times> bytes option \<Rightarrow> bool" where
  "within_buffer b sz r \<longleftrightarrow>
     (case snd r of None \<Rightarrow> False | Some b' \<Rightarrow> length b' = length b \<and> drop sz b' = drop sz b) \<and>
     (sz = 0 \<or> sint (fst r) \<le> int sz)"

definition real_xattr_bounded :: "'k kernel \<Rightarrow> stat_source \<Rightarrow> bytes \<Rightarrow> nat \<Rightarrow> bool" where
  "real_xattr_bounded K src b sz \<longleftrightarrow>
     (\<forall>init name k r. real_getxattr_for K init src name (Some b) sz k = Some r \<longrightarrow> within_buffer b sz r) \<and>
     (\<forall>init k r. real_listxattr_for K init src (Some b) sz k = Some r \<longrightarrow> within_buffer b sz r)"

lemma within_bufferI:
  "length b' = length b \<Longrightarrow> drop sz b' = drop sz b \<Longrightarrow> sz = 0 \<or> sint rc \<le> int sz \<Longrightarrow>
     within_buffer b sz (rc, Some b')"
  by (simp add: within_buffer_def)

lemma within_buffer_refl: "sz = 0 \<or> sint rc \<le> int sz \<Longrightarrow> within_buffer b sz (rc, Some b)"
  by (simp add: within_buffer_def)

lemma within_buffer_trans:
  "within_buffer b sz (rc, Some b1) \<Longrightarrow> within_buffer b1 sz r \<Longrightarrow> within_buffer b sz r"
  by (auto simp: within_buffer_def split: option.splits)

lemma within_buffer_some: "within_buffer b sz (rc, buf) \<Longrightarrow> \<exists>b'. buf = Some b' \<and> length b' = length b"
  by (auto simp: within_buffer_def split: option.splits)

lemma sint_of_nat_small: "n < 2 ^ 31 \<Longrightarrow> sint (word_of_nat n :: i32) = int n"
  using signed_take_bit_int_eq_self [of 31 "int n"] sint_sbintrunc' [of "int n", where 'a = 32]
  by simp

lemma drop_copy:
  assumes "length v \<le> sz" and "sz \<le> length b"
  shows "drop sz (copy_at 0 v b) = drop sz b"
proof -
  have "drop (sz - length v) (drop (length v) b) = drop sz b" using assms by simp
  then show ?thesis using assms by (simp add: copy_at_def)
qed

lemma copy_within:
  assumes "length v \<le> sz" and "sz \<le> length b" and "sz < 2 ^ 31"
  shows "within_buffer b sz (word_of_nat (length v), Some (copy_at 0 v b))"
proof (rule within_bufferI)
  have "sint (word_of_nat (length v) :: i32) = int (length v)"
    using assms by (intro sint_of_nat_small) simp
  then show "sz = 0 \<or> sint (word_of_nat (length v) :: i32) \<le> int sz" using assms(1) by simp
qed (use assms drop_copy [OF assms(1,2)] in \<open>simp_all add: length_copy_at\<close>)

lemma erange_negative: "sint (- ERANGE :: i32) < 0"
  by (simp add: ERANGE_def)

lemma write_value_within:
  "sz \<le> length b \<Longrightarrow> sz < 2 ^ 31 \<Longrightarrow> within_buffer b sz (write_xattr_value v (Some b) sz)"
  using copy_within [of v sz b] erange_negative
  by (auto simp: write_xattr_value_def intro: within_buffer_refl)

lemma write_list_within:
  "sz \<le> length b \<Longrightarrow> sz < 2 ^ 31 \<Longrightarrow> within_buffer b sz (write_xattr_list v (Some b) sz)"
  using copy_within [of v sz b] erange_negative
  by (auto simp: write_xattr_list_def intro: within_buffer_refl)

lemma listxattr_answer:
  assumes "fake_listxattr P src lst sz w = Some (r, w')"
  obtains init k extra rc buf where "real_listxattr_for (se_kernel P) init src lst sz k = Some (rc, buf)"
    "r = (rc, buf) \<or> (\<exists>names. write_xattr_list (merge_xattr_lists names extra) buf sz = r)"
proof -
  define p where "p = (case source_stat (se_kernel P) src (ip_kernel (ensure_library_init P w)) of
      Inr st \<Rightarrow>
        (case get_inode P (key_from_stat st) (ensure_library_init P w) of
           (Some inode, w) \<Rightarrow> (se_keys P (i_xattrs inode), w)
         | (None, w) \<Rightarrow> ([], w))
    | Inl e \<Rightarrow> ([], ensure_library_init P w))"
  obtain r1 r2 where r: "r = (r1, r2)" by (cases r)
  have "\<exists>rc buf. real_listxattr_for (se_kernel P) (ip_init_done (snd p)) src lst sz (ip_kernel (snd p)) = Some (rc, buf) \<and>
      (r = (rc, buf) \<or> (\<exists>names. write_xattr_list (merge_xattr_lists names (fst p)) buf sz = r))"
    using assms unfolding fake_listxattr_def Let_def p_def [symmetric]
    by (cases "real_listxattr_for (se_kernel P) (ip_init_done (snd p)) src lst sz (ip_kernel (snd p))")
       (auto simp: case_prod_beta r split: if_splits)
  then show thesis using that [of "ip_init_done (snd p)" "ip_kernel (snd p)" _ _ "fst p"] by (elim exE conjE) auto
qed

section \<open>Property\<close>

text \<open>
  C26: A call that reads attributes into a buffer writes nothing past the size it was given, and
  its result is an error or at most that size, whether the value is a recorded one, the list
  a merged one or both come from the system, as long as the system's own calls keep to that.
\<close>

theorem xattr_reads_stay_in_buffer:
  assumes "sz \<le> length b" and "sz < 2 ^ 31" and "real_xattr_bounded (se_kernel P) src b sz"
  shows "(\<forall>r w'. fake_getxattr P src name (Some b) sz w = Some (r, w') \<longrightarrow> within_buffer b sz r) \<and>
    (\<forall>r w'. fake_listxattr P src (Some b) sz w = Some (r, w') \<longrightarrow> within_buffer b sz r)"
proof (intro conjI allI impI)
  have einval: "within_buffer b sz (- EINVAL, Some b)"
    by (rule within_buffer_refl) (simp add: EINVAL_def)
  fix r w' assume "fake_getxattr P src name (Some b) sz w = Some (r, w')"
  then show "within_buffer b sz r"
    using einval write_value_within [OF assms(1,2)] assms(3)
    by (auto simp: fake_getxattr_def real_xattr_bounded_def Let_def
        split: option.splits sum.splits prod.splits)
next
  fix r w' assume "fake_listxattr P src (Some b) sz w = Some (r, w')"
  then obtain init k extra rc buf where real:
      "real_listxattr_for (se_kernel P) init src (Some b) sz k = Some (rc, buf)"
    and r: "r = (rc, buf) \<or> (\<exists>names. write_xattr_list (merge_xattr_lists names extra) buf sz = r)"
    by (rule listxattr_answer)
  from real assms(3) have within: "within_buffer b sz (rc, buf)" by (simp add: real_xattr_bounded_def)
  from within_buffer_some [OF this] obtain b1 where b1: "buf = Some b1" "length b1 = length b" by blast
  with r within show "within_buffer b sz r"
    using write_list_within [of sz b1] assms(1,2) within_buffer_trans by metis
qed

theorem xattr_reads_stay_in_buffer_witness:
  "\<exists>r w'. fake_listxattr example_params (Path (Some (bytes_of ''/f'')) False) (Some (replicate 12 9)) 11
      example_world = Some (r, w') \<and> within_buffer (replicate 12 9) 11 r"
proof -
  have "within_buffer b sz (example_list (Some b) sz)" if "sz \<le> length b" for b sz
    using that drop_copy [of "bytes_of ''user.real'' @ [0]" sz b]
    by (auto simp: example_list_def within_buffer_def length_copy_at)
  then have "real_xattr_bounded example_kernel (Path (Some (bytes_of ''/f'')) False) (replicate 12 9) 11"
    by (auto simp: real_xattr_bounded_def real_getxattr_for_def real_listxattr_for_def real_getxattr_def
        real_listxattr_def real_fn_def example_kernel_def intro: within_buffer_refl)
  then have "within_buffer (replicate 12 9) 11 r"
    if "fake_listxattr example_params (Path (Some (bytes_of ''/f'')) False) (Some (replicate 12 9)) 11
      example_world = Some (r, w')" for r w'
    using xattr_reads_stay_in_buffer [of 11 "replicate 12 9" example_params] that
    by (simp del: split_paired_All) blast
  moreover have "fake_listxattr P (Path path nofollow) lst sz w \<noteq> None" for P :: "('w, 'k) params" and path nofollow lst sz w
    by (auto simp: fake_listxattr_def real_listxattr_for_def Let_def split: prod.splits)
  ultimately show ?thesis by (metis not_Some_eq surj_pair)
qed

end
