(* ===== verification/Unit_Tests.thy ===== *)
theory Unit_Tests
  imports Attribute_Bounds Session_Laws Daemon_Properties
begin

text \<open>
  The unit tests that stand beside the code, as predicates on the model, one definition per
  \<open>#[test]\<close> with the test's name, and the lemmas that they pass.  What \<open>assert!\<close>, \<open>assert_eq!\<close> and
  \<open>unwrap\<close> check is a conjunct; a branch on which the test would panic is \<open>False\<close>.
\<close>

section \<open>The in-process table (\<open>lib.rs\<close> of the core crate)\<close>

definition test_fake_root_state_new :: bool where
  "test_fake_root_state_new \<longleftrightarrow>
     (let state = fake_root_state_new in frs_current_uid state = 0 \<and> frs_current_gid state = 0)"

definition test_fake_root_state_set_current :: bool where
  "test_fake_root_state_set_current \<longleftrightarrow>
     (let state = frs_set_current 1234 5678 fake_root_state_new
      in frs_current_uid state = 1234 \<and> frs_current_gid state = 5678)"

definition test_fake_root_state_inode_mode :: bool where
  "test_fake_root_state_inode_mode \<longleftrightarrow>
     (let key = (1, 42); inode = (fake_inode_new 0 0)\<lparr>i_mode := Some 0x9ED\<rparr>;
          state = frs_set_inode key inode fake_root_state_new
      in frs_get_inode state key = Some inode)"

definition test_fake_root_state_upsert_chown :: bool where
  "test_fake_root_state_upsert_chown \<longleftrightarrow>
     (let state = frs_upsert_chown (1, 2) 100 200 0 0 fake_root_state_new in
      case frs_get_inode state (1, 2) of
        None \<Rightarrow> False
      | Some inode \<Rightarrow> i_uid inode = 100 \<and> i_gid inode = 200 \<and>
          (let state = frs_upsert_chown (1, 2) ID_UNCHANGED 7 0 0 state in
           case frs_get_inode state (1, 2) of
             None \<Rightarrow> False
           | Some inode \<Rightarrow> i_uid inode = 100 \<and> i_gid inode = 7))"

definition test_fake_root_state_remove_inode :: bool where
  "test_fake_root_state_remove_inode \<longleftrightarrow>
     (let key = (1, 42); inode = fake_inode_new 3000 4000;
          state = frs_set_inode key inode fake_root_state_new
      in frs_get_inode state key = Some inode \<and>
         (case frs_remove_inode key state of
            (removed, state) \<Rightarrow> removed = Some inode \<and> frs_get_inode state key = None))"

lemma state_tests_pass:
  "test_fake_root_state_new" "test_fake_root_state_set_current" "test_fake_root_state_inode_mode"
  "test_fake_root_state_upsert_chown" "test_fake_root_state_remove_inode"
  by (simp_all add: test_fake_root_state_new_def test_fake_root_state_set_current_def
      test_fake_root_state_inode_mode_def test_fake_root_state_upsert_chown_def
      test_fake_root_state_remove_inode_def fake_root_state_new_def frs_set_current_def frs_set_inode_def
      frs_get_inode_def frs_upsert_chown_def frs_remove_inode_def fake_inode_new_def ID_UNCHANGED_def
      merge_ids_def)

section \<open>The shared-memory table\<close>

text \<open>\<open>ShmInodeMap::create(n, 0, 0).unwrap()\<close> and the rest of a test.\<close>

definition on_table :: "shm_os \<Rightarrow> u32 \<Rightarrow> (shm_map \<Rightarrow> shm_mem \<Rightarrow> bool) \<Rightarrow> bool" where
  "on_table os n test = (case shm_create os n 0 0 of Inl e \<Rightarrow> False | Inr (mp, m) \<Rightarrow> test mp m)"

text \<open>\<open>get_inode(key).unwrap()\<close> and the assertions on the entry.\<close>

definition found_inode :: "fake_inode option \<Rightarrow> (fake_inode \<Rightarrow> bool) \<Rightarrow> bool" where
  "found_inode r check = (case r of None \<Rightarrow> False | Some inode \<Rightarrow> check inode)"

definition shm_roundtrip_chown_and_lookup :: "xattrs serde \<Rightarrow> shm_os \<Rightarrow> bool" where
  "shm_roundtrip_chown_and_lookup c os = on_table os 256 (\<lambda>mp m.
     let m = shm_upsert_chown c mp (9, 42) 1000 2000 0 0 m in
     found_inode (shm_get_inode c mp m (9, 42)) (\<lambda>inode. i_uid inode = 1000 \<and> i_gid inode = 2000) \<and>
     (let m = shm_upsert_chown c mp (9, 42) ID_UNCHANGED 7 0 0 m in
      found_inode (shm_get_inode c mp m (9, 42)) (\<lambda>inode. i_uid inode = 1000 \<and> i_gid inode = 7)))"

definition shm_remove_then_relookup_returns_none :: "xattrs serde \<Rightarrow> shm_os \<Rightarrow> bool" where
  "shm_remove_then_relookup_returns_none c os = on_table os 256 (\<lambda>mp m.
     let m = shm_upsert_chown c mp (9, 42) 1000 2000 0 0 m in
     case shm_remove_inode c mp (9, 42) m of (removed, m) \<Rightarrow>
       removed \<and> shm_get_inode c mp m (9, 42) = None \<and> \<not> fst (shm_remove_inode c mp (9, 42) m))"

definition shm_remove_does_not_break_probing_for_colliding_key :: "xattrs serde \<Rightarrow> shm_os \<Rightarrow> bool" where
  "shm_remove_does_not_break_probing_for_colliding_key c os = on_table os 1 (\<lambda>mp m.
     let a = (1, 1); b = (1, 1 + 1024);
         m = shm_upsert_chown c mp a 10 20 0 0 m;
         m = shm_upsert_chown c mp b 30 40 0 0 m in
     case shm_remove_inode c mp a m of (removed, m) \<Rightarrow>
       removed \<and> shm_get_inode c mp m a = None \<and>
       found_inode (shm_get_inode c mp m b) (\<lambda>inode_b. i_uid inode_b = 30 \<and> i_gid inode_b = 40))"

definition shm_reinsert_into_tombstone_does_not_leak_stale_data :: "xattrs serde \<Rightarrow> shm_os \<Rightarrow> bool" where
  "shm_reinsert_into_tombstone_does_not_leak_stale_data c os = on_table os 1 (\<lambda>mp m.
     let a = (1, 1); b = (1, 1 + 1024);
         inode_a = (fake_inode_new 10 20)
           \<lparr>i_xattrs := fmupd (bytes_of ''security.capability'') [1, 2, 3] fmempty\<rparr>;
         m = shm_upsert_inode c mp a inode_a m in
     case shm_remove_inode c mp a m of (removed, m) \<Rightarrow>
       removed \<and>
       (let m = shm_upsert_chown c mp b 99 99 0 0 m in
        found_inode (shm_get_inode c mp m b)
          (\<lambda>inode_b. i_uid inode_b = 99 \<and> i_gid inode_b = 99 \<and> i_xattrs inode_b = fmempty)))"

definition roundtrip_xattrs :: xattrs where
  "roundtrip_xattrs = fmupd (bytes_of ''user.pax.flags'') (bytes_of ''m'')
     (fmupd (bytes_of ''security.capability'') [0x01, 0x00, 0x02] fmempty)"

definition shm_xattr_roundtrip_through_upsert_inode :: "xattrs serde \<Rightarrow> shm_os \<Rightarrow> bool" where
  "shm_xattr_roundtrip_through_upsert_inode c os = on_table os 256 (\<lambda>mp m.
     let inode = (fake_inode_new 1000 2000)\<lparr>i_xattrs := roundtrip_xattrs\<rparr>;
         m = shm_upsert_inode c mp (9, 43) inode m in
     found_inode (shm_get_inode c mp m (9, 43)) (\<lambda>read_back.
       fmlookup (i_xattrs read_back) (bytes_of ''security.capability'') = Some [0x01, 0x00, 0x02] \<and>
       fmlookup (i_xattrs read_back) (bytes_of ''user.pax.flags'') = Some (bytes_of ''m'')) \<and>
     (let m = shm_upsert_chown c mp (9, 43) 1500 ID_UNCHANGED 0 0 m in
      found_inode (shm_get_inode c mp m (9, 43)) (\<lambda>read_back.
        i_uid read_back = 1500 \<and>
        fmlookup (i_xattrs read_back) (bytes_of ''security.capability'') = Some [0x01, 0x00, 0x02])))"

definition big_xattrs :: xattrs where
  "big_xattrs = fmupd (bytes_of ''user.big'') (replicate (XATTR_PAGE_SIZE * 2) 0) fmempty"

definition shm_oversized_xattr_blob_is_dropped_not_corrupting :: "xattrs serde \<Rightarrow> shm_os \<Rightarrow> bool" where
  "shm_oversized_xattr_blob_is_dropped_not_corrupting c os = on_table os 256 (\<lambda>mp m.
     let inode = (fake_inode_new 0 0)\<lparr>i_xattrs := big_xattrs\<rparr>;
         m = shm_upsert_inode c mp (9, 44) inode m in
     found_inode (shm_get_inode c mp m (9, 44))
       (\<lambda>read_back. i_uid read_back = 0 \<and> i_xattrs read_back = fmempty))"

lemma on_tableI:
  assumes "0 \<le> sint (os_memfd os)" "0 \<le> sint (os_ftruncate os)" "os_mmap_ok os"
    and "\<And>mp m. shm_create os n 0 0 = Inr (mp, m) \<Longrightarrow> test mp m"
  shows "on_table os n test"
proof -
  obtain mp m where "shm_create os n 0 0 = Inr (mp, m)"
    using shm_create_ok [OF assms(1-3), of n 0 0] by blast
  with assms(4) show ?thesis by (simp add: on_table_def)
qed

text \<open>A lookup after at most a thousand operations on a fresh table.\<close>

lemma fresh_lookup:
  assumes "serde_ok c" and "shm_create os n 0 0 = Inr (h, m)" and "length ops \<le> 1000"
  shows "shm_get_inode c h (fold (shm_step c h) ops m) k = fold (spec_op (shm_canon c)) ops Map.empty k"
proof -
  obtain e where e: "10 \<le> e" "sm_slot_count h = 2 ^ e" "e \<le> 31"
    using shm_create_success(1) [OF assms(2)] by blast
  have "(2::nat) ^ 10 \<le> 2 ^ e" using e(1) by (rule power_increasing) simp
  then have "1000 \<le> nslots h" using e by (simp add: unat_two_power)
  then have "length (filter inserts ops) \<le> nslots h"
    using assms(3) length_filter_le [of inserts ops] by linarith
  from created_refines [OF assms(1,2) this] show ?thesis by simp
qed

text \<open>\<open>remove_inode\<close> says whether there was an entry.\<close>

lemma remove_says: "fst (shm_remove_inode c h k m) \<longleftrightarrow> shm_get_inode c h m k \<noteq> None"
  by (auto simp: shm_remove_inode_def shm_get_inode_def case_prod_beta Let_def split: probe.split)

lemma shm_tests_pass:
  assumes "serde_ok c" and os: "0 \<le> sint (os_memfd os)" "0 \<le> sint (os_ftruncate os)" "os_mmap_ok os"
  shows "shm_roundtrip_chown_and_lookup c os"
    and "shm_remove_then_relookup_returns_none c os"
    and "shm_remove_does_not_break_probing_for_colliding_key c os"
    and "shm_reinsert_into_tombstone_does_not_leak_stale_data c os"
    and "fits_page c roundtrip_xattrs \<Longrightarrow> shm_xattr_roundtrip_through_upsert_inode c os"
    and "\<not> fits_page c big_xattrs \<Longrightarrow> shm_oversized_xattr_blob_is_dropped_not_corrupting c os"
proof -
  note spec = merge_ids_def ID_UNCHANGED_def fake_inode_new_def shm_canon_def canon_xattrs_def
  show "shm_roundtrip_chown_and_lookup c os"
    unfolding shm_roundtrip_chown_and_lookup_def
  proof (rule on_tableI [OF os])
    fix h m assume h: "shm_create os 256 0 0 = Inr (h, m)"
    note F = fresh_lookup [OF assms(1) h]
    show "let m = shm_upsert_chown c h (9, 42) 1000 2000 0 0 m in
        found_inode (shm_get_inode c h m (9, 42)) (\<lambda>inode. i_uid inode = 1000 \<and> i_gid inode = 2000) \<and>
        (let m = shm_upsert_chown c h (9, 42) ID_UNCHANGED 7 0 0 m in
         found_inode (shm_get_inode c h m (9, 42)) (\<lambda>inode. i_uid inode = 1000 \<and> i_gid inode = 7))"
      using F [of "[Chown (9, 42) 1000 2000 0 0]"] F [of "[Chown (9, 42) 1000 2000 0 0, Chown (9, 42) ID_UNCHANGED 7 0 0]"]
      by (simp add: found_inode_def spec)
  qed
  show "shm_remove_then_relookup_returns_none c os"
    unfolding shm_remove_then_relookup_returns_none_def
    using fresh_lookup [OF assms(1), where os = os, of 256 _ _ "[Chown (9, 42) 1000 2000 0 0]" "(9, 42)"]
      fresh_lookup [OF assms(1), where os = os, of 256 _ _ "[Chown (9, 42) 1000 2000 0 0, Remove (9, 42)]" "(9, 42)"]
    by (intro on_tableI [OF os]) (simp add: Let_def case_prod_beta remove_says)
  show "shm_remove_does_not_break_probing_for_colliding_key c os"
    unfolding shm_remove_does_not_break_probing_for_colliding_key_def
    using fresh_lookup [OF assms(1), where os = os, of 1 _ _ "[Chown (1, 1) 10 20 0 0, Chown (1, 1025) 30 40 0 0]"]
      fresh_lookup [OF assms(1), where os = os, of 1 _ _ "[Chown (1, 1) 10 20 0 0, Chown (1, 1025) 30 40 0 0, Remove (1, 1)]"]
    by (intro on_tableI [OF os]) (simp add: Let_def case_prod_beta remove_says found_inode_def spec)
  show "shm_reinsert_into_tombstone_does_not_leak_stale_data c os"
    unfolding shm_reinsert_into_tombstone_does_not_leak_stale_data_def
    using fresh_lookup [OF assms(1), where os = os, of 1 _ _ "[Upsert (1, 1) i]" for i]
      fresh_lookup [OF assms(1), where os = os, of 1 _ _ "[Upsert (1, 1) i, Remove (1, 1), Chown (1, 1025) 99 99 0 0]" for i]
    by (intro on_tableI [OF os]) (simp add: Let_def case_prod_beta remove_says found_inode_def spec)
  show "shm_xattr_roundtrip_through_upsert_inode c os" if "fits_page c roundtrip_xattrs"
    unfolding shm_xattr_roundtrip_through_upsert_inode_def
    using fresh_lookup [OF assms(1), where os = os, of 256 _ _ "[Upsert (9, 43) i]" for i]
      fresh_lookup [OF assms(1), where os = os, of 256 _ _ "[Upsert (9, 43) i, Chown (9, 43) 1500 ID_UNCHANGED 0 0]" for i] that
    by (intro on_tableI [OF os]) (simp add: Let_def found_inode_def spec, simp add: roundtrip_xattrs_def bytes_of_def)
  show "shm_oversized_xattr_blob_is_dropped_not_corrupting c os" if "\<not> fits_page c big_xattrs"
    unfolding shm_oversized_xattr_blob_is_dropped_not_corrupting_def
    using fresh_lookup [OF assms(1), where os = os, of 256 _ _ "[Upsert (9, 44) i]" for i] that
    by (intro on_tableI [OF os]) (simp add: Let_def found_inode_def spec)
qed

section \<open>Messages\<close>

definition test_message_serialization :: "codecs \<Rightarrow> bool" where
  "test_message_serialization c \<longleftrightarrow>
     (let msg = pm_new Ping [1, 2, 3] 42; bs = to_wire (c_message c) msg in
      case from_wire (c_message c) bs of
        None \<Rightarrow> False
      | Some decoded \<Rightarrow> message_type decoded = Ping \<and> payload decoded = [1, 2, 3] \<and> request_id decoded = 42)"

definition test_inode_state_payload :: "codecs \<Rightarrow> bool" where
  "test_inode_state_payload c \<longleftrightarrow>
     (let pl = \<lparr>is_dev = 1, is_ino = 42, is_uid = 1000, is_gid = 2000, is_mode = Some 0x9ED, is_rdev = Some 0x803,
                is_xattrs = fmupd (bytes_of ''security.capability'') [1, 2, 3] fmempty\<rparr>;
          bs = to_wire (c_state c) pl in
      case from_wire (c_state c) bs of
        None \<Rightarrow> False
      | Some decoded \<Rightarrow> is_dev decoded = 1 \<and> is_ino decoded = 42 \<and> is_uid decoded = 1000 \<and>
          is_gid decoded = 2000 \<and> is_mode decoded = Some 0x9ED \<and> is_rdev decoded = Some 0x803 \<and>
          fmlookup (is_xattrs decoded) (bytes_of ''security.capability'') = Some [1, 2, 3])"

text \<open>The counter may stand anywhere when the test runs; the sum must not overflow for it to pass.\<close>

definition test_request_id_generation :: "u64 \<Rightarrow> bool" where
  "test_request_id_generation counter \<longleftrightarrow>
     (case next_request_id counter of (id1, counter) \<Rightarrow>
      case next_request_id counter of (id2, counter) \<Rightarrow> unat id1 + 1 < 2 ^ 64 \<and> id1 + 1 = id2)"

lemma message_tests_pass:
  assumes "codecs_ok c"
  shows "test_message_serialization c" and "test_inode_state_payload c"
    and "counter \<noteq> - 1 \<Longrightarrow> test_request_id_generation counter"
proof -
  show "test_message_serialization c" "test_inode_state_payload c"
    using assms by (simp_all add: test_message_serialization_def test_inode_state_payload_def
        codecs_ok_def wire_ok_def pm_new_def)
  show "test_request_id_generation counter" if "counter \<noteq> - 1"
  proof -
    have "1 + counter \<noteq> 0" using that by (metis add_eq_0_iff2 minus_equation_iff)
    then have "unat (1 + counter) = Suc (unat counter)" by (rule unatSuc)
    moreover have "unat (1 + counter) < 2 ^ LENGTH(64)" by (rule unsigned_less)
    ultimately have "unat counter + 1 < 2 ^ 64" by simp
    then show ?thesis by (simp add: test_request_id_generation_def next_request_id_def)
  qed
qed

section \<open>The daemon\<close>

definition serves_multiple_requests_on_one_connection ::
    "codecs \<Rightarrow> 'f server_os \<Rightarrow> bytes \<Rightarrow> 'f \<Rightarrow> bool" where
  "serves_multiple_requests_on_one_connection c os sock f =
     (case session_daemon_start os sock 0 0 f of
        (Inl e, f) \<Rightarrow> False
      | (Inr daemon, f) \<Rightarrow>
          (case ipc_connect (rpc_ops c) (ipc_new (sd_socket_path daemon),
                  \<lparr>rp_daemon = sd_daemon daemon, rp_tx = [], rp_rx = [], rp_up = True\<rparr>) of
             (Some e, ch, w) \<Rightarrow> False
           | (None, ch, w) \<Rightarrow>
               (let chown = \<lparr>cp_dev = 9, cp_ino = 42, cp_uid = 99999, cp_gid = 88888,
                             cp_default_uid = 0, cp_default_gid = 0\<rparr> in
                case ipc_request c (rpc_ops c) ch (pm_new UpsertChown (to_wire (c_chown c) chown) 1) w of
                  (Inl e, w) \<Rightarrow> False
                | (Inr resp, w) \<Rightarrow>
                    message_type resp = Response \<and>
                    (let key = \<lparr>ik_dev = 9, ik_ino = 42\<rparr> in
                     case ipc_request c (rpc_ops c) ch (pm_new GetOwnership (to_wire (c_key c) key) 2) w of
                       (Inl e, w) \<Rightarrow> False
                     | (Inr resp, w) \<Rightarrow>
                         (case from_wire (c_result c) (payload resp) of
                            None \<Rightarrow> False
                          | Some result \<Rightarrow> ir_found result \<and> ir_uid result = 99999 \<and> ir_gid result = 88888)))))"

lemma daemon_test_passes:
  assumes "codecs_ok c" and "small_fit c" and "entry_fits c (fake_inode_new 99999 88888)"
    and "bind_listener os sock f = (None, f')"
  shows "serves_multiple_requests_on_one_connection c os sock f"
proof -
  let ?d = "\<lparr>d_state = new_shared_state 0 0, d_shutdown = False\<rparr>"
  let ?w = "\<lparr>rp_daemon = ?d, rp_tx = [], rp_rx = [], rp_up = True\<rparr>"
  let ?ch = "\<lparr>ch_stream = True, ch_socket_path = sock\<rparr>"
  let ?m = "chown_message c (9, 42) 99999 88888 0 0 1" and ?q = "key_message c GetOwnership (9, 42) 2"
  let ?d1 = "dispatch_state c ?m ?d"
  have connect: "ipc_connect (rpc_ops c) (ipc_new sock, ?w) = (None, ?ch, ?w)"
    by (simp add: ipc_connect_def ipc_new_def rpc_ops_def)
  have reply: "dispatch_reply c ?m ?d = pm_response 1 []" by (rule dispatch_replies [OF assms(1)])
  have first: "ipc_request c (rpc_ops c) ?ch ?m ?w = (Inr (pm_response 1 []), ?w\<lparr>rp_daemon := ?d1\<rparr>)"
    using rpc_request [OF assms(1), of ?w ?ch ?m] assms(2) reply
    by (simp add: rpc_idle_def small_fit_def pm_response_def del: split_paired_All)
  have "op_of_message c ?m = Some (Chown (9, 42) 99999 88888 0 0)" by (rule op_of_messages [OF assms(1)])
  then have entry: "frs_get_inode (d_state ?d1) (9, 42) = Some (fake_inode_new 99999 88888)"
    by (simp add: dispatch_table new_shared_state_def frs_get_inode_def fake_root_state_new_def frs_set_current_def
        merge_ids_def ID_UNCHANGED_def fake_inode_new_def)
  have answer: "dispatch_reply c ?q ?d1 =
      pm_response 2 (to_wire (c_result c) (result_of_inode (Some (fake_inode_new 99999 88888))))"
    by (simp add: dispatch_get [OF assms(1)] entry)
  have fits: "fits_frame c ?q" "fits_frame c (dispatch_reply c ?q ?d1)"
    using assms(2,3) unfolding answer by (simp_all add: small_fit_def entry_fits_def del: split_paired_All)
  have second: "ipc_request c (rpc_ops c) ?ch ?q (?w\<lparr>rp_daemon := ?d1\<rparr>) =
      (Inr (dispatch_reply c ?q ?d1), ?w\<lparr>rp_daemon := ?d1\<rparr>)"
    using rpc_request [OF assms(1) _ _ fits(1), of "?w\<lparr>rp_daemon := ?d1\<rparr>" ?ch] fits(2)
    by (simp add: rpc_idle_def dispatch_get [OF assms(1)])
  have "from_wire (c_result c) (payload (dispatch_reply c ?q ?d1)) =
      Some (result_of_inode (Some (fake_inode_new 99999 88888)))"
    by (simp add: answer pm_response_def pm_new_def codecs_okD [OF assms(1)])
  then show ?thesis
    using connect first second assms(4)
    by (simp add: serves_multiple_requests_on_one_connection_def session_daemon_start_def chown_message_def
        key_message_def pm_response_def pm_new_def result_of_inode_def fake_inode_new_def Let_def)
qed

section \<open>The client's environment\<close>

text \<open>\<open>remove_var\<close> and \<open>set_var\<close> on the variable the link reads; the rest of the link is any.\<close>

definition test_daemon_mode_enabled_no_env :: "'w daemon_link \<Rightarrow> bool" where
  "test_daemon_mode_enabled_no_env l \<longleftrightarrow> \<not> daemon_mode_enabled (l\<lparr>dl_env := None\<rparr>)"

definition test_daemon_mode_enabled_with_env :: "'w daemon_link \<Rightarrow> bool" where
  "test_daemon_mode_enabled_with_env l \<longleftrightarrow>
     daemon_mode_enabled (l\<lparr>dl_env := Some (bytes_of ''/tmp/test.sock'')\<rparr>)"

definition test_get_daemon_socket_path :: "'w daemon_link \<Rightarrow> bool" where
  "test_get_daemon_socket_path l \<longleftrightarrow>
     get_daemon_socket_path (l\<lparr>dl_env := None\<rparr>) = None \<and>
     get_daemon_socket_path (l\<lparr>dl_env := Some (bytes_of ''/tmp/custom.sock'')\<rparr>) =
       Some (bytes_of ''/tmp/custom.sock'')"

lemma environment_tests_pass:
  "test_daemon_mode_enabled_no_env l" "test_daemon_mode_enabled_with_env l" "test_get_daemon_socket_path l"
proof -
  have "utf8_valid (bytes_of ''/tmp/test.sock'')" "utf8_valid (bytes_of ''/tmp/custom.sock'')"
    by (rule utf8_valid_ascii, simp add: bytes_of_def)+
  then show "test_daemon_mode_enabled_no_env l" "test_daemon_mode_enabled_with_env l"
    "test_get_daemon_socket_path l"
    by (simp_all add: test_daemon_mode_enabled_no_env_def test_daemon_mode_enabled_with_env_def
        test_get_daemon_socket_path_def daemon_mode_enabled_def get_daemon_socket_path_def)
qed

section \<open>Modes and attribute lists\<close>

definition compose_mode_keeps_type_overrides_perms :: bool where
  "compose_mode_keeps_type_overrides_perms \<longleftrightarrow>
     (let real = S_IFREG OR 0x1A4 in compose_mode real 0x9ED = S_IFREG OR 0x9ED)"

definition windows :: "nat \<Rightarrow> bytes \<Rightarrow> bytes list" where
  "windows n bs = map (\<lambda>i. take n (drop i bs)) [0..<Suc (length bs) - n]"

definition starts_with :: "bytes \<Rightarrow> bytes \<Rightarrow> bool" where
  "starts_with bs prefix \<longleftrightarrow> take (length prefix) bs = prefix"

definition merge_xattr_lists_dedupes :: bool where
  "merge_xattr_lists_dedupes \<longleftrightarrow>
     (let real = bytes_of ''user.foo'' @ [0] @ bytes_of ''system.posix_acl_access'' @ [0];
          extra = [bytes_of ''security.capability''];
          merged = merge_xattr_lists real extra
      in list_ex (\<lambda>w. starts_with w (bytes_of ''security.capability'')) (windows 20 merged) \<and>
         list_ex (\<lambda>w. starts_with w (bytes_of ''user.foo'')) (windows 8 merged))"

lemma ownership_tests_pass: "compose_mode_keeps_type_overrides_perms" "merge_xattr_lists_dedupes"
  by code_simp+

section \<open>Session supervision\<close>

definition session_supervision_skips_when_daemon_socket_set :: "environ \<Rightarrow> bool" where
  "session_supervision_skips_when_daemon_socket_set e \<longleftrightarrow>
     (let cmd = command_env DAEMON_SOCKET_ENV (bytes_of ''/tmp/pseudoroot.sock'') (command_new (bytes_of ''true''))
      in \<not> session_supervision_enabled e cmd)"

definition session_supervision_skips_when_standalone_set :: "environ \<Rightarrow> bool" where
  "session_supervision_skips_when_standalone_set e \<longleftrightarrow>
     (let cmd = command_env STANDALONE_ENV (bytes_of ''1'') (command_new (bytes_of ''true''))
      in \<not> session_supervision_enabled e cmd)"

lemma session_tests_pass:
  "session_supervision_skips_when_daemon_socket_set e" "session_supervision_skips_when_standalone_set e"
  by (simp_all add: session_supervision_skips_when_daemon_socket_set_def
      session_supervision_skips_when_standalone_set_def session_supervision_enabled_def command_has_env_def
      command_env_def command_new_def)

end
