(* ===== verification/Spec2Isabelle.thy ===== *)
theory Spec2Isabelle
  imports Inode_State Shm_Race Shm_Torn Daemon_Properties Channel_Fork Library_Race Library_Init
    Session_Shared Session_Properties Darwin Build_Properties Fakeroot_Refines Attribute_Bounds Unit_Tests
begin

text \<open>
  A verification development for pseudoroot, a fakeroot that works by preloading a library.

  The program.  A library preloaded into every process of a session (\<open>pseudoroot/interpose\<close>)
  intercepts the calls that deal with ids, ownership, modes, special files and extended
  attributes.  It records what a process running as root would have done in a table from inodes
  (device and inode number) to fake metadata, and rewrites the answers of the stat family from
  that table.  The table is shared by the processes of a session in one of two ways: an
  open-addressing table in shared memory (\<open>pseudoroot-core/src/shm_map.rs\<close>, \<open>shm_client.rs\<close>), or a
  daemon behind a Unix socket (\<open>protocol.rs\<close>, \<open>daemon_server.rs\<close>, \<open>daemon_client.rs\<close>).  Without
  either, each process keeps its own (\<open>state.rs\<close>).  The program \<open>pdr\<close> (\<open>pseudoroot/src\<close>) re-executes
  itself as the supervisor of a session, which creates the table or starts the daemon and runs the
  command with the library preloaded.

  The theories, from the bottom up.

  \<^item> \<open>Prelude\<close>, \<open>Rust_Text\<close>, \<open>Wincode\<close>, \<open>Process\<close>, \<open>Libc\<close>: machine integers and bytes, decimal text and
    UTF-8 as the standard library has them, the encoding crate as a parameter, commands and
    environments, and the calls of the system as a record of functions.
  \<^item> \<open>Inode_Store\<close>: the metadata of one inode (\<open>FakeInode\<close>) and the locale \<open>inode_store\<close>, the contract of
    a table (lookup, upsert, remove, chown), with the refinement of any sequence of operations to
    a map, proved once.  \<open>Inode_State\<close> (\<open>state.rs\<close>), \<open>Shm_Capacity\<close> and \<open>Shm_Client\<close>
    (shared memory) and \<open>Daemon_Laws\<close> (the daemon's messages) interpret it.
  \<^item> \<open>Shm_Table\<close>, \<open>Shm_Map\<close>, \<open>Shm_Layout\<close>, \<open>Shm_Capacity\<close>, \<open>Shm_Client\<close>, \<open>Shm_Properties\<close>: slots,
    probing with tombstones, attribute pages, creation and mapping of the shared table, the
    client's statics.  The invariant \<open>shm_inv\<close> says that every live slot is reachable by its own
    probe; \<open>shm_canon\<close> is what a slot can represent of an inode (no zero mode, no zero device
    number, attributes only when they fit a page).
  \<^item> \<open>Shm_Threads\<close>, \<open>Shm_Linear\<close>, \<open>Shm_Race\<close>: the same operations taken apart into single loads and
    stores, a schedule as the list of processes in the order they take their steps, that updates
    of different existing entries may interleave freely, and how two inserts lose an entry.
    \<open>Shm_Readers\<close> takes lookups apart in the same way: beside a change of another entry, or the
    insertion of a new one, a lookup is atomic; beside a change of its own entry it is not, and
    \<open>Shm_Torn\<close> says what it can return then: the invariant there relates every memory on the way and
    every stage of the lookup to the entry before and after the change.
  \<^item> \<open>Protocol\<close>, \<open>Daemon_Server\<close>, \<open>Daemon_Laws\<close>, \<open>Daemon_Threads\<close>, \<open>Daemon_Client\<close>,
    \<open>Daemon_Properties\<close>: framing, dispatch, the loops of the server, the interleaving of its client
    threads as a step relation, with the failures that end a thread early (\<open>server_failure\<close>), and
    the client over a socket with a daemon behind it.
    \<open>Channel_Fork\<close>: the processes that share one connection after a fork, one step for each access to
    the stream: whose answers they get when whole frames take turns, and that headers and bodies
    of interleaved frames tear.
  \<^item> \<open>Inode_Ident\<close>, \<open>Interpose\<close>, \<open>Ownership\<close>, \<open>Xattr_Ops\<close>, \<open>Hooks\<close>: the interposed library: which inode
    a call is about, initialisation and the choice of the backend, what is recorded and what is
    rewritten, and the exported functions under their C names with the prefix \<open>h_\<close>.
  \<^item> \<open>Backend\<close>, \<open>Backend_Laws\<close>, \<open>Ownership_Laws\<close>: the locale \<open>fake_backend\<close>, the contract of the routed
    operations, and its interpretation on the code's routing in the three modes of a session at
    once (\<open>session_ok\<close>: attached to shared memory, linked to a daemon, or local).  The locale
    \<open>full_backend\<close> adds what a full table does: recording in it changes nothing and raises no error.
  \<^item> \<open>Hook_Properties\<close>, \<open>Library_Properties\<close>, \<open>Library_Race\<close>: what one intercepted call promises about a
    later one, and what becomes of two processes' changes to one file.
  \<^item> \<open>Fakeroot_Spec\<close>, \<open>Fakeroot_Refines\<close>: an abstract fakeroot (one table, the session's ids and the process's
    copy of them, the system) with
    an operation for each intercepted call, and that any sequence of calls whose entries have a
    place in the table gets the same answers from the library, with the relation \<open>machine\<close> between a process in a session and the abstract state.
    Each call has a lemma \<open>track_\<close>; the sequence is an induction over them.
  \<^item> \<open>Attribute_Bounds\<close>: what the attribute calls write into a caller's buffer.
  \<^item> \<open>Unit_Tests\<close>: the unit tests beside the code, as predicates that the model satisfies.
  \<^item> \<open>Library_Init\<close>: the first use of the library by several threads at once, step by step, with the
    waiting at the two \<open>Once\<close> bodies: it sets up what one thread alone would, and what a thread
    does that comes in between is lost to the session.  It does not get stuck, but for the thread that
    maps a table without its length: that comes back into the library through its own \<open>fstat\<close>, to
    the \<open>Once\<close> it is in, and waits for itself (\<open>self_locked\<close>).
  \<^item> \<open>Session_World\<close>, \<open>Session_Shared\<close>: all the processes of a session over what they share (the
    system, the shared memory, the daemon).  A step is one routed operation in one process, or a
    fork; a session of any number of processes refines one plain map with one pair of ids, as long as
    what it records has a place (\<open>events_fit\<close>).
  \<^item> \<open>Session\<close>, \<open>Cli\<close>, \<open>Session_Laws\<close>, \<open>Session_Properties\<close>: supervision of a command
    (\<open>pseudoroot/src/lib.rs\<close>), \<open>pdr\<close> and \<open>pdrd\<close>, the environment a command is started with, and how
    the process it becomes joins its session.
  \<^item> \<open>Darwin\<close>: the macOS side of the library (\<open>platform/macos.rs\<close>): its direct calls of the C library,
    the attribute hooks, the interposition table, and the names of shared-memory objects.
  \<^item> \<open>Build_Script\<close>, \<open>Build_Properties\<close>: the package's build script (\<open>pseudoroot/build.rs\<close>) over a file
    system as a function from path components to what is there, and that the package it builds
    from is a copy of the bundled source.
  \<^item> \<open>Wincode_Example\<close>, \<open>Codec_Example\<close>: encodings that satisfy what is assumed of the encoding
    crate, for the witnesses.

  Parameters and what is assumed of them.  The wincode crate: decoding inverts encoding
  (\<open>serde_ok\<close>, \<open>codecs_ok\<close>); messages whose encoding does not fit a 32-bit length are excluded by
  hypothesis.  The system: every call is a function of an abstract state, about which nothing is
  assumed but what a property names.  The order in which a \<open>HashMap\<close> lists its keys is a parameter.

  Loops.  Probing is bounded by the number of slots, as in the code.  The loops that may not end
  (\<open>handle_client\<close>, \<open>accept_loop\<close>, \<open>copy_dir\<close>) are partial functions into option, and that they end
  is proved.  The remaining recursions are structural or come with their measure; no fuel is used.

  Not modelled: the macOS branches of shared functions (flag values, the width of \<open>mode_t\<close> and
  \<open>dev_t\<close>, the loader's variable), symbolic links in the source tree of the build script, messages
  printed for the user, argument parsing, poisoned locks, threads inside one interposed process
  after its first use of the library, the bytes of an attribute page changing while they are copied,
  memory orders weaker than one access at a time in program order, and the integration tests and
  the benchmark, which run the built programs.
\<close>

end
